(* ===== verification/Fizz_Error.thy ===== *)
theory Fizz_Error
  imports Fizz_Prelude
begin

text \<open>
  Models \<open>src/src/error.rs\<close>: the \<open>FizzError\<close> enum, its \<open>Display\<close> texts, the
  classification of C++ exceptions by \<open>From<cxx::Exception>\<close>, and the constructor helpers.
  The lemmas give the exact condition under which each variant is produced.
\<close>

section \<open>The error type\<close>

text \<open>
  \<open>std::io::Error\<close> is its kind and its message. Only the kind \<open>Other\<close> is built by the
  crate, \<open>WriteZero\<close> by the writers of Tokio; every other kind comes from the operating system and
  is kept as its code.
\<close>

datatype ErrorKind = Other | WriteZero | OsKind nat

datatype IoErr = IoErr (io_kind: ErrorKind) (io_text: string)

datatype FizzError =
    CertificateError string
  | CredentialError string
  | TlsHandshakeError string
  | HandshakeTimeout u64
  | TlsAlertReceived string u8
  | CertificateVerificationFailed string
  | DelegatedCredentialVerificationFailed string
  | ConnectionClosed string
  | IoError IoErr
  | VerificationError string
  | CxxException string
  | InvalidArgument string
  | NotSupported string
  | InvalidState string
  | BufferTooSmall nat nat

fun error_display :: "FizzError \<Rightarrow> string" where
  "error_display (CertificateError m) = ''Certificate error: '' @ m"
| "error_display (CredentialError m) = ''Credential error: '' @ m"
| "error_display (TlsHandshakeError m) = ''TLS handshake error: '' @ m"
| "error_display (HandshakeTimeout t) =
     ''TLS handshake timed out after '' @ dec_of_nat (unat t) @ ''ms''"
| "error_display (TlsAlertReceived m c) =
     ''TLS alert received: '' @ m @ '' (code: '' @ dec_of_nat (unat c) @ '')''"
| "error_display (CertificateVerificationFailed m) =
     ''Certificate verification failed: '' @ m"
| "error_display (DelegatedCredentialVerificationFailed m) =
     ''Delegated credential verification failed: '' @ m"
| "error_display (ConnectionClosed m) = ''Connection closed unexpectedly: '' @ m"
| "error_display (IoError e) = ''I/O error: '' @ io_text e"
| "error_display (VerificationError m) = ''Verification error: '' @ m"
| "error_display (CxxException m) = ''C++ exception: '' @ m"
| "error_display (InvalidArgument m) = ''Invalid argument: '' @ m"
| "error_display (NotSupported m) = ''Not supported: '' @ m"
| "error_display (InvalidState m) = ''Invalid connection state: '' @ m"
| "error_display (BufferTooSmall needed available) =
     ''Buffer too small: needed '' @ dec_of_nat needed @ '' bytes, got '' @ dec_of_nat available"

section \<open>Classification of C++ exceptions\<close>

definition from_exception :: "string \<Rightarrow> FizzError" where
  "from_exception msg =
     (if contains ''Handshake failed'' msg \<or> contains ''handshake'' msg then
        (if contains ''certificate'' msg \<and> contains ''verif'' msg then
           CertificateVerificationFailed msg
         else if contains ''delegated credential'' msg \<or> contains ''DC'' msg then
           DelegatedCredentialVerificationFailed msg
         else if contains ''timeout'' msg \<or> contains ''timed out'' msg then
           TlsHandshakeError msg
         else if contains ''alert'' msg then TlsAlertReceived msg 0
         else TlsHandshakeError msg)
      else if contains ''connection closed'' msg \<or> contains ''EOF'' msg then
        ConnectionClosed msg
      else if contains ''invalid'' msg \<or> contains ''bad'' msg then InvalidArgument msg
      else CxxException msg)"

section \<open>Constructor helpers\<close>

definition handshake :: "string \<Rightarrow> FizzError" where
  "handshake msg = TlsHandshakeError msg"

definition cert_verification :: "string \<Rightarrow> FizzError" where
  "cert_verification msg = CertificateVerificationFailed msg"

definition dc_verification :: "string \<Rightarrow> FizzError" where
  "dc_verification msg = DelegatedCredentialVerificationFailed msg"

definition connection_closed :: "string \<Rightarrow> FizzError" where
  "connection_closed msg = ConnectionClosed msg"

definition invalid_state :: "string \<Rightarrow> FizzError" where
  "invalid_state msg = InvalidState msg"

section \<open>Lemmas\<close>

text \<open>The text an error carries, when it carries one.\<close>

fun error_message :: "FizzError \<Rightarrow> string option" where
  "error_message (HandshakeTimeout t) = None"
| "error_message (BufferTooSmall n a) = None"
| "error_message (IoError e) = Some (io_text e)"
| "error_message (TlsAlertReceived m c) = Some m"
| "error_message (CertificateError m) = Some m"
| "error_message (CredentialError m) = Some m"
| "error_message (TlsHandshakeError m) = Some m"
| "error_message (CertificateVerificationFailed m) = Some m"
| "error_message (DelegatedCredentialVerificationFailed m) = Some m"
| "error_message (ConnectionClosed m) = Some m"
| "error_message (VerificationError m) = Some m"
| "error_message (CxxException m) = Some m"
| "error_message (InvalidArgument m) = Some m"
| "error_message (NotSupported m) = Some m"
| "error_message (InvalidState m) = Some m"

abbreviation handshake_text :: "string \<Rightarrow> bool" where
  "handshake_text msg \<equiv> contains ''Handshake failed'' msg \<or> contains ''handshake'' msg"

lemma from_exception_message: "error_message (from_exception msg) = Some msg"
  by (simp add: from_exception_def)

text \<open>The variants a C++ exception can become.\<close>

lemma from_exception_cases:
  "from_exception msg \<in>
     {CertificateVerificationFailed msg, DelegatedCredentialVerificationFailed msg,
      TlsHandshakeError msg, TlsAlertReceived msg 0, ConnectionClosed msg,
      InvalidArgument msg, CxxException msg}"
  by (simp add: from_exception_def)

lemma from_exception_dc_iff:
  "from_exception msg = DelegatedCredentialVerificationFailed m \<longleftrightarrow>
     m = msg \<and> handshake_text msg
     \<and> \<not> (contains ''certificate'' msg \<and> contains ''verif'' msg)
     \<and> (contains ''delegated credential'' msg \<or> contains ''DC'' msg)"
  by (auto simp add: from_exception_def)

lemma from_exception_cxx_iff:
  "from_exception msg = CxxException m \<longleftrightarrow>
     m = msg \<and> \<not> handshake_text msg
     \<and> \<not> contains ''connection closed'' msg \<and> \<not> contains ''EOF'' msg
     \<and> \<not> contains ''invalid'' msg \<and> \<not> contains ''bad'' msg"
  by (auto simp add: from_exception_def)

text \<open>The message is embedded in what \<open>Display\<close> prints.\<close>

lemma error_display_contains_message:
  "error_message e = Some m \<Longrightarrow> contains m (error_display e)"
  by (cases e) auto

text \<open>
  The handshake test comes first: it alone decides whether one of the handshake variants is
  produced, whatever other words the message holds.
\<close>

lemma from_exception_handshake_iff:
  "handshake_text msg \<longleftrightarrow>
     from_exception msg \<in>
       {CertificateVerificationFailed msg, DelegatedCredentialVerificationFailed msg,
        TlsHandshakeError msg, TlsAlertReceived msg 0}"
  by (auto simp add: from_exception_def)

section \<open>Properties\<close>

text \<open>Converting a C++ exception keeps its text: the error carries it and \<open>Display\<close> prints
  it; and the error is one of the four handshake variants exactly when the text speaks of a
  handshake.\<close>

theorem exception_classification:
  "error_message (from_exception msg) = Some msg
   \<and> contains msg (error_display (from_exception msg))
   \<and> ((contains ''Handshake failed'' msg \<or> contains ''handshake'' msg) =
       (from_exception msg \<in>
         {CertificateVerificationFailed msg, DelegatedCredentialVerificationFailed msg,
          TlsHandshakeError msg, TlsAlertReceived msg 0}))"
  using from_exception_message [of msg] error_display_contains_message [of "from_exception msg" msg]
    from_exception_handshake_iff [of msg] by simp

end
