(* ===== verification/Fizz_Hex.thy ===== *)
theory Fizz_Hex
  imports Fizz_Prelude
begin

text \<open>
  Hexadecimal text, the form in which keys and signatures cross the FFI boundary. Models the
  encoders \<open>bytes_to_hex_lower\<close> (\<open>src/src/ffi/util.cpp\<close>) and \<open>publicKeyToDerHex\<close>
  (\<open>src/src/ffi/certificates_ffi.cpp\<close>), the Rust decoder \<open>hex_to_bytes\<close>
  (\<open>src/src/certificates.rs\<close>) and the decoding loop of \<open>verify_delegated_credential\<close>
  (\<open>src/src/ffi/credentials_ffi.cpp\<close>). The locale \<open>hex_decoder\<close> states what the two decoders
  share and is interpreted on both.
\<close>

section \<open>Digits\<close>

definition hex_char :: "nat \<Rightarrow> char" where
  "hex_char n = (if n < 10 then char_of (48 + n) else char_of (87 + n))"

text \<open>\<open>char::to_digit(16)\<close>, and the digit test of \<open>strtol\<close> in base 16.\<close>

definition hex_value :: "char \<Rightarrow> nat option" where
  "hex_value c =
     (let n = (of_char c :: nat)
      in if 48 \<le> n \<and> n \<le> 57 then Some (n - 48)
         else if 97 \<le> n \<and> n \<le> 102 then Some (n - 87)
         else if 65 \<le> n \<and> n \<le> 70 then Some (n - 55)
         else None)"

abbreviation is_hex :: "char \<Rightarrow> bool" where
  "is_hex c \<equiv> hex_value c \<noteq> None"

section \<open>Encoders\<close>

text \<open>\<open>snprintf(buf, 3, "%02x", b)\<close>.\<close>

definition hex2 :: "u8 \<Rightarrow> string" where
  "hex2 b = [hex_char (unat b div 16), hex_char (unat b mod 16)]"

fun bytes_to_hex_lower :: "u8 list \<Rightarrow> string" where
  "bytes_to_hex_lower [] = []"
| "bytes_to_hex_lower (b # bs) = hex2 b @ bytes_to_hex_lower bs"

text \<open>
  An output stream in \<open>std::hex\<close> mode with \<open>setw(w)\<close> and \<open>setfill('0')\<close>: the digits of
  the number, padded on the left to at least \<open>w\<close> characters.
\<close>

fun hex_of_nat :: "nat \<Rightarrow> string" where
  "hex_of_nat n =
     (if n < 16 then [hex_char n] else hex_of_nat (n div 16) @ [hex_char (n mod 16)])"

declare hex_of_nat.simps [simp del]

definition hex_setw :: "nat \<Rightarrow> nat \<Rightarrow> string" where
  "hex_setw w n = replicate (w - length (hex_of_nat n)) (CHR ''0'') @ hex_of_nat n"

text \<open>
  \<open>publicKeyToDerHex\<close>: \<open>i2d_PUBKEY\<close> is OpenSSL's, so its result (\<open>None\<close> for a negative
  length) is the argument.
\<close>

definition publicKeyToDerHex :: "u8 list option \<Rightarrow> string + string" where
  "publicKeyToDerHex der =
     (case der of
        None \<Rightarrow> Inl ''Failed to encode public key to DER''
      | Some bs \<Rightarrow> Inr (concat (map (\<lambda>b. hex_setw 2 (unat b)) bs)))"

section \<open>The Rust decoder\<close>

text \<open>\<open>str::get(i..j)\<close>: \<open>None\<close> out of range or inside a UTF-8 sequence.\<close>

definition is_char_boundary :: "string \<Rightarrow> nat \<Rightarrow> bool" where
  "is_char_boundary s k \<longleftrightarrow>
     k = 0 \<or> k = length s \<or> (k < length s \<and> (of_char (s ! k) :: nat) div 64 \<noteq> 2)"

definition str_get :: "string \<Rightarrow> nat \<Rightarrow> nat \<Rightarrow> string option" where
  "str_get s i j =
     (if i \<le> j \<and> j \<le> length s \<and> is_char_boundary s i \<and> is_char_boundary s j
      then Some (take (j - i) (drop i s)) else None)"

text \<open>\<open>u8::from_str_radix(s, 16).ok()\<close>.\<close>

fun radix16_digits :: "nat \<Rightarrow> string \<Rightarrow> nat option" where
  "radix16_digits acc [] = Some acc"
| "radix16_digits acc (c # cs) =
     (case hex_value c of
        None \<Rightarrow> None
      | Some d \<Rightarrow> if 16 * acc + d < 256 then radix16_digits (16 * acc + d) cs else None)"

definition u8_from_str_radix16 :: "string \<Rightarrow> u8 option" where
  "u8_from_str_radix16 s =
     (let digits = (case s of c # cs \<Rightarrow> if c = CHR ''+'' then cs else s | [] \<Rightarrow> [])
      in if digits = [] then None else map_option of_nat (radix16_digits 0 digits))"

definition hex_to_bytes :: "string \<Rightarrow> u8 list" where
  "hex_to_bytes hex =
     List.map_filter (\<lambda>i. Option.bind (str_get hex i (i + 2)) u8_from_str_radix16)
       (map (\<lambda>k. 2 * k) [0..<(length hex + 1) div 2])"

section \<open>The C++ decoder\<close>

text \<open>
  \<open>std::stoi(s, nullptr, 16)\<close>, that is \<open>strtol\<close>: white space, a sign, an optional
  \<open>0x\<close>, then digits up to the first other character; \<open>None\<close> when there is no digit
  (\<open>std::invalid_argument\<close>). The callers pass at most two characters, so the value is
  always in range.
\<close>

definition is_space :: "char \<Rightarrow> bool" where
  "is_space c \<longleftrightarrow> (of_char c :: nat) = 32 \<or> (9 \<le> (of_char c :: nat) \<and> (of_char c :: nat) \<le> 13)"

fun strip_0x :: "string \<Rightarrow> string" where
  "strip_0x (z # x # d # s) =
     (if z = CHR ''0'' \<and> (x = CHR ''x'' \<or> x = CHR ''X'') \<and> is_hex d then d # s
      else z # x # d # s)"
| "strip_0x s = s"

fun hex_number :: "string \<Rightarrow> nat" where
  "hex_number s = foldl (\<lambda>n c. 16 * n + the (hex_value c)) 0 s"

definition strtol16 :: "string \<Rightarrow> int option" where
  "strtol16 s =
     (let t = dropWhile is_space s;
          neg = (t \<noteq> [] \<and> hd t = CHR ''-'');
          u = (if t \<noteq> [] \<and> (hd t = CHR ''-'' \<or> hd t = CHR ''+'') then tl t else t);
          ds = takeWhile is_hex (strip_0x u)
      in if ds = [] then None
         else Some (if neg then - int (hex_number ds) else int (hex_number ds)))"

text \<open>
  The loop \<open>for (i = 0; i < hex.length(); i += 2)\<close> over \<open>hex.substr(i, 2)\<close>, with
  \<open>static_cast<uint8_t>\<close>; \<open>None\<close> is the exception that ends it.
\<close>

fun parse_hex_bytes :: "string \<Rightarrow> u8 list option" where
  "parse_hex_bytes [] = Some []"
| "parse_hex_bytes [a] = map_option (\<lambda>v. [of_int v]) (strtol16 [a])"
| "parse_hex_bytes (a # b # s) =
     (case strtol16 [a, b] of
        None \<Rightarrow> None
      | Some v \<Rightarrow> map_option (\<lambda>bs. of_int v # bs) (parse_hex_bytes s))"

section \<open>What the decoders share\<close>

definition pair_value :: "char \<Rightarrow> char \<Rightarrow> u8" where
  "pair_value a b = of_nat (16 * the (hex_value a) + the (hex_value b))"

lemma hex_value_hex_char [simp]: "n < 16 \<Longrightarrow> hex_value (hex_char n) = Some n"
  by (auto simp add: hex_value_def hex_char_def Let_def)

lemma hex_value_less: "hex_value c = Some n \<Longrightarrow> n < 16"
  by (auto simp add: hex_value_def Let_def split: if_splits)

lemma pair_value_hex2: "pair_value (hex_char (unat b div 16)) (hex_char (unat b mod 16)) = b"
  by (simp add: pair_value_def)

lemma hex2_hex: "c \<in> set (hex2 b) \<Longrightarrow> is_hex c"
  by (auto simp add: hex2_def)

lemma bytes_to_hex_lower_hex: "list_all is_hex (bytes_to_hex_lower bs)"
  by (induction bs) (auto simp: list_all_iff dest: hex2_hex)

lemma length_bytes_to_hex_lower [simp]: "length (bytes_to_hex_lower bs) = 2 * length bs"
  by (induction bs) (auto simp: hex2_def)

locale hex_decoder =
  fixes dec :: "string \<Rightarrow> u8 list option"
  assumes dec_Nil: "dec [] = Some []"
    and dec_pair: "is_hex a \<Longrightarrow> is_hex b \<Longrightarrow> list_all is_hex s \<Longrightarrow>
      dec (a # b # s) = map_option (\<lambda>bs. pair_value a b # bs) (dec s)"
begin

lemma dec_encode: "dec (bytes_to_hex_lower bs) = Some bs"
proof (induction bs)
  case Nil
  show ?case by (simp add: dec_Nil)
next
  case (Cons b bs)
  have "dec (hex_char (unat b div 16) # hex_char (unat b mod 16) # bytes_to_hex_lower bs)
      = map_option (\<lambda>r. pair_value (hex_char (unat b div 16)) (hex_char (unat b mod 16)) # r)
          (dec (bytes_to_hex_lower bs))"
    using hex2_hex [of _ b] bytes_to_hex_lower_hex [of bs] by (intro dec_pair) (auto simp: hex2_def)
  with Cons show ?case
    by (simp add: hex2_def pair_value_hex2)
qed

lemma dec_total: "list_all is_hex s \<Longrightarrow> even (length s) \<Longrightarrow>
    \<exists>bs. dec s = Some bs \<and> 2 * length bs = length s"
proof (induction s rule: induct_list012)
  case 1
  then show ?case by (simp add: dec_Nil)
next
  case (2 a)
  then show ?case by simp
next
  case (3 a b s)
  then obtain bs where "dec s = Some bs" "2 * length bs = length s" by auto
  with 3 show ?case by (auto simp: dec_pair)
qed

end

text \<open>Two decoders of the interface agree on well-formed text.\<close>

lemma hex_decoders_agree:
  assumes "hex_decoder d1" and "hex_decoder d2"
  shows "list_all is_hex s \<Longrightarrow> even (length s) \<Longrightarrow> d1 s = d2 s"
proof (induction s rule: induct_list012)
  case 1
  show ?case using assms by (simp add: hex_decoder.dec_Nil)
next
  case (2 a)
  then show ?case by simp
next
  case (3 a b s)
  then show ?case using assms by (simp add: hex_decoder.dec_pair)
qed

section \<open>Both decoders provide the interface\<close>

lemma hex_not_space: "is_hex c \<Longrightarrow> \<not> is_space c"
  by (auto simp: is_space_def hex_value_def Let_def split: if_splits)

lemma hex_not_sign: "is_hex c \<Longrightarrow> c \<noteq> CHR ''+'' \<and> c \<noteq> CHR ''-''"
  by (auto simp: hex_value_def Let_def)

lemma strtol16_pair:
  assumes "is_hex a" and "is_hex b"
  shows "strtol16 [a, b] = Some (int (16 * the (hex_value a) + the (hex_value b)))"
  using assms hex_not_sign [of a] hex_not_space [of a]
  by (auto simp: strtol16_def Let_def)

interpretation cpp_hex: hex_decoder parse_hex_bytes
proof
  show "parse_hex_bytes [] = Some []" by simp
next
  fix a b :: char and s
  assume "is_hex a" "is_hex b" "list_all is_hex s"
  then show "parse_hex_bytes (a # b # s) = map_option (\<lambda>bs. pair_value a b # bs) (parse_hex_bytes s)"
    by (simp add: strtol16_pair pair_value_def)
qed

lemma radix16_pair:
  assumes "is_hex a" and "is_hex b"
  shows "u8_from_str_radix16 [a, b] = Some (pair_value a b)"
proof -
  from assms obtain m n where v: "hex_value a = Some m" "hex_value b = Some n" by auto
  then have "m < 16" "n < 16" by (auto dest: hex_value_less)
  with v hex_not_sign [OF assms(1)] show ?thesis
    by (simp add: u8_from_str_radix16_def pair_value_def)
qed

lemma hex_is_char_boundary: "list_all is_hex s \<Longrightarrow> k \<le> length s \<Longrightarrow> is_char_boundary s k"
proof (cases "k < length s")
  case True
  assume "list_all is_hex s"
  with True have "is_hex (s ! k)" by (simp add: list_all_length)
  then have "(of_char (s ! k) :: nat) < 128"
    by (auto simp: hex_value_def Let_def split: if_splits)
  then have "(of_char (s ! k) :: nat) div 64 \<noteq> 2" by arith
  with True show ?thesis by (simp add: is_char_boundary_def)
qed (simp add: is_char_boundary_def)

lemma hex_str_get: "list_all is_hex s \<Longrightarrow>
    str_get s i j = (if i \<le> j \<and> j \<le> length s then Some (take (j - i) (drop i s)) else None)"
  by (simp add: str_get_def hex_is_char_boundary)

lemma hex_to_bytes_pair:
  assumes "is_hex a" and "is_hex b" and "list_all is_hex s"
  shows "hex_to_bytes (a # b # s) = pair_value a b # hex_to_bytes s"
proof -
  let ?f = "\<lambda>t i. Option.bind (str_get t i (i + 2)) u8_from_str_radix16"
  have s': "list_all is_hex (a # b # s)" using assms by simp
  have shift: "?f (a # b # s) (2 * Suc k) = ?f s (2 * k)" for k
    by (simp add: hex_str_get [OF s'] hex_str_get [OF assms(3)])
  have zero: "?f (a # b # s) 0 = Some (pair_value a b)"
    by (simp add: hex_str_get [OF s'] radix16_pair [OF assms(1,2)])
  have "[0..<(length (a # b # s) + 1) div 2] = 0 # map Suc [0..<(length s + 1) div 2]"
    by (simp add: map_Suc_upt upt_conv_Cons)
  then have "hex_to_bytes (a # b # s)
      = List.map_filter (\<lambda>k. ?f (a # b # s) (2 * k)) (0 # map Suc [0..<(length s + 1) div 2])"
    by (simp only: hex_to_bytes_def map_filter_map)
  also have "\<dots> = pair_value a b # List.map_filter (\<lambda>k. ?f s (2 * k)) [0..<(length s + 1) div 2]"
    by (simp only: map_filter_map shift zero List.map_filter_simps mult_0_right option.case)
  finally show ?thesis
    by (simp only: hex_to_bytes_def map_filter_map)
qed

interpretation rust_hex: hex_decoder "\<lambda>s. Some (hex_to_bytes s)"
  by unfold_locales (simp_all add: hex_to_bytes_pair, simp add: hex_to_bytes_def List.map_filter_def)

section \<open>The stream encoder is the same encoding\<close>

lemma hex_char_0: "hex_char 0 = CHR ''0''"
  by (simp add: hex_char_def char_of_def bit_0)

lemma hex_setw_byte: "hex_setw 2 (unat b) = hex2 b"
proof -
  have d: "unat b div 16 < 16" by simp
  show ?thesis
  proof (cases "unat b < 16")
    case True
    then show ?thesis
      by (simp add: hex_setw_def hex2_def hex_of_nat.simps [of "unat b"] hex_char_0)
  next
    case False
    with d show ?thesis
      by (simp add: hex_setw_def hex2_def hex_of_nat.simps [of "unat b"]
          hex_of_nat.simps [of "unat b div 16"])
  qed
qed

lemma publicKeyToDerHex_Some [simp]: "publicKeyToDerHex (Some bs) = Inr (bytes_to_hex_lower bs)"
  by (induction bs) (simp_all add: publicKeyToDerHex_def hex_setw_byte)

lemma publicKeyToDerHex_InrE:
  assumes "publicKeyToDerHex der = Inr s"
  obtains bs where "der = Some bs" and "s = bytes_to_hex_lower bs"
proof (cases der)
  case None
  with assms show ?thesis by (simp add: publicKeyToDerHex_def)
next
  case (Some bs)
  with assms that show ?thesis by simp
qed

lemma bytes_to_hex_lower_inject [simp]: "bytes_to_hex_lower a = bytes_to_hex_lower b \<longleftrightarrow> a = b"
  by (metis cpp_hex.dec_encode option.inject)

section \<open>Properties\<close>

text \<open>Both decoders invert the encoder: what \<open>bytes_to_hex_lower\<close> or the stream encoder of
  \<open>publicKeyToDerHex\<close> writes, the C++ loop and Rust's \<open>hex_to_bytes\<close> read back.\<close>

theorem hex_round_trip:
  "parse_hex_bytes (bytes_to_hex_lower bs) = Some bs
   \<and> hex_to_bytes (bytes_to_hex_lower bs) = bs
   \<and> publicKeyToDerHex (Some bs) = Inr (bytes_to_hex_lower bs)"
  using cpp_hex.dec_encode [of bs] rust_hex.dec_encode [of bs] by simp

text \<open>On text that is hexadecimal digits of even length, in either case, the C++ decoder and the
  Rust decoder give the same bytes, half as many as the text has digits.\<close>

theorem hex_decoders_same:
  assumes "list_all is_hex s" and "even (length s)"
  shows "parse_hex_bytes s = Some (hex_to_bytes s) \<and> 2 * length (hex_to_bytes s) = length s"
proof
  show "parse_hex_bytes s = Some (hex_to_bytes s)"
    by (rule hex_decoders_agree [OF cpp_hex.hex_decoder_axioms rust_hex.hex_decoder_axioms assms])
  show "2 * length (hex_to_bytes s) = length s"
    using rust_hex.dec_total [OF assms] by simp
qed

theorem hex_decoders_same_witness:
  "parse_hex_bytes ''0aFf'' = Some (hex_to_bytes ''0aFf'') \<and> 2 * length (hex_to_bytes ''0aFf'') = 4"
  using hex_decoders_same [of "''0aFf''"] by (simp add: hex_value_def Let_def)

end
