(* ===== verification/Fizz_Types.thy ===== *)
theory Fizz_Types
  imports Fizz_Prelude
begin

text \<open>
  The data that crosses the FFI boundary: the shared structs of \<open>src/src/bridge.rs\<close>
  and the \<open>SignatureScheme\<close> enum of \<open>src/src/types.rs\<close>. Several structs have fields of
  the same name, so a field carries the initials of its struct.
\<close>

section \<open>Signature schemes\<close>

datatype SignatureScheme =
    EcdsaSecp256r1Sha256
  | EcdsaSecp384r1Sha384
  | EcdsaSecp521r1Sha512
  | RsaPssRsaeSha256
  | RsaPssRsaeSha384
  | RsaPssRsaeSha512

definition from_u16 :: "u16 \<Rightarrow> SignatureScheme option" where
  "from_u16 v =
     (if v = 0x0403 then Some EcdsaSecp256r1Sha256
      else if v = 0x0503 then Some EcdsaSecp384r1Sha384
      else if v = 0x0603 then Some EcdsaSecp521r1Sha512
      else if v = 0x0804 then Some RsaPssRsaeSha256
      else if v = 0x0805 then Some RsaPssRsaeSha384
      else if v = 0x0806 then Some RsaPssRsaeSha512
      else None)"

fun as_u16 :: "SignatureScheme \<Rightarrow> u16" where
  "as_u16 EcdsaSecp256r1Sha256 = 0x0403"
| "as_u16 EcdsaSecp384r1Sha384 = 0x0503"
| "as_u16 EcdsaSecp521r1Sha512 = 0x0603"
| "as_u16 RsaPssRsaeSha256 = 0x0804"
| "as_u16 RsaPssRsaeSha384 = 0x0805"
| "as_u16 RsaPssRsaeSha512 = 0x0806"

section \<open>Shared structs\<close>

record DelegatedCredential =
  dc_valid_time :: u32
  dc_expected_verify_scheme :: u16
  dc_public_key_der :: string
  dc_credential_scheme :: u16
  dc_signature :: string

record ServiceCredential =
  sc_service_name :: string
  sc_credential :: DelegatedCredential
  sc_private_key_pem :: string
  sc_public_key_der :: string
  sc_created_at :: u64
  sc_expires_at :: u64
  sc_credential_pem :: string

record VerificationInfo =
  vi_service_name :: string
  vi_valid_time :: u32
  vi_expected_verify_scheme :: u16
  vi_public_key_der :: string
  vi_expires_at :: u64

record CertificateData =
  cd_cert_pem :: string
  cd_key_pem :: string
  cd_sig_schemes :: "u16 list"

record CertificatePublic =
  cp_cert_pem :: string
  cp_sig_schemes :: "u16 list"

record ReadOutcome =
  ro_bytes_read :: u64
  ro_eof :: bool

text \<open>\<open>DelegatedCredentialData\<close> of \<open>src/src/credentials.rs\<close> wraps a service credential.\<close>

record DelegatedCredentialData =
  dcd_inner :: ServiceCredential

section \<open>The scheme codes are a partial inverse pair\<close>

lemma from_u16_as_u16 [simp]: "from_u16 (as_u16 s) = Some s"
  by (cases s) (simp_all add: from_u16_def)

lemma from_u16_SomeD: "from_u16 v = Some s \<Longrightarrow> as_u16 s = v"
  by (auto simp: from_u16_def split: if_splits)

lemma from_u16_iff: "from_u16 v = Some s \<longleftrightarrow> v = as_u16 s"
  by (auto dest: from_u16_SomeD)

lemma from_u16_None_iff: "from_u16 v = None \<longleftrightarrow> v \<notin> range as_u16"
  by (metis from_u16_iff option.exhaust option.simps(3) rangeE rangeI)

lemma as_u16_inject [simp]: "as_u16 a = as_u16 b \<longleftrightarrow> a = b"
  by (metis from_u16_as_u16 option.inject)

section \<open>Properties\<close>

text \<open>The wire codes of signature schemes: \<open>from_u16\<close> recognises exactly the codes that \<open>as_u16\<close>
  produces, each as its own scheme, and refuses every other number.\<close>

theorem scheme_code_round_trip:
  "(from_u16 v = Some s) = (v = as_u16 s) \<and> (from_u16 v = None) = (v \<notin> range as_u16)"
  by (simp add: from_u16_iff from_u16_None_iff)

end
