(* ===== verification/Fizz_Certificates.thy ===== *)
theory Fizz_Certificates
  imports Fizz_Error Fizz_Hex Fizz_Types
begin

text \<open>
  Certificates and private keys: \<open>src/src/certificates.rs\<close> over
  \<open>src/src/ffi/certificates_ffi.cpp\<close>. OpenSSL, fizz's \<open>CertUtils\<close> and the file system are
  the fields of the record \<open>crypto\<close>, one per call the code makes. A C++ function that
  the bridge declares with a \<open>Result\<close> turns its exception into a \<open>FizzError\<close>
  (\<open>ffi_result\<close>); one it declares without terminates the process (\<open>ffi_abort\<close>).
\<close>

section \<open>What the code calls\<close>

record ('x, 'k, 't) crypto =
  bio_alloc :: bool
  pem_read_x509 :: "string \<Rightarrow> 'x option"
  pem_read_key :: "string \<Rightarrow> 'k option"
  pem_write_key :: "'k \<Rightarrow> string option"
  x509_get_pubkey :: "'x \<Rightarrow> 'k option"
  i2d_pubkey :: "'k \<Rightarrow> u8 list option"
  getKeyType :: "'k \<Rightarrow> string + 't"
  getSigSchemes :: "'t \<Rightarrow> u16 list"
  read_path :: "string \<Rightarrow> string option"
  pkey_ctx_new :: bool
  keygen_init :: bool
  set_curve_p256 :: bool
  keygen :: "'k option"

text \<open>The two ways a C++ exception reaches Rust through the bridge.\<close>

definition ffi_result :: "string + 'a \<Rightarrow> FizzError + 'a" where
  "ffi_result r = map_err from_exception r"

fun ffi_abort :: "string + 'a \<Rightarrow> 'a option" where
  "ffi_abort (Inl w) = None"
| "ffi_abort (Inr x) = Some x"

section \<open>C++ helpers\<close>

definition pemToKey :: "('x, 'k, 't) crypto \<Rightarrow> string \<Rightarrow> string + 'k" where
  "pemToKey K pem =
     (if \<not> bio_alloc K then Inl ''Failed to create BIO for private key''
      else ok_or ''Failed to read private key from PEM'' (pem_read_key K pem))"

definition keyToPem :: "('x, 'k, 't) crypto \<Rightarrow> 'k \<Rightarrow> string + string" where
  "keyToPem K key =
     (if \<not> bio_alloc K then Inl ''Failed to create BIO''
      else ok_or ''Failed to write private key to BIO'' (pem_write_key K key))"

definition pemToCert :: "('x, 'k, 't) crypto \<Rightarrow> string \<Rightarrow> string + 'x" where
  "pemToCert K pem =
     (if \<not> bio_alloc K then Inl ''Failed to create BIO for certificate''
      else ok_or ''Failed to read certificate from PEM'' (pem_read_x509 K pem))"

definition readFile :: "('x, 'k, 't) crypto \<Rightarrow> string \<Rightarrow> string + string" where
  "readFile K path = ok_or (''Failed to open file: '' @ path) (read_path K path)"

section \<open>C++ certificate loading\<close>

definition load_certificate_from_pem ::
  "('x, 'k, 't) crypto \<Rightarrow> string \<Rightarrow> string \<Rightarrow> string + CertificateData" where
  "load_certificate_from_pem K cert_pem key_pem =
     rethrow ''Failed to load certificate from PEM: ''
       (and_then (pemToCert K cert_pem) (\<lambda>cert.
        and_then (pemToKey K key_pem) (\<lambda>key.
        and_then (getKeyType K key) (\<lambda>keyType.
        Inr \<lparr>cd_cert_pem = cert_pem, cd_key_pem = key_pem,
             cd_sig_schemes = getSigSchemes K keyType\<rparr>))))"

definition load_certificate_from_file ::
  "('x, 'k, 't) crypto \<Rightarrow> string \<Rightarrow> string \<Rightarrow> string + CertificateData" where
  "load_certificate_from_file K cert_path key_path =
     rethrow ''Failed to load certificate from files: ''
       (and_then (readFile K cert_path) (\<lambda>cert_pem.
        and_then (readFile K key_path) (\<lambda>key_pem.
        load_certificate_from_pem K cert_pem key_pem)))"

definition get_certificate_sig_schemes :: "CertificateData \<Rightarrow> u16 list" where
  "get_certificate_sig_schemes cert_data = cd_sig_schemes cert_data"

definition certificate_to_pem :: "CertificateData \<Rightarrow> string" where
  "certificate_to_pem cert_data = cd_cert_pem cert_data"

definition load_certificate_public_from_pem ::
  "('x, 'k, 't) crypto \<Rightarrow> string \<Rightarrow> string + CertificatePublic" where
  "load_certificate_public_from_pem K cert_pem =
     rethrow ''Failed to load certificate from PEM: ''
       (and_then (pemToCert K cert_pem) (\<lambda>cert.
        and_then (ok_or ''Failed to extract public key from certificate''
                    (x509_get_pubkey K cert)) (\<lambda>pubkey.
        and_then (getKeyType K pubkey) (\<lambda>keyType.
        Inr \<lparr>cp_cert_pem = cert_pem, cp_sig_schemes = getSigSchemes K keyType\<rparr>))))"

definition load_certificate_public_from_file ::
  "('x, 'k, 't) crypto \<Rightarrow> string \<Rightarrow> string + CertificatePublic" where
  "load_certificate_public_from_file K cert_path =
     rethrow ''Failed to load certificate from file: ''
       (and_then (readFile K cert_path) (load_certificate_public_from_pem K))"

section \<open>C++ private keys\<close>

definition load_private_key_from_pem :: "('x, 'k, 't) crypto \<Rightarrow> string \<Rightarrow> string + 'k" where
  "load_private_key_from_pem K key_pem =
     rethrow ''Failed to load private key from PEM: '' (pemToKey K key_pem)"

definition generate_ec_p256_keypair :: "('x, 'k, 't) crypto \<Rightarrow> string + 'k" where
  "generate_ec_p256_keypair K =
     rethrow ''Failed to generate EC P-256 keypair: ''
       (if \<not> pkey_ctx_new K then Inl ''Failed to create EVP_PKEY_CTX''
        else if \<not> keygen_init K then Inl ''Failed to initialize keygen''
        else if \<not> set_curve_p256 K then Inl ''Failed to set curve to P-256''
        else ok_or ''Failed to generate EC key'' (keygen K))"

definition private_key_to_pem :: "('x, 'k, 't) crypto \<Rightarrow> 'k \<Rightarrow> string + string" where
  "private_key_to_pem K key =
     rethrow ''Failed to convert private key to PEM: '' (keyToPem K key)"

definition get_public_key_der :: "('x, 'k, 't) crypto \<Rightarrow> 'k \<Rightarrow> string + string" where
  "get_public_key_der K key =
     rethrow ''Failed to get public key DER: '' (publicKeyToDerHex (i2d_pubkey K key))"

section \<open>The Rust wrappers\<close>

record Certificate =
  cert_inner :: CertificateData

record CertificatePublicHandle =
  pub_inner :: CertificatePublic

record 'k PrivateKey =
  pk_inner :: 'k

definition Certificate_load_from_pem ::
  "('x, 'k, 't) crypto \<Rightarrow> string \<Rightarrow> string \<Rightarrow> FizzError + Certificate" where
  "Certificate_load_from_pem K cert_pem key_pem =
     map_ok (\<lambda>inner. \<lparr>cert_inner = inner\<rparr>)
       (ffi_result (load_certificate_from_pem K cert_pem key_pem))"

definition Certificate_load_from_files ::
  "('x, 'k, 't) crypto \<Rightarrow> string \<Rightarrow> string \<Rightarrow> FizzError + Certificate" where
  "Certificate_load_from_files K cert_path key_path =
     map_ok (\<lambda>inner. \<lparr>cert_inner = inner\<rparr>)
       (ffi_result (load_certificate_from_file K cert_path key_path))"

definition Certificate_to_pem :: "Certificate \<Rightarrow> string" where
  "Certificate_to_pem c = certificate_to_pem (cert_inner c)"

definition Certificate_signature_schemes :: "Certificate \<Rightarrow> u16 list" where
  "Certificate_signature_schemes c = get_certificate_sig_schemes (cert_inner c)"

definition CertificatePublic_load_from_pem ::
  "('x, 'k, 't) crypto \<Rightarrow> string \<Rightarrow> FizzError + CertificatePublicHandle" where
  "CertificatePublic_load_from_pem K cert_pem =
     map_ok (\<lambda>inner. \<lparr>pub_inner = inner\<rparr>)
       (ffi_result (load_certificate_public_from_pem K cert_pem))"

definition CertificatePublic_load_from_file ::
  "('x, 'k, 't) crypto \<Rightarrow> string \<Rightarrow> FizzError + CertificatePublicHandle" where
  "CertificatePublic_load_from_file K cert_path =
     map_ok (\<lambda>inner. \<lparr>pub_inner = inner\<rparr>)
       (ffi_result (load_certificate_public_from_file K cert_path))"

definition CertificatePublic_to_pem :: "CertificatePublicHandle \<Rightarrow> string" where
  "CertificatePublic_to_pem c = cp_cert_pem (pub_inner c)"

definition CertificatePublic_signature_schemes :: "CertificatePublicHandle \<Rightarrow> u16 list" where
  "CertificatePublic_signature_schemes c = cp_sig_schemes (pub_inner c)"

definition PrivateKey_generate_ec_p256 ::
  "('x, 'k, 't) crypto \<Rightarrow> FizzError + 'k PrivateKey" where
  "PrivateKey_generate_ec_p256 K =
     map_ok (\<lambda>inner. \<lparr>pk_inner = inner\<rparr>) (ffi_result (generate_ec_p256_keypair K))"

definition PrivateKey_from_pem ::
  "('x, 'k, 't) crypto \<Rightarrow> string \<Rightarrow> FizzError + 'k PrivateKey" where
  "PrivateKey_from_pem K pem =
     map_ok (\<lambda>inner. \<lparr>pk_inner = inner\<rparr>) (ffi_result (load_private_key_from_pem K pem))"

definition PrivateKey_to_pem :: "('x, 'k, 't) crypto \<Rightarrow> 'k PrivateKey \<Rightarrow> string option" where
  "PrivateKey_to_pem K k = ffi_abort (private_key_to_pem K (pk_inner k))"

definition PrivateKey_public_key_der_hex ::
  "('x, 'k, 't) crypto \<Rightarrow> 'k PrivateKey \<Rightarrow> string option" where
  "PrivateKey_public_key_der_hex K k = ffi_abort (get_public_key_der K (pk_inner k))"

definition PrivateKey_public_key_der ::
  "('x, 'k, 't) crypto \<Rightarrow> 'k PrivateKey \<Rightarrow> u8 list option" where
  "PrivateKey_public_key_der K k = map_option hex_to_bytes (PrivateKey_public_key_der_hex K k)"

section \<open>Lemmas\<close>

lemma ffi_result_eq_Inr [res_simps]: "ffi_result r = Inr x \<longleftrightarrow> r = Inr x"
  by (simp add: ffi_result_def res_simps)

lemma ffi_result_eq_Inl [res_simps]:
  "ffi_result r = Inl e \<longleftrightarrow> (\<exists>w. r = Inl w \<and> e = from_exception w)"
  by (simp add: ffi_result_def res_simps)

lemma ok_or_eq [res_simps]:
  "ok_or e x = Inr y \<longleftrightarrow> x = Some y"
  "ok_or e x = Inl f \<longleftrightarrow> x = None \<and> f = e"
  by (cases x; auto)+

lemma pem_parse_iff [res_simps]:
  "pemToCert K pem = Inr x \<longleftrightarrow> bio_alloc K \<and> pem_read_x509 K pem = Some x"
  "pemToKey K pem = Inr k \<longleftrightarrow> bio_alloc K \<and> pem_read_key K pem = Some k"
  "readFile K path = Inr text \<longleftrightarrow> read_path K path = Some text"
  by (simp_all add: pemToCert_def pemToKey_def readFile_def res_simps)

lemma load_certificate_from_pem_iff:
  "load_certificate_from_pem K cert_pem key_pem = Inr d \<longleftrightarrow>
     bio_alloc K \<and> (\<exists>x. pem_read_x509 K cert_pem = Some x)
     \<and> (\<exists>k t. pem_read_key K key_pem = Some k \<and> getKeyType K k = Inr t
         \<and> d = \<lparr>cd_cert_pem = cert_pem, cd_key_pem = key_pem, cd_sig_schemes = getSigSchemes K t\<rparr>)"
  by (auto simp: load_certificate_from_pem_def res_simps)

lemma load_certificate_public_from_pem_iff:
  "load_certificate_public_from_pem K cert_pem = Inr d \<longleftrightarrow>
     bio_alloc K \<and> (\<exists>x k t. pem_read_x509 K cert_pem = Some x \<and> x509_get_pubkey K x = Some k
       \<and> getKeyType K k = Inr t
       \<and> d = \<lparr>cp_cert_pem = cert_pem, cp_sig_schemes = getSigSchemes K t\<rparr>)"
  by (auto simp: load_certificate_public_from_pem_def res_simps)

lemma load_certificate_from_file_iff:
  "load_certificate_from_file K cert_path key_path = Inr d \<longleftrightarrow>
     (\<exists>c k. read_path K cert_path = Some c \<and> read_path K key_path = Some k
       \<and> load_certificate_from_pem K c k = Inr d)"
  by (auto simp: load_certificate_from_file_def res_simps)

text \<open>An error that comes through the bridge is never one of the domain variants.\<close>

lemma ffi_result_error_class:
  assumes "ffi_result r = Inl e"
  shows "e \<noteq> CertificateError m \<and> e \<noteq> CredentialError m \<and> e \<noteq> VerificationError m"
proof -
  from assms obtain w where "e = from_exception w" by (auto simp: res_simps)
  then show ?thesis using from_exception_cases [of w] by auto
qed

section \<open>A concrete instance\<close>

text \<open>A library under which no file exists and nothing parses.\<close>

definition no_crypto :: "(unit, unit, unit) crypto" where
  "no_crypto =
     \<lparr>bio_alloc = True, pem_read_x509 = (\<lambda>_. None), pem_read_key = (\<lambda>_. None),
      pem_write_key = (\<lambda>_. None), x509_get_pubkey = (\<lambda>_. None), i2d_pubkey = (\<lambda>_. None),
      getKeyType = (\<lambda>_. Inl ''unknown key type''), getSigSchemes = (\<lambda>_. []),
      read_path = (\<lambda>_. None), pkey_ctx_new = False, keygen_init = False,
      set_curve_p256 = False, keygen = None\<rparr>"

section \<open>Properties\<close>

text \<open>Loading a certificate from files succeeds exactly when both files can be read, the first
  parses as a certificate and the second as a private key of a known type; the result holds the
  two texts unchanged and the schemes of the key.\<close>

theorem certificate_files_iff:
  "Certificate_load_from_files K cert_path key_path = Inr c \<longleftrightarrow>
     bio_alloc K \<and> (\<exists>cert key x k t.
       read_path K cert_path = Some cert \<and> read_path K key_path = Some key
       \<and> pem_read_x509 K cert = Some x \<and> pem_read_key K key = Some k \<and> getKeyType K k = Inr t
       \<and> Certificate_to_pem c = cert \<and> cd_key_pem (cert_inner c) = key
       \<and> Certificate_signature_schemes c = getSigSchemes K t)"
proof -
  have "Certificate_load_from_files K cert_path key_path = Inr c \<longleftrightarrow>
      load_certificate_from_file K cert_path key_path = Inr (cert_inner c)"
    by (cases c) (auto simp: Certificate_load_from_files_def res_simps)
  then show ?thesis
    unfolding load_certificate_from_file_iff load_certificate_from_pem_iff
    by (cases "cert_inner c")
      (auto simp: Certificate_to_pem_def certificate_to_pem_def Certificate_signature_schemes_def
        get_certificate_sig_schemes_def)
qed

text \<open>A failure to load a certificate or a key is never reported as \<open>CertificateError\<close>, the
  variant meant for it: every error comes through the exception classifier, with the text of the
  exception.\<close>

theorem certificate_error_variant:
  assumes "Certificate_load_from_files K cert_path key_path = Inl e"
  shows "e \<noteq> CertificateError m \<and>
    (\<exists>w. e = from_exception w \<and> prefix ''Failed to load certificate from files: '' w)"
proof -
  from assms have f: "ffi_result (load_certificate_from_file K cert_path key_path) = Inl e"
    by (simp add: Certificate_load_from_files_def res_simps)
  then obtain w where "load_certificate_from_file K cert_path key_path = Inl w" "e = from_exception w"
    by (auto simp: res_simps)
  moreover from this have "prefix ''Failed to load certificate from files: '' w"
    by (auto simp: load_certificate_from_file_def res_simps)
  ultimately show ?thesis using ffi_result_error_class [OF f] by blast
qed

theorem certificate_error_variant_witness:
  "\<exists>e. Certificate_load_from_files no_crypto ''c'' ''k'' = Inl e \<and> e \<noteq> CertificateError ''x''"
proof -
  have "Certificate_load_from_files no_crypto ''c'' ''k'' =
      Inl (from_exception ''Failed to load certificate from files: Failed to open file: c'')"
    by (simp add: Certificate_load_from_files_def load_certificate_from_file_def readFile_def
        no_crypto_def ffi_result_def rethrow_def)
  with certificate_error_variant [OF this, of "''x''"] show ?thesis by blast
qed

text \<open>The public key that \<open>PrivateKey::public_key_der\<close> returns, which travels as hexadecimal text
  through the bridge, is exactly OpenSSL's DER encoding of the key.\<close>

theorem public_key_der_exact:
  "PrivateKey_public_key_der K k = i2d_pubkey K (pk_inner k)"
proof (cases "i2d_pubkey K (pk_inner k)")
  case None
  then show ?thesis
    by (simp add: PrivateKey_public_key_der_def PrivateKey_public_key_der_hex_def
        get_public_key_der_def publicKeyToDerHex_def)
next
  case (Some der)
  then show ?thesis
    using rust_hex.dec_encode [of der]
    by (simp add: PrivateKey_public_key_der_def PrivateKey_public_key_der_hex_def
        get_public_key_der_def)
qed

end
