(* ===== verification/Fizz_Credentials.thy ===== *)
theory Fizz_Credentials
  imports Fizz_Certificates
begin

text \<open>
  Delegated credentials: \<open>src/src/credentials.rs\<close> over \<open>src/src/ffi/credentials_ffi.cpp\<close>.
  The fizz functions the code calls extend the record of library calls; what they return for
  this run (a fresh key, a signature) is the field's value. The clock the code reads is an
  argument. Lemmas: what a generated credential holds, when self-verification answers true, and
  which verification infos the JSON text tells apart.
\<close>

section \<open>fizz's credential and the calls to it\<close>

text \<open>\<open>fizz::extensions::DelegatedCredential\<close>, the five fields the code reads and writes.\<close>

record fizz_credential =
  fz_valid_time :: u32
  fz_expected_verify_scheme :: u16
  fz_public_key :: "u8 list"
  fz_credential_scheme :: u16
  fz_signature :: "u8 list"

record ('x, 'k, 't, 's, 'p) dc_crypto = "('x, 'k, 't) crypto" +
  makeSelfCert :: "'k \<Rightarrow> 'x \<Rightarrow> string + 's"
  getX509 :: "'s \<Rightarrow> 'x"
  checkExtensions :: "'x \<Rightarrow> string + unit"
  generateCredential :: "'s \<Rightarrow> 'k \<Rightarrow> 'k \<Rightarrow> u16 \<Rightarrow> u16 \<Rightarrow> u32 \<Rightarrow> string + fizz_credential"
  generateDelegatedCredentialPEM :: "fizz_credential \<Rightarrow> string \<Rightarrow> string + string"
  derEncode :: "'x \<Rightarrow> string + u8 list"
  prepareSignatureBuffer :: "fizz_credential \<Rightarrow> u8 list \<Rightarrow> string + u8 list"
  makePeerCert :: "'x \<Rightarrow> string + 'p"
  peerVerify :: "'p \<Rightarrow> u16 \<Rightarrow> u8 list \<Rightarrow> u8 list \<Rightarrow> string + unit"

text \<open>
  A reading of \<open>std::chrono::system_clock\<close>: ticks since the epoch, and ticks per second. The count of the source is
  signed with 64 bits; in nanoseconds it reaches to the year 2262, past which sums of readings and life times
  are not modelled.
\<close>

record clock =
  ticks :: nat
  hz :: nat

section \<open>C++: generating and verifying\<close>

record ('s, 'k) FizzCredentialGenerator =
  parentCert :: 's
  parentKey :: 'k
  validitySeconds :: nat

definition pemToSelfCert ::
  "('x, 'k, 't, 's, 'p) dc_crypto \<Rightarrow> string \<Rightarrow> string \<Rightarrow> string + 's" where
  "pemToSelfCert K certPem keyPem =
     and_then (ok_or ''Failed to parse certificate PEM'' (pem_read_x509 K certPem)) (\<lambda>cert.
     and_then (ok_or ''Failed to parse private key PEM'' (pem_read_key K keyPem)) (\<lambda>key.
     makeSelfCert K key cert))"

definition credKeyToPem :: "('x, 'k, 't, 's, 'p) dc_crypto \<Rightarrow> 'k \<Rightarrow> string + string" where
  "credKeyToPem K key = ok_or ''Failed to write private key to BIO'' (pem_write_key K key)"

text \<open>The file has its own copy of \<open>publicKeyToDerHex\<close>.\<close>

definition credPublicKeyToDerHex :: "u8 list option \<Rightarrow> string + string" where
  "credPublicKeyToDerHex der =
     (case der of
        None \<Rightarrow> Inl ''Failed to encode public key to DER''
      | Some bs \<Rightarrow> Inr (concat (map (\<lambda>b. hex_setw 2 (unat b)) bs)))"

lemma credPublicKeyToDerHex_eq [simp]: "credPublicKeyToDerHex = publicKeyToDerHex"
  by (simp add: fun_eq_iff credPublicKeyToDerHex_def publicKeyToDerHex_def)

definition generateEcP256Key :: "('x, 'k, 't, 's, 'p) dc_crypto \<Rightarrow> string + 'k" where
  "generateEcP256Key K =
     (if \<not> pkey_ctx_new K \<or> \<not> keygen_init K then Inl ''Failed to initialize keygen''
      else if \<not> set_curve_p256 K then Inl ''Failed to set curve to P-256''
      else ok_or ''Failed to generate EC key'' (keygen K))"

definition new_credential_generator ::
  "('x, 'k, 't, 's, 'p) dc_crypto \<Rightarrow> CertificateData
     \<Rightarrow> string + ('s, 'k) FizzCredentialGenerator" where
  "new_credential_generator K parent_cert =
     rethrow ''Failed to create credential generator: ''
       (and_then (pemToSelfCert K (cd_cert_pem parent_cert) (cd_key_pem parent_cert)) (\<lambda>selfCert.
        and_then (ok_or ''Failed to parse private key''
                    (pem_read_key K (cd_key_pem parent_cert))) (\<lambda>key.
        and_then (checkExtensions K (getX509 K selfCert)) (\<lambda>_.
        Inr \<lparr>parentCert = selfCert, parentKey = key, validitySeconds = 7 * 24 * 3600\<rparr>))))"

definition generate_delegated_credential ::
  "('x, 'k, 't, 's, 'p) dc_crypto \<Rightarrow> clock \<Rightarrow> ('s, 'k) FizzCredentialGenerator
     \<Rightarrow> string \<Rightarrow> u32 \<Rightarrow> string + ServiceCredential" where
  "generate_delegated_credential K now generator service_name valid_seconds =
     rethrow ''Failed to generate delegated credential: ''
       (and_then (generateEcP256Key K) (\<lambda>credKey.
        and_then (getKeyType K (parentKey generator)) (\<lambda>parentKeyType.
        and_then (getKeyType K credKey) (\<lambda>credKeyType.
        let parentSigSchemes = getSigSchemes K parentKeyType;
            credSigSchemes = getSigSchemes K credKeyType
        in if parentSigSchemes = [] \<or> credSigSchemes = []
           then Inl ''No valid signature schemes available''
           else
        and_then (generateCredential K (parentCert generator) (parentKey generator) credKey
                    (hd parentSigSchemes) (hd credSigSchemes) valid_seconds) (\<lambda>credential.
        and_then (credPublicKeyToDerHex (i2d_pubkey K credKey)) (\<lambda>publicKeyDer.
        and_then (credKeyToPem K credKey) (\<lambda>keyPEM.
        and_then (generateDelegatedCredentialPEM K credential keyPEM) (\<lambda>credentialPEM.
        Inr \<lparr>sc_service_name = service_name,
             sc_credential =
               \<lparr>dc_valid_time = fz_valid_time credential,
                dc_expected_verify_scheme = fz_expected_verify_scheme credential,
                dc_public_key_der = bytes_to_hex_lower (fz_public_key credential),
                dc_credential_scheme = fz_credential_scheme credential,
                dc_signature = bytes_to_hex_lower (fz_signature credential)\<rparr>,
             sc_private_key_pem = keyPEM,
             sc_public_key_der = publicKeyDer,
             sc_created_at = of_nat (ticks now div hz now),
             sc_expires_at = of_nat ((ticks now + unat valid_seconds * hz now) div hz now),
             sc_credential_pem = credentialPEM\<rparr>))))))))"

text \<open>The credential is rebuilt from the record and checked; every exception is the answer false.\<close>

definition verify_delegated_credential ::
  "('x, 'k, 't, 's, 'p) dc_crypto \<Rightarrow> ('s, 'k) FizzCredentialGenerator
     \<Rightarrow> ServiceCredential \<Rightarrow> bool" where
  "verify_delegated_credential K generator credential =
     is_ok
       (and_then (ok_or ''stoi'' (parse_hex_bytes (dc_public_key_der (sc_credential credential))))
          (\<lambda>pkBytes.
        and_then (ok_or ''stoi'' (parse_hex_bytes (dc_signature (sc_credential credential))))
          (\<lambda>sigBytes.
        let dc = \<lparr>fz_valid_time = dc_valid_time (sc_credential credential),
                  fz_expected_verify_scheme =
                    dc_expected_verify_scheme (sc_credential credential),
                  fz_public_key = pkBytes,
                  fz_credential_scheme = dc_credential_scheme (sc_credential credential),
                  fz_signature = sigBytes\<rparr>
        in
        and_then (derEncode K (getX509 K (parentCert generator))) (\<lambda>certDer.
        and_then (prepareSignatureBuffer K dc certDer) (\<lambda>signatureBuffer.
        and_then (makePeerCert K (getX509 K (parentCert generator))) (\<lambda>peerCert.
        peerVerify K peerCert (fz_credential_scheme dc) signatureBuffer (fz_signature dc)))))))"

section \<open>C++: export\<close>

definition delegated_credential_to_pem :: "ServiceCredential \<Rightarrow> string" where
  "delegated_credential_to_pem credential = sc_credential_pem credential"

definition load_delegated_credential_from_pem :: "string \<Rightarrow> string + ServiceCredential" where
  "load_delegated_credential_from_pem pem =
     Inl ''load_delegated_credential_from_pem not yet implemented''"

definition get_public_verification_info :: "ServiceCredential \<Rightarrow> VerificationInfo" where
  "get_public_verification_info credential =
     \<lparr>vi_service_name = sc_service_name credential,
      vi_valid_time = dc_valid_time (sc_credential credential),
      vi_expected_verify_scheme = dc_expected_verify_scheme (sc_credential credential),
      vi_public_key_der = sc_public_key_der credential,
      vi_expires_at = sc_expires_at credential\<rparr>"

abbreviation quote :: char where
  "quote \<equiv> CHR 0x22"

definition json_string :: "string \<Rightarrow> string" where
  "json_string s = [quote] @ s @ [quote]"

definition verification_info_to_json :: "VerificationInfo \<Rightarrow> string" where
  "verification_info_to_json info =
     ''{'' @ json_string ''service_name'' @ '':'' @ json_string (vi_service_name info) @ '',''
     @ json_string ''valid_time'' @ '':'' @ dec_of_nat (unat (vi_valid_time info)) @ '',''
     @ json_string ''expected_verify_scheme'' @ '':''
     @ dec_of_nat (unat (vi_expected_verify_scheme info)) @ '',''
     @ json_string ''public_key_der'' @ '':'' @ json_string (vi_public_key_der info) @ '',''
     @ json_string ''expires_at'' @ '':'' @ dec_of_nat (unat (vi_expires_at info)) @ ''}''"

definition verification_info_from_json :: "string \<Rightarrow> string + VerificationInfo" where
  "verification_info_from_json json = Inl ''verification_info_from_json not yet implemented''"

section \<open>The Rust wrappers\<close>

record ('s, 'k) CredentialGenerator =
  cg_inner :: "('s, 'k) FizzCredentialGenerator"

definition CredentialGenerator_new ::
  "('x, 'k, 't, 's, 'p) dc_crypto \<Rightarrow> Certificate \<Rightarrow> FizzError + ('s, 'k) CredentialGenerator" where
  "CredentialGenerator_new K parent_cert =
     map_ok (\<lambda>inner. \<lparr>cg_inner = inner\<rparr>)
       (ffi_result (new_credential_generator K (cert_inner parent_cert)))"

definition CredentialGenerator_generate ::
  "('x, 'k, 't, 's, 'p) dc_crypto \<Rightarrow> clock \<Rightarrow> ('s, 'k) CredentialGenerator \<Rightarrow> string \<Rightarrow> u32
     \<Rightarrow> FizzError + DelegatedCredentialData" where
  "CredentialGenerator_generate K now g service_name valid_seconds =
     map_ok (\<lambda>inner. \<lparr>dcd_inner = inner\<rparr>)
       (ffi_result
          (generate_delegated_credential K now (cg_inner g) service_name valid_seconds))"

definition CredentialGenerator_verify ::
  "('x, 'k, 't, 's, 'p) dc_crypto \<Rightarrow> ('s, 'k) CredentialGenerator
     \<Rightarrow> DelegatedCredentialData \<Rightarrow> FizzError + bool" where
  "CredentialGenerator_verify K g credential =
     ffi_result (Inr (verify_delegated_credential K (cg_inner g) (dcd_inner credential)))"

definition DelegatedCredentialData_to_pem :: "DelegatedCredentialData \<Rightarrow> string" where
  "DelegatedCredentialData_to_pem d = delegated_credential_to_pem (dcd_inner d)"

definition DelegatedCredentialData_from_pem :: "string \<Rightarrow> FizzError + DelegatedCredentialData" where
  "DelegatedCredentialData_from_pem pem =
     Inr \<lparr>dcd_inner =
       \<lparr>sc_service_name = [],
        sc_credential =
          \<lparr>dc_valid_time = 0, dc_expected_verify_scheme = 0, dc_public_key_der = [],
           dc_credential_scheme = 0, dc_signature = []\<rparr>,
        sc_private_key_pem = [], sc_public_key_der = [], sc_created_at = 0, sc_expires_at = 0,
        sc_credential_pem = pem\<rparr>\<rparr>"

definition DelegatedCredentialData_verification_info ::
  "DelegatedCredentialData \<Rightarrow> VerificationInfo" where
  "DelegatedCredentialData_verification_info d = get_public_verification_info (dcd_inner d)"

text \<open>
  \<open>SystemTime::now()\<close> in seconds relative to the epoch; before the epoch
  \<open>duration_since\<close> fails and \<open>unwrap\<close> panics (\<open>None\<close>).
\<close>

definition is_expired :: "int \<Rightarrow> DelegatedCredentialData \<Rightarrow> bool option" where
  "is_expired now d =
     (if now < 0 then None else Some (unat (sc_expires_at (dcd_inner d)) \<le> nat now))"

definition DelegatedCredentialData_service_name :: "DelegatedCredentialData \<Rightarrow> string" where
  "DelegatedCredentialData_service_name d = sc_service_name (dcd_inner d)"

definition DelegatedCredentialData_created_at :: "DelegatedCredentialData \<Rightarrow> u64" where
  "DelegatedCredentialData_created_at d = sc_created_at (dcd_inner d)"

definition DelegatedCredentialData_expires_at :: "DelegatedCredentialData \<Rightarrow> u64" where
  "DelegatedCredentialData_expires_at d = sc_expires_at (dcd_inner d)"

definition VerificationInfo_to_json :: "VerificationInfo \<Rightarrow> string" where
  "VerificationInfo_to_json info = verification_info_to_json info"

definition VerificationInfo_from_json :: "string \<Rightarrow> FizzError + VerificationInfo" where
  "VerificationInfo_from_json json = ffi_result (verification_info_from_json json)"

section \<open>What a generated credential holds\<close>

lemma expiry_seconds: "0 < h \<Longrightarrow> (t + v * h) div h = t div h + (v :: nat)"
  by simp

text \<open>
  The credential fizz signed, and every field of the record read from it or from the key that
  was generated with it.
\<close>

lemma generate_delegated_credential_InrE:
  assumes "generate_delegated_credential K now g name valid = Inr sc"
  obtains credKey cred ps cs where "generateEcP256Key K = Inr credKey"
    and "generateCredential K (parentCert g) (parentKey g) credKey ps cs valid = Inr cred"
    and "publicKeyToDerHex (i2d_pubkey K credKey) = Inr (sc_public_key_der sc)"
    and "credKeyToPem K credKey = Inr (sc_private_key_pem sc)"
    and "generateDelegatedCredentialPEM K cred (sc_private_key_pem sc) = Inr (sc_credential_pem sc)"
    and "sc_service_name sc = name"
    and "sc_credential sc =
      \<lparr>dc_valid_time = fz_valid_time cred,
       dc_expected_verify_scheme = fz_expected_verify_scheme cred,
       dc_public_key_der = bytes_to_hex_lower (fz_public_key cred),
       dc_credential_scheme = fz_credential_scheme cred,
       dc_signature = bytes_to_hex_lower (fz_signature cred)\<rparr>"
    and "sc_created_at sc = of_nat (ticks now div hz now)"
    and "sc_expires_at sc = of_nat ((ticks now + unat valid * hz now) div hz now)"
  using assms that
  by (auto simp: generate_delegated_credential_def res_simps Let_def split: if_splits)

section \<open>Self-verification\<close>

text \<open>The credential the code rebuilds from a record whose hexadecimal fields decode.\<close>

definition rebuilt :: "DelegatedCredential \<Rightarrow> u8 list \<Rightarrow> u8 list \<Rightarrow> fizz_credential" where
  "rebuilt d pk sig =
     \<lparr>fz_valid_time = dc_valid_time d,
      fz_expected_verify_scheme = dc_expected_verify_scheme d,
      fz_public_key = pk, fz_credential_scheme = dc_credential_scheme d, fz_signature = sig\<rparr>"

text \<open>fizz accepts a credential under the certificate: the chain of calls of the check succeeds.\<close>

definition signature_accepted ::
  "('x, 'k, 't, 's, 'p) dc_crypto \<Rightarrow> 's \<Rightarrow> fizz_credential \<Rightarrow> bool" where
  "signature_accepted K cert cred \<longleftrightarrow>
     (\<exists>der buf peer. derEncode K (getX509 K cert) = Inr der
       \<and> prepareSignatureBuffer K cred der = Inr buf
       \<and> makePeerCert K (getX509 K cert) = Inr peer
       \<and> peerVerify K peer (fz_credential_scheme cred) buf (fz_signature cred) = Inr ())"

lemma verify_delegated_credential_iff:
  "verify_delegated_credential K g sc \<longleftrightarrow>
     (\<exists>pk sig. parse_hex_bytes (dc_public_key_der (sc_credential sc)) = Some pk
       \<and> parse_hex_bytes (dc_signature (sc_credential sc)) = Some sig
       \<and> signature_accepted K (parentCert g) (rebuilt (sc_credential sc) pk sig))"
  by (auto simp: verify_delegated_credential_def signature_accepted_def rebuilt_def res_simps
      Let_def)

section \<open>The JSON text\<close>

text \<open>The text as fixed pieces around the five values.\<close>

lemma verification_info_to_json_shape:
  obtains p1 p2 p3 p4 p5 where "\<And>i. verification_info_to_json i =
    p1 @ quote # vi_service_name i @ quote #
    p2 @ dec_of_nat (unat (vi_valid_time i)) @ CHR '','' #
    p3 @ dec_of_nat (unat (vi_expected_verify_scheme i)) @ CHR '','' #
    p4 @ quote # vi_public_key_der i @ quote #
    p5 @ dec_of_nat (unat (vi_expires_at i)) @ CHR ''}'' # []"
proof (rule that)
  fix i
  show "verification_info_to_json i =
    (''{'' @ json_string ''service_name'' @ '':'') @ quote # vi_service_name i @ quote #
    ('','' @ json_string ''valid_time'' @ '':'') @ dec_of_nat (unat (vi_valid_time i)) @ CHR '','' #
    (json_string ''expected_verify_scheme'' @ '':'')
      @ dec_of_nat (unat (vi_expected_verify_scheme i)) @ CHR '','' #
    (json_string ''public_key_der'' @ '':'') @ quote # vi_public_key_der i @ quote #
    ('','' @ json_string ''expires_at'' @ '':'') @ dec_of_nat (unat (vi_expires_at i)) @ CHR ''}'' # []"
    by (simp add: verification_info_to_json_def json_string_def)
qed

lemma peel_string:
  assumes "p @ quote # a @ quote # r = p @ quote # b @ quote # r'"
    and "quote \<notin> set a" and "quote \<notin> set b"
  shows "a = b \<and> r = r'"
  using split_at_first [of a quote r b quote r' "\<lambda>x. x \<noteq> quote"] assms by auto

lemma peel_number:
  assumes "p @ dec_of_nat m @ c # r = p @ dec_of_nat n @ c # r'" and "\<not> is_dec_digit c"
  shows "m = n \<and> r = r'"
  using split_at_first [of "dec_of_nat m" c r "dec_of_nat n" c r' is_dec_digit] assms
    dec_of_nat_digits by auto

lemma verification_info_to_json_inject:
  assumes "verification_info_to_json a = verification_info_to_json b"
    and "quote \<notin> set (vi_service_name a)" and "quote \<notin> set (vi_service_name b)"
    and "quote \<notin> set (vi_public_key_der a)" and "quote \<notin> set (vi_public_key_der b)"
  shows "a = b"
proof -
  have comma: "\<not> is_dec_digit (CHR '','')" and brace: "\<not> is_dec_digit (CHR ''}'')"
    by (simp_all add: is_dec_digit_def)
  obtain p1 p2 p3 p4 p5 where shape: "\<And>i. verification_info_to_json i =
    p1 @ quote # vi_service_name i @ quote #
    p2 @ dec_of_nat (unat (vi_valid_time i)) @ CHR '','' #
    p3 @ dec_of_nat (unat (vi_expected_verify_scheme i)) @ CHR '','' #
    p4 @ quote # vi_public_key_der i @ quote #
    p5 @ dec_of_nat (unat (vi_expires_at i)) @ CHR ''}'' # []"
    by (rule verification_info_to_json_shape) blast
  note name = peel_string [OF assms(1) [unfolded shape] assms(2,3)]
  note vt = peel_number [OF conjunct2 [OF name] comma]
  note vs = peel_number [OF conjunct2 [OF vt] comma]
  note pk = peel_string [OF conjunct2 [OF vs] assms(4,5)]
  note exp = peel_number [OF conjunct2 [OF pk] brace]
  from name vt vs pk exp show ?thesis by (cases a, cases b) (simp add: word_unat_eq_iff)
qed

section \<open>A concrete instance\<close>

text \<open>
  A library with one key and one certificate. The credential it signs runs from a certificate
  that is \<open>age\<close> seconds old, and it accepts its own signature only.
\<close>

definition sample_library :: "u32 \<Rightarrow> (unit, unit, unit, unit, unit) dc_crypto" where
  "sample_library age =
     \<lparr>bio_alloc = True, pem_read_x509 = (\<lambda>_. Some ()), pem_read_key = (\<lambda>_. Some ()),
      pem_write_key = (\<lambda>_. Some ''key''), x509_get_pubkey = (\<lambda>_. Some ()),
      i2d_pubkey = (\<lambda>_. Some [48, 89]), getKeyType = (\<lambda>_. Inr ()),
      getSigSchemes = (\<lambda>_. [0x0403]), read_path = (\<lambda>_. Some ''pem''),
      pkey_ctx_new = True, keygen_init = True, set_curve_p256 = True, keygen = Some (),
      makeSelfCert = (\<lambda>_ _. Inr ()), getX509 = (\<lambda>_. ()), checkExtensions = (\<lambda>_. Inr ()),
      generateCredential = (\<lambda>_ _ _ ps cs v. Inr
        \<lparr>fz_valid_time = age + v, fz_expected_verify_scheme = cs, fz_public_key = [48, 89],
         fz_credential_scheme = ps, fz_signature = [48, 69]\<rparr>),
      generateDelegatedCredentialPEM = (\<lambda>_ _. Inr ''pem''), derEncode = (\<lambda>_. Inr [1]),
      prepareSignatureBuffer = (\<lambda>_ _. Inr [2]), makePeerCert = (\<lambda>_. Inr ()),
      peerVerify = (\<lambda>_ _ _ sig. if sig = [48, 69] then Inr () else Inl ''bad signature'')\<rparr>"

definition sample_generator :: "(unit, unit) CredentialGenerator" where
  "sample_generator = \<lparr>cg_inner = \<lparr>parentCert = (), parentKey = (), validitySeconds = 604800\<rparr>\<rparr>"

definition sample_data :: "u32 \<Rightarrow> DelegatedCredentialData" where
  "sample_data age = \<lparr>dcd_inner =
     \<lparr>sc_service_name = ''svc'',
      sc_credential = \<lparr>dc_valid_time = age + 3600, dc_expected_verify_scheme = 0x0403,
        dc_public_key_der = bytes_to_hex_lower [48, 89], dc_credential_scheme = 0x0403,
        dc_signature = bytes_to_hex_lower [48, 69]\<rparr>,
      sc_private_key_pem = ''key'', sc_public_key_der = bytes_to_hex_lower [48, 89],
      sc_created_at = 1000, sc_expires_at = 4600, sc_credential_pem = ''pem''\<rparr>\<rparr>"

lemma sample_generate:
  "CredentialGenerator_generate (sample_library age) \<lparr>ticks = 1000500, hz = 1000\<rparr> sample_generator
     ''svc'' 3600 = Inr (sample_data age)"
  by (simp add: CredentialGenerator_generate_def generate_delegated_credential_def
      sample_library_def sample_generator_def sample_data_def generateEcP256Key_def
      credKeyToPem_def ffi_result_def rethrow_def Let_def)

lemma sample_accepts:
  "generateCredential (sample_library age) c k key ps cs v = Inr cred \<Longrightarrow>
     signature_accepted (sample_library age) () cred"
  by (auto simp: sample_library_def signature_accepted_def)

lemma generated_verifies:
  assumes "\<And>key ps cs cred.
      generateCredential K (parentCert (cg_inner g)) (parentKey (cg_inner g)) key ps cs valid = Inr cred
      \<Longrightarrow> signature_accepted K (parentCert (cg_inner g)) cred"
    and "CredentialGenerator_generate K now g name valid = Inr d"
  shows "CredentialGenerator_verify K g d = Inr True"
proof -
  from assms(2) have "generate_delegated_credential K now (cg_inner g) name valid = Inr (dcd_inner d)"
    by (auto simp: CredentialGenerator_generate_def res_simps)
  then obtain credKey cred ps cs where
    gen: "generateCredential K (parentCert (cg_inner g)) (parentKey (cg_inner g)) credKey ps cs valid = Inr cred"
    and d: "sc_credential (dcd_inner d) =
      \<lparr>dc_valid_time = fz_valid_time cred,
       dc_expected_verify_scheme = fz_expected_verify_scheme cred,
       dc_public_key_der = bytes_to_hex_lower (fz_public_key cred),
       dc_credential_scheme = fz_credential_scheme cred,
       dc_signature = bytes_to_hex_lower (fz_signature cred)\<rparr>"
    by (rule generate_delegated_credential_InrE) blast
  have "rebuilt (sc_credential (dcd_inner d)) (fz_public_key cred) (fz_signature cred) = cred"
    by (simp add: d rebuilt_def)
  with assms(1) [OF gen] show ?thesis
    by (simp add: CredentialGenerator_verify_def ffi_result_def verify_delegated_credential_iff d
        cpp_hex.dec_encode)
qed

text \<open>Text that both decoders take: hexadecimal digits in pairs.\<close>

definition hex_text :: "string \<Rightarrow> bool" where
  "hex_text s \<longleftrightarrow> list_all is_hex s \<and> even (length s)"

lemma hex_text_encoded [simp]: "hex_text (bytes_to_hex_lower bs)"
  using bytes_to_hex_lower_hex [of bs] by (simp add: hex_text_def)

text \<open>The times in the record of a generated credential.\<close>

lemma generated_times:
  assumes "CredentialGenerator_generate K now g name valid = Inr d" and "hz now > 0"
    and "ticks now div hz now + unat valid < 2 ^ 64"
  shows "unat (sc_created_at (dcd_inner d)) = ticks now div hz now"
    "unat (sc_expires_at (dcd_inner d)) = ticks now div hz now + unat valid"
proof -
  from assms(1) have "generate_delegated_credential K now (cg_inner g) name valid = Inr (dcd_inner d)"
    by (auto simp: CredentialGenerator_generate_def res_simps)
  then have "sc_created_at (dcd_inner d) = of_nat (ticks now div hz now)"
    and "sc_expires_at (dcd_inner d) = of_nat ((ticks now + unat valid * hz now) div hz now)"
    by (rule generate_delegated_credential_InrE, blast)+
  then show "unat (sc_created_at (dcd_inner d)) = ticks now div hz now"
    "unat (sc_expires_at (dcd_inner d)) = ticks now div hz now + unat valid"
    using assms(2,3) unat_of_nat_u64 [of "ticks now div hz now + unat valid"]
    by (simp_all add: unat_of_nat_u64 expiry_seconds del: of_nat_add)
qed

text \<open>The verdict does not read the times, the name and the private key of a record.\<close>

lemma verify_reads_credential:
  assumes "sc_credential (dcd_inner d') = sc_credential (dcd_inner d)"
  shows "CredentialGenerator_verify K g d' = CredentialGenerator_verify K g d"
  using assms by (simp add: CredentialGenerator_verify_def verify_delegated_credential_iff)

section \<open>Properties\<close>

text \<open>C14. A credential that the generator has just made verifies: if fizz accepts the signatures it
  makes itself, \<open>generate\<close> followed by \<open>verify\<close> answers true. The credential passes through its
  hexadecimal record on the way.\<close>

theorem generated_credential_verifies:
  assumes "\<And>key ps cs cred.
      generateCredential K (parentCert (cg_inner g)) (parentKey (cg_inner g)) key ps cs valid = Inr cred
      \<Longrightarrow> signature_accepted K (parentCert (cg_inner g)) cred"
    and "CredentialGenerator_generate K now g name valid = Inr d"
  shows "CredentialGenerator_verify K g d = Inr True"
  using assms by (rule generated_verifies)

theorem generated_credential_verifies_witness:
  "CredentialGenerator_verify (sample_library 100) sample_generator (sample_data 100) = Inr True"
proof (rule generated_credential_verifies [OF _ sample_generate])
  show "signature_accepted (sample_library 100) (parentCert (cg_inner sample_generator)) cred"
    if "generateCredential (sample_library 100) (parentCert (cg_inner sample_generator))
      (parentKey (cg_inner sample_generator)) key ps cs 3600 = Inr cred" for key ps cs cred
    using sample_accepts [OF that] by (simp add: sample_generator_def)
qed

text \<open>C29. The life time of a generated credential: as long as the sum fits 64 bits, it is created at the
  second of the clock reading and \<open>is_expired\<close> answers true from exactly \<open>valid_seconds\<close> later on.\<close>

theorem generated_credential_lifetime:
  assumes "CredentialGenerator_generate K now g name valid = Inr d" and "hz now > 0"
    and "ticks now div hz now + unat valid < 2 ^ 64"
  shows "unat (DelegatedCredentialData_created_at d) = ticks now div hz now
    \<and> is_expired (int t) d = Some (ticks now div hz now + unat valid \<le> t)"
  using generated_times [OF assms] by (simp add: DelegatedCredentialData_created_at_def is_expired_def)

theorem generated_credential_lifetime_witness:
  "is_expired (int 4599) (sample_data 100) = Some False
   \<and> is_expired (int 4600) (sample_data 100) = Some True"
  using generated_credential_lifetime [OF sample_generate [of 100], of 4599]
    generated_credential_lifetime [OF sample_generate [of 100], of 4600] by simp

text \<open>The JSON text of a verification info determines it, as long as neither string holds a double
  quote.\<close>

theorem json_injective:
  assumes "VerificationInfo_to_json a = VerificationInfo_to_json b"
    and "quote \<notin> set (vi_service_name a @ vi_public_key_der a)"
    and "quote \<notin> set (vi_service_name b @ vi_public_key_der b)"
  shows "a = b"
  using assms by (auto simp: VerificationInfo_to_json_def intro: verification_info_to_json_inject)

theorem json_injective_witness:
  "(\<lparr>vi_service_name = ''svc'', vi_valid_time = 1, vi_expected_verify_scheme = 0x0403,
     vi_public_key_der = ''3059'', vi_expires_at = 9\<rparr> :: VerificationInfo) =
   \<lparr>vi_service_name = ''svc'', vi_valid_time = 1, vi_expected_verify_scheme = 1027,
     vi_public_key_der = ''3059'', vi_expires_at = 9\<rparr>"
  by (rule json_injective) simp_all

text \<open>Strings are not escaped: a service name with quotes makes two verification infos with
  different life times and keys print as the same JSON text.\<close>

theorem json_collision:
  "\<exists>a b. VerificationInfo_to_json a = VerificationInfo_to_json b
     \<and> vi_valid_time a \<noteq> vi_valid_time b \<and> vi_public_key_der a \<noteq> vi_public_key_der b"
proof -
  let ?mid = "\<lambda>v :: u32. [quote] @ '','' @ json_string ''valid_time'' @ '':''
    @ dec_of_nat (unat v) @ '','' @ json_string ''expected_verify_scheme'' @ '':''
    @ dec_of_nat (unat (0x0403 :: u16)) @ '','' @ json_string ''public_key_der'' @ '':'' @ [quote]"
  let ?a = "\<lparr>vi_service_name = ''svc'', vi_valid_time = 1, vi_expected_verify_scheme = 0x0403,
    vi_public_key_der = ''k'' @ ?mid 5 @ ''m'', vi_expires_at = 9\<rparr>"
  let ?b = "\<lparr>vi_service_name = ''svc'' @ ?mid 1 @ ''k'', vi_valid_time = 5,
    vi_expected_verify_scheme = 0x0403, vi_public_key_der = ''m'', vi_expires_at = 9\<rparr>"
  have "VerificationInfo_to_json ?a = VerificationInfo_to_json ?b"
    by (simp only: VerificationInfo_to_json_def verification_info_to_json_def json_string_def
        VerificationInfo.simps append_assoc)
  then show ?thesis by (intro exI [of _ ?a] exI [of _ ?b]) simp
qed

text \<open>\<open>from_pem\<close> accepts every text and keeps only that: \<open>to_pem\<close> gives it back, while the
  other fields are empty and the credential counts as expired at every time from the epoch on.\<close>

theorem from_pem_keeps_text_only:
  "\<exists>d. DelegatedCredentialData_from_pem pem = Inr d \<and> DelegatedCredentialData_to_pem d = pem
     \<and> is_expired (int t) d = Some True \<and> DelegatedCredentialData_service_name d = []"
  by (simp add: DelegatedCredentialData_from_pem_def DelegatedCredentialData_to_pem_def
      delegated_credential_to_pem_def is_expired_def DelegatedCredentialData_service_name_def)

text \<open>C30. The fields of a generated credential that carry bytes as text are well formed: the public key and the
  signature of the record, the public key of the service and the one in the verification info are
  pairs of hexadecimal digits, so both decoders of the library accept them.\<close>

theorem generated_record_is_well_formed:
  assumes "CredentialGenerator_generate K now g name valid = Inr d"
  shows "hex_text (dc_public_key_der (sc_credential (dcd_inner d)))
    \<and> hex_text (dc_signature (sc_credential (dcd_inner d)))
    \<and> hex_text (sc_public_key_der (dcd_inner d))
    \<and> hex_text (vi_public_key_der (DelegatedCredentialData_verification_info d))"
proof -
  from assms have "generate_delegated_credential K now (cg_inner g) name valid = Inr (dcd_inner d)"
    by (auto simp: CredentialGenerator_generate_def res_simps)
  then obtain credKey and cred :: fizz_credential where
    "publicKeyToDerHex (i2d_pubkey K credKey) = Inr (sc_public_key_der (dcd_inner d))"
    "sc_credential (dcd_inner d) =
      \<lparr>dc_valid_time = fz_valid_time cred,
       dc_expected_verify_scheme = fz_expected_verify_scheme cred,
       dc_public_key_der = bytes_to_hex_lower (fz_public_key cred),
       dc_credential_scheme = fz_credential_scheme cred,
       dc_signature = bytes_to_hex_lower (fz_signature cred)\<rparr>"
    by (rule generate_delegated_credential_InrE) blast
  moreover from this(1) have "\<exists>spki. sc_public_key_der (dcd_inner d) = bytes_to_hex_lower spki"
    by (rule publicKeyToDerHex_InrE) blast
  ultimately show ?thesis
    by (auto simp: DelegatedCredentialData_verification_info_def get_public_verification_info_def)
qed

theorem generated_record_is_well_formed_witness:
  "hex_text (dc_signature (sc_credential (dcd_inner (sample_data 100))))"
  using generated_record_is_well_formed [OF sample_generate] by simp

text \<open>C28. Self-verification does not look at the clock: a credential that was generated verifies as true also when its
  life is over and \<open>is_expired\<close> says so, and the same holds for every record that carries its signed part with
  other times or another name.\<close>

theorem expired_credential_verifies:
  assumes "\<And>key ps cs cred.
      generateCredential K (parentCert (cg_inner g)) (parentKey (cg_inner g)) key ps cs valid = Inr cred
      \<Longrightarrow> signature_accepted K (parentCert (cg_inner g)) cred"
    and "CredentialGenerator_generate K now g name valid = Inr d" and "hz now > 0"
    and "ticks now div hz now + unat valid \<le> t" and "t < 2 ^ 64"
    and "sc_credential (dcd_inner d') = sc_credential (dcd_inner d)"
  shows "is_expired (int t) d = Some True \<and> CredentialGenerator_verify K g d = Inr True
    \<and> CredentialGenerator_verify K g d' = Inr True"
proof -
  have "CredentialGenerator_verify K g d = Inr True" using assms(1,2) by (rule generated_verifies)
  moreover have "is_expired (int t) d = Some True"
    using generated_times [OF assms(2,3)] assms(4,5) by (simp add: is_expired_def)
  ultimately show ?thesis using verify_reads_credential [OF assms(6), of K g] by simp
qed

theorem expired_credential_verifies_witness:
  "is_expired (int 5000) (sample_data 100) = Some True
   \<and> CredentialGenerator_verify (sample_library 100) sample_generator
       ((sample_data 100)\<lparr>dcd_inner := (dcd_inner (sample_data 100))\<lparr>sc_expires_at := 7\<rparr>\<rparr>) = Inr True"
proof -
  have "signature_accepted (sample_library 100) (parentCert (cg_inner sample_generator)) cred"
    if "generateCredential (sample_library 100) (parentCert (cg_inner sample_generator))
      (parentKey (cg_inner sample_generator)) key ps cs 3600 = Inr cred" for key ps cs cred
    using sample_accepts [OF that] by (simp add: sample_generator_def)
  from expired_credential_verifies [OF this sample_generate, where t = 5000 and d' =
      "(sample_data 100)\<lparr>dcd_inner := (dcd_inner (sample_data 100))\<lparr>sc_expires_at := 7\<rparr>\<rparr>"]
  show ?thesis by simp
qed

end
