(* ===== verification/Fizz_Async.thy ===== *)
theory Fizz_Async
  imports Fizz_Error
begin

text \<open>
  The two hand-over points between C++ callbacks and Rust futures, and the buffer type of the
  I/O module: \<open>src/src/async_context.rs\<close> (completion of a handshake through a oneshot
  channel), \<open>src/src/read_waker.rs\<close> (the waker slot shared through an \<open>Arc\<close>) and
  \<open>BufferedConnection\<close> of \<open>src/src/io.rs\<close>. The slot lives in a store, because the Rust
  and the C++ handle alias it. The locale \<open>wake_slot\<close> is what the read path relies on.
\<close>

section \<open>Completion contexts\<close>

text \<open>
  \<open>IoContext::new\<close> makes a oneshot channel. What was sent on it is a list; the receiver's
  \<open>await\<close> yields the first value sent, or \<open>RecvError\<close> (\<open>None\<close>) when the sender was dropped
  without sending.
\<close>

record IoContext =
  io_sent :: "(string + nat) list"

definition IoContext_new :: IoContext where
  "IoContext_new = \<lparr>io_sent = []\<rparr>"

definition handle_io_result :: "IoContext \<Rightarrow> nat \<Rightarrow> string \<Rightarrow> IoContext" where
  "handle_io_result context bytes error =
     (let result = (if error = [] then Inr bytes else Inl error)
      in context\<lparr>io_sent := io_sent context @ [result]\<rparr>)"

definition receiver_await :: "IoContext \<Rightarrow> (string + nat) option" where
  "receiver_await context = (case io_sent context of [] \<Rightarrow> None | r # _ \<Rightarrow> Some r)"

lemma receiver_await_new [simp]: "receiver_await IoContext_new = None"
  by (simp add: receiver_await_def IoContext_new_def)

lemma receiver_await_handle [simp]:
  "io_sent ctx = [] \<Longrightarrow>
     receiver_await (handle_io_result ctx n e) = Some (if e = [] then Inr n else Inl e)"
  by (simp add: receiver_await_def handle_io_result_def Let_def)

section \<open>The read waker\<close>

text \<open>
  A \<open>std::task::Waker\<close> wakes one task; clones are different instances. \<open>will_wake\<close> is a
  best-effort test that may miss but never errs, so it is a parameter with \<open>will_wake_sound\<close>.
  A slot is a mutex around an optional waker; a poisoned mutex makes \<open>expect\<close> panic.
\<close>

datatype Waker = Waker (wk_task: nat) (wk_instance: nat)

datatype slot = Slot "Waker option" | Poisoned

type_synonym slot_store = "nat \<Rightarrow> slot"

record ReadWaker =
  rw_inner :: nat

definition will_wake_sound :: "(Waker \<Rightarrow> Waker \<Rightarrow> bool) \<Rightarrow> bool" where
  "will_wake_sound ww \<longleftrightarrow> (\<forall>a b. ww a b \<longrightarrow> wk_task a = wk_task b)"

definition ReadWaker_new :: "slot_store \<Rightarrow> nat \<Rightarrow> slot_store \<times> ReadWaker" where
  "ReadWaker_new h a = (h(a := Slot None), \<lparr>rw_inner = a\<rparr>)"

definition clone_for_cpp :: "ReadWaker \<Rightarrow> ReadWaker" where
  "clone_for_cpp rw = \<lparr>rw_inner = rw_inner rw\<rparr>"

definition register ::
  "(Waker \<Rightarrow> Waker \<Rightarrow> bool) \<Rightarrow> slot_store \<Rightarrow> ReadWaker \<Rightarrow> Waker \<Rightarrow> slot_store option" where
  "register ww h rw waker =
     (case h (rw_inner rw) of
        Poisoned \<Rightarrow> None
      | Slot (Some existing) \<Rightarrow>
          if ww existing waker then Some h else Some (h(rw_inner rw := Slot (Some waker)))
      | Slot None \<Rightarrow> Some (h(rw_inner rw := Slot (Some waker))))"

text \<open>The second component is the waker that \<open>wake\<close> fires, if any.\<close>

definition wake :: "slot_store \<Rightarrow> ReadWaker \<Rightarrow> (slot_store \<times> Waker option) option" where
  "wake h rw =
     (case h (rw_inner rw) of
        Poisoned \<Rightarrow> None
      | Slot taken \<Rightarrow> Some (h(rw_inner rw := Slot None), taken))"

definition wake_read_waker :: "slot_store \<Rightarrow> ReadWaker \<Rightarrow> (slot_store \<times> Waker option) option" where
  "wake_read_waker h rw = wake h rw"

text \<open>The task a slot would wake.\<close>

definition slot_task :: "slot_store \<Rightarrow> ReadWaker \<Rightarrow> nat option" where
  "slot_task h rw =
     (case h (rw_inner rw) of Slot (Some w) \<Rightarrow> Some (wk_task w) | _ \<Rightarrow> None)"

definition slot_ok :: "slot_store \<Rightarrow> ReadWaker \<Rightarrow> bool" where
  "slot_ok h rw \<longleftrightarrow> h (rw_inner rw) \<noteq> Poisoned"

text \<open>
  The contract: registering makes the slot wake the registering task, and a wake through the
  other handle fires it once and leaves the slot empty.
\<close>

locale wake_slot =
  fixes reg :: "'h \<Rightarrow> Waker \<Rightarrow> 'h option"
    and fire :: "'h \<Rightarrow> ('h \<times> Waker option) option"
    and task :: "'h \<Rightarrow> nat option"
    and ok :: "'h \<Rightarrow> bool"
  assumes reg_total: "ok h \<Longrightarrow> \<exists>h'. reg h w = Some h'"
    and reg_task: "ok h \<Longrightarrow> reg h w = Some h' \<Longrightarrow> task h' = Some (wk_task w)"
    and reg_ok: "ok h \<Longrightarrow> reg h w = Some h' \<Longrightarrow> ok h'"
    and fire_total: "ok h \<Longrightarrow> \<exists>h' x. fire h = Some (h', x)"
    and fire_task: "ok h \<Longrightarrow> fire h = Some (h', x) \<Longrightarrow> map_option wk_task x = task h"
    and fire_empty: "ok h \<Longrightarrow> fire h = Some (h', x) \<Longrightarrow> task h' = None"
    and fire_ok: "ok h \<Longrightarrow> fire h = Some (h', x) \<Longrightarrow> ok h'"
begin

lemma reg_fire:
  assumes "ok h" and "reg h w = Some h'"
  shows "\<exists>h'' v. fire h' = Some (h'', Some v) \<and> wk_task v = wk_task w"
proof -
  from assms have "ok h'" and t: "task h' = Some (wk_task w)"
    by (simp_all add: reg_ok reg_task)
  from fire_total [OF this(1)] obtain h'' x where f: "fire h' = Some (h'', x)" by blast
  from fire_task [OF \<open>ok h'\<close> f] t have "map_option wk_task x = Some (wk_task w)" by simp
  then obtain v where "x = Some v" "wk_task v = wk_task w" by auto
  with f show ?thesis by blast
qed

lemma fire_once:
  assumes "ok h" and "fire h = Some (h', x)" and "fire h' = Some (h'', y)"
  shows "y = None"
proof -
  have "map_option wk_task y = None"
    using fire_task [OF fire_ok [OF assms(1,2)] assms(3)] fire_empty [OF assms(1,2)] by simp
  then show ?thesis by simp
qed

end

lemma wake_slot_ReadWaker:
  assumes "will_wake_sound ww"
  shows "wake_slot (\<lambda>h. register ww h rw) (\<lambda>h. wake_read_waker h (clone_for_cpp rw))
    (\<lambda>h. slot_task h rw) (\<lambda>h. slot_ok h rw)"
proof (unfold_locales, goal_cases)
  case (2 h w h')
  with assms show ?case
    by (auto simp: register_def slot_task_def slot_ok_def will_wake_sound_def
        split: slot.splits option.splits if_splits)
qed (auto simp: register_def wake_read_waker_def wake_def clone_for_cpp_def slot_task_def
    slot_ok_def split: slot.splits option.splits if_splits)

text \<open>\<open>Waker::will_wake\<close> on equal instances, the strictest sound test.\<close>

lemma will_wake_sound_eq [simp]: "will_wake_sound (=)"
  by (simp add: will_wake_sound_def)

interpretation rust_slot: wake_slot "\<lambda>h. register (=) h rw"
  "\<lambda>h. wake_read_waker h (clone_for_cpp rw)" "\<lambda>h. slot_task h rw" "\<lambda>h. slot_ok h rw" for rw
  by (rule wake_slot_ReadWaker) simp

lemma register_total: "slot_ok h rw \<Longrightarrow> \<exists>h'. register ww h rw w = Some h'"
  by (cases "h (rw_inner rw)") (auto simp: register_def slot_ok_def split: option.splits)

section \<open>Buffered connection\<close>

text \<open>
  \<open>BytesMut\<close> is the bytes it holds; \<open>split_to\<close> panics (\<open>None\<close>) past the end, and
  \<open>reserve\<close> changes no content.
\<close>

definition DEFAULT_BUFFER_SIZE :: nat where
  "DEFAULT_BUFFER_SIZE = 64 * 1024"

record BufferedConnection =
  bc_read_buf :: "u8 list"
  bc_write_buf :: "u8 list"
  bc_read_buf_capacity :: nat
  bc_write_buf_capacity :: nat

definition with_capacity :: "nat \<Rightarrow> nat \<Rightarrow> BufferedConnection" where
  "with_capacity read_capacity write_capacity =
     \<lparr>bc_read_buf = [], bc_write_buf = [],
      bc_read_buf_capacity = read_capacity, bc_write_buf_capacity = write_capacity\<rparr>"

definition BufferedConnection_new :: BufferedConnection where
  "BufferedConnection_new = with_capacity DEFAULT_BUFFER_SIZE DEFAULT_BUFFER_SIZE"

definition has_read_data :: "BufferedConnection \<Rightarrow> bool" where
  "has_read_data b \<longleftrightarrow> bc_read_buf b \<noteq> []"

definition has_write_data :: "BufferedConnection \<Rightarrow> bool" where
  "has_write_data b \<longleftrightarrow> bc_write_buf b \<noteq> []"

definition consume_read_buf :: "BufferedConnection \<Rightarrow> nat \<Rightarrow> BufferedConnection option" where
  "consume_read_buf b amt =
     (if amt \<le> length (bc_read_buf b) then Some (b\<lparr>bc_read_buf := drop amt (bc_read_buf b)\<rparr>)
      else None)"

definition reserve_read_buf :: "BufferedConnection \<Rightarrow> nat \<Rightarrow> BufferedConnection" where
  "reserve_read_buf b additional = b"

definition reserve_write_buf :: "BufferedConnection \<Rightarrow> nat \<Rightarrow> BufferedConnection" where
  "reserve_write_buf b additional = b"

definition clear_write_buf :: "BufferedConnection \<Rightarrow> BufferedConnection" where
  "clear_write_buf b = b\<lparr>bc_write_buf := []\<rparr>"

definition read_capacity :: "BufferedConnection \<Rightarrow> nat" where
  "read_capacity b = bc_read_buf_capacity b"

definition write_capacity :: "BufferedConnection \<Rightarrow> nat" where
  "write_capacity b = bc_write_buf_capacity b"

lemma consume_read_buf_add:
  "Option.bind (consume_read_buf b m) (\<lambda>b'. consume_read_buf b' n) = consume_read_buf b (m + n)"
  by (auto simp: consume_read_buf_def add.commute)

section \<open>Properties\<close>

text \<open>A waker that was registered fires: after \<open>register\<close>, the next wake through the C++ handle
  fires a waker of the registering task, exactly once; the wake after that fires nothing.\<close>

theorem registered_waker_fires_once:
  assumes "will_wake_sound ww" and "slot_ok h rw"
  shows "\<exists>h1 h2 h3 v. register ww h rw w = Some h1
    \<and> wake_read_waker h1 (clone_for_cpp rw) = Some (h2, Some v) \<and> wk_task v = wk_task w
    \<and> wake_read_waker h2 (clone_for_cpp rw) = Some (h3, None)"
proof -
  from assms(1) have slot: "wake_slot (\<lambda>h. register ww h rw)
      (\<lambda>h. wake_read_waker h (clone_for_cpp rw)) (\<lambda>h. slot_task h rw) (\<lambda>h. slot_ok h rw)"
    by (rule wake_slot_ReadWaker)
  obtain h1 where r: "register ww h rw w = Some h1" using register_total [OF assms(2)] by blast
  have ok: "slot_ok h1 rw" using wake_slot.reg_ok [OF slot, of h w h1] assms(2) r by blast
  obtain h2 v where f: "wake_read_waker h1 (clone_for_cpp rw) = Some (h2, Some v)"
    and v: "wk_task v = wk_task w"
    using wake_slot.reg_fire [OF slot, of h w h1] assms(2) r by blast
  have "slot_ok h2 rw" using wake_slot.fire_ok [OF slot, of h1 h2 "Some v"] ok f by blast
  then obtain h3 y where g: "wake_read_waker h2 (clone_for_cpp rw) = Some (h3, y)"
    using wake_slot.fire_total [OF slot, of h2] by blast
  then have "y = None" using wake_slot.fire_once [OF slot, of h1 h2 "Some v" h3 y] ok f by blast
  with r f v g show ?thesis by blast
qed

theorem registered_waker_fires_once_witness:
  "\<exists>h1 h2 h3 v. register (=) (\<lambda>_. Slot (Some (Waker 1 7))) \<lparr>rw_inner = 0\<rparr> (Waker 2 0) = Some h1
    \<and> wake_read_waker h1 (clone_for_cpp \<lparr>rw_inner = 0\<rparr>) = Some (h2, Some v)
    \<and> wk_task v = wk_task (Waker 2 0)
    \<and> wake_read_waker h2 (clone_for_cpp \<lparr>rw_inner = 0\<rparr>) = Some (h3, None)"
  by (rule registered_waker_fires_once) (simp_all add: slot_ok_def)

end
