(* ===== verification/Fizz_Connection.thy ===== *)
theory Fizz_Connection
  imports Fizz_Async Fizz_Types
begin

text \<open>
  An established TLS connection: the structs, read callbacks, read, write and close functions of
  \<open>src/src/ffi/server_tls_ffi.cpp\<close> and \<open>src/src/ffi/client_tls_ffi.cpp\<close>. The client struct has
  the fields of the server struct and more, so the client record extends the server record.
  fizz's transport object is the list of calls made on it; folly's event base is whether its
  thread runs and the queue of writes scheduled on it; folly's \<open>IOBufQueue\<close> is a chain of byte
  blocks whose two operations are parameters under the contract \<open>iobuf_queue\<close>.
\<close>

section \<open>What the code calls\<close>

datatype tr_call =
    TrAccept
  | TrConnect "string option"
  | TrSetReadCB
  | TrWriteChain "u8 list"
  | TrClose
  | TrCloseNow

type_synonym chain = "u8 list list"

record iobq =
  postallocate :: "chain \<Rightarrow> u8 list \<Rightarrow> chain"
  split :: "nat \<Rightarrow> chain \<Rightarrow> string + chain \<times> chain"

text \<open>Whether \<open>transport->good()\<close> after the calls made so far; a closed transport is not.\<close>

definition closed_not_good :: "(tr_call list \<Rightarrow> bool) \<Rightarrow> bool" where
  "closed_not_good good \<longleftrightarrow>
     (\<forall>calls. TrClose \<in> set calls \<or> TrCloseNow \<in> set calls \<longrightarrow> \<not> good calls)"

section \<open>State\<close>

record FizzServerConnection =
  evb :: bool
  evb_thread :: bool
  evb_tasks :: "u8 list list"
  transport :: "tr_call list option"
  handshakeComplete :: bool
  errorMessage :: string
  fd :: int
  read_mutex :: bool
  pending_read :: bool
  readBufQueue :: chain
  bytesRead :: u64
  readEof :: bool
  read_waker :: "ReadWaker option"
  writeError :: bool
  writeErrorMessage :: string

record FizzClientConnection = FizzServerConnection +
  peerCertPem :: string
  caCertPath :: string
  dcExtension :: "u16 list option"
  expectedServiceName :: string
  expectedValidTime :: u32
  expectedVerifyScheme :: u16
  expectedPublicKeyDerHex :: string
  expectedExpiresAt :: u64
  dcEnabled :: bool

text \<open>A call on the transport.\<close>

definition tr_do :: "tr_call \<Rightarrow> 'a FizzServerConnection_scheme \<Rightarrow> 'a FizzServerConnection_scheme" where
  "tr_do x conn = conn\<lparr>transport := map_option (\<lambda>calls. calls @ [x]) (transport conn)\<rparr>"

text \<open>\<open>memcpy\<close> into the caller's slice, and the copy loop over a chain.\<close>

definition memcpy :: "u8 list \<Rightarrow> nat \<Rightarrow> u8 list \<Rightarrow> u8 list" where
  "memcpy buf off bs = take off buf @ bs @ drop (off + length bs) buf"

fun copy_chain :: "chain \<Rightarrow> nat \<Rightarrow> u8 list \<Rightarrow> nat \<times> u8 list" where
  "copy_chain [] copied buf = (copied, buf)"
| "copy_chain (node # data) copied buf =
     (let toCopy = min (length node) (length buf - copied)
      in copy_chain data (copied + toCopy) (memcpy buf copied (take toCopy node)))"

section \<open>Server: read callbacks\<close>

text \<open>
  \<open>wakeReader\<close> works on the waker store; the second component is the waker it fires and
  \<open>None\<close> on the outside is the panic of a poisoned slot.
\<close>

definition server_wakeReader ::
  "'a FizzServerConnection_scheme \<Rightarrow> slot_store \<Rightarrow> (slot_store \<times> Waker option) option" where
  "server_wakeReader conn h =
     (case read_waker conn of None \<Rightarrow> Some (h, None) | Some rw \<Rightarrow> wake_read_waker h rw)"

text \<open>
  \<open>getReadBuffer\<close> takes \<open>read_mutex\<close> and keeps it until the matching callback; called again
  before that, it would wait for itself.
\<close>

definition server_getReadBuffer ::
  "'a FizzServerConnection_scheme \<Rightarrow> 'a FizzServerConnection_scheme \<times> unit call" where
  "server_getReadBuffer conn =
     (if read_mutex conn then (conn, Blocks)
      else (conn\<lparr>read_mutex := True, pending_read := True\<rparr>, Returns ()))"

text \<open>
  \<open>readDataAvailable(len)\<close>, whose \<open>len\<close> bytes are what the transport put into the buffer of
  the preceding \<open>getReadBuffer\<close>: first the state, then the wake.
\<close>

definition server_commitRead ::
  "iobq \<Rightarrow> 'a FizzServerConnection_scheme \<Rightarrow> u8 list \<Rightarrow> 'a FizzServerConnection_scheme" where
  "server_commitRead Q conn bs =
     conn\<lparr>readBufQueue := postallocate Q (readBufQueue conn) bs,
          bytesRead := bytesRead conn + of_nat (length bs),
          pending_read := False, read_mutex := False\<rparr>"

definition server_readDataAvailable ::
  "iobq \<Rightarrow> 'a FizzServerConnection_scheme \<Rightarrow> slot_store \<Rightarrow> u8 list
     \<Rightarrow> ('a FizzServerConnection_scheme \<times> slot_store \<times> Waker option) option" where
  "server_readDataAvailable Q conn h bs =
     (let conn' = server_commitRead Q conn bs
      in map_option (\<lambda>(h', w). (conn', h', w)) (server_wakeReader conn' h))"

definition server_releaseRead ::
  "'a FizzServerConnection_scheme \<Rightarrow> 'a FizzServerConnection_scheme" where
  "server_releaseRead conn =
     (if pending_read conn then conn\<lparr>pending_read := False, read_mutex := False\<rparr> else conn)"

definition server_readEOF ::
  "'a FizzServerConnection_scheme \<Rightarrow> slot_store
     \<Rightarrow> ('a FizzServerConnection_scheme \<times> slot_store \<times> Waker option) option" where
  "server_readEOF conn h =
     (let conn' = tr_do TrCloseNow (server_releaseRead (conn\<lparr>readEof := True\<rparr>))
      in map_option (\<lambda>(h', w). (conn', h', w)) (server_wakeReader conn' h))"

definition server_readErr ::
  "'a FizzServerConnection_scheme \<Rightarrow> slot_store \<Rightarrow> string
     \<Rightarrow> ('a FizzServerConnection_scheme \<times> slot_store \<times> Waker option) option" where
  "server_readErr conn h what =
     (let conn' = tr_do TrCloseNow
            ((server_releaseRead (conn\<lparr>errorMessage := what\<rparr>))\<lparr>readEof := True\<rparr>)
      in map_option (\<lambda>(h', w). (conn', h', w)) (server_wakeReader conn' h))"

section \<open>Server: the calls from Rust\<close>

definition server_connection_is_open ::
  "(tr_call list \<Rightarrow> bool) \<Rightarrow> 'a FizzServerConnection_scheme \<Rightarrow> bool" where
  "server_connection_is_open good conn \<longleftrightarrow>
     handshakeComplete conn \<and> (case transport conn of None \<Rightarrow> False | Some calls \<Rightarrow> good calls)"

text \<open>
  \<open>close\<close> runs on the event-base thread after the writes queued before it; then the loop is
  stopped and the thread joined. Waiting for a loop that no thread runs would never end.
\<close>

definition run_tasks :: "'a FizzServerConnection_scheme \<Rightarrow> 'a FizzServerConnection_scheme" where
  "run_tasks conn =
     conn\<lparr>transport := map_option (\<lambda>calls. calls @ map TrWriteChain (evb_tasks conn)) (transport conn),
          evb_tasks := []\<rparr>"

definition server_connection_close ::
  "(tr_call list \<Rightarrow> bool) \<Rightarrow> 'a FizzServerConnection_scheme
     \<Rightarrow> 'a FizzServerConnection_scheme \<times> unit call" where
  "server_connection_close good conn =
     (case (case transport conn of
              None \<Rightarrow> (conn, Returns ())
            | Some calls \<Rightarrow>
                if good calls then
                  (if evb_thread conn then (tr_do TrClose (run_tasks conn), Returns ())
                   else (conn, Blocks))
                else (conn, Returns ())) of
        (conn1, Returns u) \<Rightarrow>
          (if evb_thread conn1 then (conn1\<lparr>evb_thread := False\<rparr>, Returns ())
           else (conn1, Returns ()))
      | (conn1, r) \<Rightarrow> (conn1, r))"

definition server_connection_read ::
  "iobq \<Rightarrow> 'a FizzServerConnection_scheme \<Rightarrow> u8 list
     \<Rightarrow> 'a FizzServerConnection_scheme \<times> (nat \<times> u8 list) call" where
  "server_connection_read Q conn buf =
     (if \<not> handshakeComplete conn then
        (conn, Throws (''Failed to read: '' @ ''Cannot read: handshake not complete''))
      else if transport conn = None then
        (conn, Throws (''Failed to read: '' @ ''No transport available''))
      else if read_mutex conn then (conn, Blocks)
      else if bytesRead conn = 0 then (conn, Returns (0, buf))
      else let toRead = min (unat (bytesRead conn)) (length buf)
           in case split Q toRead (readBufQueue conn) of
                Inl what \<Rightarrow> (conn, Throws (''Failed to read: '' @ what))
              | Inr (data, rest) \<Rightarrow>
                  (conn\<lparr>readBufQueue := rest, bytesRead := bytesRead conn - of_nat toRead\<rparr>,
                   Returns (copy_chain data 0 buf)))"

definition server_connection_read_or_status ::
  "iobq \<Rightarrow> 'a FizzServerConnection_scheme \<Rightarrow> u8 list
     \<Rightarrow> 'a FizzServerConnection_scheme \<times> (ReadOutcome \<times> u8 list) call" where
  "server_connection_read_or_status Q conn buf =
     (if \<not> handshakeComplete conn then (conn, Throws ''Cannot read: handshake not complete'')
      else if transport conn = None then (conn, Throws ''No transport available'')
      else if read_mutex conn then (conn, Blocks)
      else if bytesRead conn = 0 then
        (conn, Returns (\<lparr>ro_bytes_read = 0, ro_eof = readEof conn\<rparr>, buf))
      else let toRead = min (unat (bytesRead conn)) (length buf)
           in case split Q toRead (readBufQueue conn) of
                Inl what \<Rightarrow> (conn, Throws what)
              | Inr (data, rest) \<Rightarrow>
                  (let (copied, buf') = copy_chain data 0 buf
                   in (conn\<lparr>readBufQueue := rest, bytesRead := bytesRead conn - of_nat toRead\<rparr>,
                       Returns (\<lparr>ro_bytes_read = of_nat copied, ro_eof = False\<rparr>, buf'))))"

definition server_read_size_hint :: "'a FizzServerConnection_scheme \<Rightarrow> u64" where
  "server_read_size_hint conn = bytesRead conn"

definition server_connection_read_eof :: "'a FizzServerConnection_scheme \<Rightarrow> bool" where
  "server_connection_read_eof conn = readEof conn"

text \<open>
  A write is queued on the event base and reported as done. The write callback later reports an
  error, which the next write raises.
\<close>

definition server_connection_write ::
  "'a FizzServerConnection_scheme \<Rightarrow> u8 list
     \<Rightarrow> 'a FizzServerConnection_scheme \<times> (string + nat)" where
  "server_connection_write conn buf =
     (if \<not> handshakeComplete conn then (conn, Inl ''Cannot write: handshake not complete'')
      else if transport conn = None then (conn, Inl ''No transport available'')
      else if writeError conn then (conn, Inl (''Write failed: '' @ writeErrorMessage conn))
      else (conn\<lparr>evb_tasks := evb_tasks conn @ [buf]\<rparr>, Inr (length buf)))"

definition server_writeErr ::
  "'a FizzServerConnection_scheme \<Rightarrow> string \<Rightarrow> 'a FizzServerConnection_scheme" where
  "server_writeErr conn what =
     tr_do TrCloseNow (conn\<lparr>writeErrorMessage := what, writeError := True\<rparr>)"

definition set_server_read_waker ::
  "'a FizzServerConnection_scheme \<Rightarrow> ReadWaker \<Rightarrow> 'a FizzServerConnection_scheme" where
  "set_server_read_waker conn waker = conn\<lparr>read_waker := Some waker\<rparr>"

text \<open>
  The destructor: the thread is stopped and joined, then the event base is released, whose final
  drain runs the writes still queued, and the waker last.
\<close>

definition server_destructor :: "'a FizzServerConnection_scheme \<Rightarrow> 'a FizzServerConnection_scheme list" where
  "server_destructor conn =
     (let stopped = (if evb_thread conn then conn\<lparr>evb_thread := False\<rparr> else conn);
          drained = (run_tasks stopped)\<lparr>evb := False\<rparr>;
          released = drained\<lparr>read_waker := None\<rparr>
      in [stopped, drained, released])"

text \<open>
  One turn of the event base while its thread runs the loop: the oldest queued write reaches the
  transport. Without a thread only the drain of the destructor does that.
\<close>

definition evb_turn :: "'a FizzServerConnection_scheme \<Rightarrow> 'a FizzServerConnection_scheme" where
  "evb_turn conn =
     (case evb_tasks conn of
        [] \<Rightarrow> conn
      | b # bs \<Rightarrow> if evb_thread conn then tr_do (TrWriteChain b) (conn\<lparr>evb_tasks := bs\<rparr>) else conn)"

section \<open>Client: read callbacks\<close>

text \<open>The client file repeats the server functions on its own struct.\<close>

definition client_wakeReader ::
  "FizzClientConnection \<Rightarrow> slot_store \<Rightarrow> (slot_store \<times> Waker option) option" where
  "client_wakeReader conn h =
     (case read_waker conn of None \<Rightarrow> Some (h, None) | Some rw \<Rightarrow> wake_read_waker h rw)"

definition client_getReadBuffer ::
  "FizzClientConnection \<Rightarrow> FizzClientConnection \<times> unit call" where
  "client_getReadBuffer conn =
     (if read_mutex conn then (conn, Blocks)
      else (conn\<lparr>read_mutex := True, pending_read := True\<rparr>, Returns ()))"

definition client_commitRead ::
  "iobq \<Rightarrow> FizzClientConnection \<Rightarrow> u8 list \<Rightarrow> FizzClientConnection" where
  "client_commitRead Q conn bs =
     conn\<lparr>readBufQueue := postallocate Q (readBufQueue conn) bs,
          bytesRead := bytesRead conn + of_nat (length bs),
          pending_read := False, read_mutex := False\<rparr>"

definition client_readDataAvailable ::
  "iobq \<Rightarrow> FizzClientConnection \<Rightarrow> slot_store \<Rightarrow> u8 list
     \<Rightarrow> (FizzClientConnection \<times> slot_store \<times> Waker option) option" where
  "client_readDataAvailable Q conn h bs =
     (let conn' = client_commitRead Q conn bs
      in map_option (\<lambda>(h', w). (conn', h', w)) (client_wakeReader conn' h))"

definition client_releaseRead ::
  "FizzClientConnection \<Rightarrow> FizzClientConnection" where
  "client_releaseRead conn =
     (if pending_read conn then conn\<lparr>pending_read := False, read_mutex := False\<rparr> else conn)"

definition client_readEOF ::
  "FizzClientConnection \<Rightarrow> slot_store
     \<Rightarrow> (FizzClientConnection \<times> slot_store \<times> Waker option) option" where
  "client_readEOF conn h =
     (let conn' = tr_do TrCloseNow (client_releaseRead (conn\<lparr>readEof := True\<rparr>))
      in map_option (\<lambda>(h', w). (conn', h', w)) (client_wakeReader conn' h))"

definition client_readErr ::
  "FizzClientConnection \<Rightarrow> slot_store \<Rightarrow> string
     \<Rightarrow> (FizzClientConnection \<times> slot_store \<times> Waker option) option" where
  "client_readErr conn h what =
     (let conn' = tr_do TrCloseNow
            ((client_releaseRead (conn\<lparr>errorMessage := what\<rparr>))\<lparr>readEof := True\<rparr>)
      in map_option (\<lambda>(h', w). (conn', h', w)) (client_wakeReader conn' h))"

section \<open>Client: the calls from Rust\<close>

definition client_connection_is_open ::
  "(tr_call list \<Rightarrow> bool) \<Rightarrow> FizzClientConnection \<Rightarrow> bool" where
  "client_connection_is_open good conn \<longleftrightarrow>
     handshakeComplete conn \<and> (case transport conn of None \<Rightarrow> False | Some calls \<Rightarrow> good calls)"

definition client_connection_close ::
  "(tr_call list \<Rightarrow> bool) \<Rightarrow> FizzClientConnection
     \<Rightarrow> FizzClientConnection \<times> unit call" where
  "client_connection_close good conn =
     (case (case transport conn of
              None \<Rightarrow> (conn, Returns ())
            | Some calls \<Rightarrow>
                if good calls then
                  (if evb_thread conn then (tr_do TrClose (run_tasks conn), Returns ())
                   else (conn, Blocks))
                else (conn, Returns ())) of
        (conn1, Returns u) \<Rightarrow>
          (if evb_thread conn1 then (conn1\<lparr>evb_thread := False\<rparr>, Returns ())
           else (conn1, Returns ()))
      | (conn1, r) \<Rightarrow> (conn1, r))"

definition client_connection_read ::
  "iobq \<Rightarrow> FizzClientConnection \<Rightarrow> u8 list
     \<Rightarrow> FizzClientConnection \<times> (nat \<times> u8 list) call" where
  "client_connection_read Q conn buf =
     (if \<not> handshakeComplete conn then
        (conn, Throws (''Failed to read: '' @ ''Cannot read: handshake not complete''))
      else if transport conn = None then
        (conn, Throws (''Failed to read: '' @ ''No transport available''))
      else if read_mutex conn then (conn, Blocks)
      else if bytesRead conn = 0 then (conn, Returns (0, buf))
      else let toRead = min (unat (bytesRead conn)) (length buf)
           in case split Q toRead (readBufQueue conn) of
                Inl what \<Rightarrow> (conn, Throws (''Failed to read: '' @ what))
              | Inr (data, rest) \<Rightarrow>
                  (conn\<lparr>readBufQueue := rest, bytesRead := bytesRead conn - of_nat toRead\<rparr>,
                   Returns (copy_chain data 0 buf)))"

definition client_connection_read_or_status ::
  "iobq \<Rightarrow> FizzClientConnection \<Rightarrow> u8 list
     \<Rightarrow> FizzClientConnection \<times> (ReadOutcome \<times> u8 list) call" where
  "client_connection_read_or_status Q conn buf =
     (if \<not> handshakeComplete conn then (conn, Throws ''Cannot read: handshake not complete'')
      else if transport conn = None then (conn, Throws ''No transport available'')
      else if read_mutex conn then (conn, Blocks)
      else if bytesRead conn = 0 then
        (conn, Returns (\<lparr>ro_bytes_read = 0, ro_eof = readEof conn\<rparr>, buf))
      else let toRead = min (unat (bytesRead conn)) (length buf)
           in case split Q toRead (readBufQueue conn) of
                Inl what \<Rightarrow> (conn, Throws what)
              | Inr (data, rest) \<Rightarrow>
                  (let (copied, buf') = copy_chain data 0 buf
                   in (conn\<lparr>readBufQueue := rest, bytesRead := bytesRead conn - of_nat toRead\<rparr>,
                       Returns (\<lparr>ro_bytes_read = of_nat copied, ro_eof = False\<rparr>, buf'))))"

definition client_read_size_hint :: "FizzClientConnection \<Rightarrow> u64" where
  "client_read_size_hint conn = bytesRead conn"

definition client_connection_read_eof :: "FizzClientConnection \<Rightarrow> bool" where
  "client_connection_read_eof conn = readEof conn"

definition client_connection_write ::
  "FizzClientConnection \<Rightarrow> u8 list
     \<Rightarrow> FizzClientConnection \<times> (string + nat)" where
  "client_connection_write conn buf =
     (if \<not> handshakeComplete conn then (conn, Inl ''Cannot write: handshake not complete'')
      else if transport conn = None then (conn, Inl ''No transport available'')
      else if writeError conn then (conn, Inl (''Write failed: '' @ writeErrorMessage conn))
      else (conn\<lparr>evb_tasks := evb_tasks conn @ [buf]\<rparr>, Inr (length buf)))"

definition client_writeErr ::
  "FizzClientConnection \<Rightarrow> string \<Rightarrow> FizzClientConnection" where
  "client_writeErr conn what =
     tr_do TrCloseNow (conn\<lparr>writeErrorMessage := what, writeError := True\<rparr>)"

definition set_client_read_waker ::
  "FizzClientConnection \<Rightarrow> ReadWaker \<Rightarrow> FizzClientConnection" where
  "set_client_read_waker conn waker = conn\<lparr>read_waker := Some waker\<rparr>"

definition client_destructor :: "FizzClientConnection \<Rightarrow> FizzClientConnection list" where
  "client_destructor conn =
     (let stopped = (if evb_thread conn then conn\<lparr>evb_thread := False\<rparr> else conn);
          drained = (run_tasks stopped)\<lparr>evb := False\<rparr>;
          released = drained\<lparr>read_waker := None\<rparr>
      in [stopped, drained, released])"

definition client_connection_peer_cert :: "FizzClientConnection \<Rightarrow> string + string" where
  "client_connection_peer_cert conn =
     rethrow ''Failed to get peer certificate: ''
       (if \<not> handshakeComplete conn then Inl ''Handshake not complete''
        else if peerCertPem conn = [] then Inl ''No peer certificate available''
        else Inr (peerCertPem conn))"

section \<open>The client functions are the server functions\<close>

lemma client_is_server [simp]:
  "client_wakeReader = server_wakeReader"
  "client_getReadBuffer = server_getReadBuffer"
  "client_commitRead = server_commitRead"
  "client_readDataAvailable = server_readDataAvailable"
  "client_releaseRead = server_releaseRead"
  "client_readEOF = server_readEOF"
  "client_readErr = server_readErr"
  by (simp_all add: fun_eq_iff client_wakeReader_def server_wakeReader_def
      client_getReadBuffer_def server_getReadBuffer_def client_commitRead_def server_commitRead_def
      client_readDataAvailable_def server_readDataAvailable_def
      client_releaseRead_def server_releaseRead_def client_readEOF_def server_readEOF_def
      client_readErr_def server_readErr_def)

lemma client_calls_are_server [simp]:
  "client_connection_is_open = server_connection_is_open"
  "client_connection_close = server_connection_close"
  "client_connection_read = server_connection_read"
  "client_connection_read_or_status = server_connection_read_or_status"
  "client_connection_write = server_connection_write"
  "client_writeErr = server_writeErr"
  "set_client_read_waker = set_server_read_waker"
  "client_destructor = server_destructor"
  by (simp_all add: fun_eq_iff client_connection_is_open_def server_connection_is_open_def
      client_connection_close_def server_connection_close_def
      client_connection_read_def server_connection_read_def
      client_connection_read_or_status_def server_connection_read_or_status_def
      client_connection_write_def server_connection_write_def
      client_writeErr_def server_writeErr_def set_client_read_waker_def set_server_read_waker_def
      client_destructor_def server_destructor_def)

end
