(* ===== verification/Fizz_Context.thy ===== *)
theory Fizz_Context
  imports Fizz_Credentials Fizz_Connection
begin

text \<open>
  TLS contexts and the connections made from them: the context parts of
  \<open>src/src/server_tls.rs\<close>, \<open>src/src/client_tls.rs\<close> and of the two FFI files under
  \<open>src/src/ffi\<close>, with \<open>client_connect\<close> and \<open>server_accept_connection\<close>. What fizz, folly and
  OpenSSL are asked for beyond the certificate calls extends the record of library calls.
\<close>

section \<open>What the code calls\<close>

record ('x, 'k, 't, 's, 'p, 'd) tls_crypto = "('x, 'k, 't, 's, 'p) dc_crypto" +
  loadDCFromPEM :: "string \<Rightarrow> string + 'd option"
  makeSelfCertP256 :: "'k \<Rightarrow> 'x \<Rightarrow> string + 's"
  x509_store_new :: bool
  x509_store_load_locations :: "string \<Rightarrow> bool"
  newSocket :: "int \<Rightarrow> string + unit"
  getCredentialExpiresTime :: "'x \<Rightarrow> fizz_credential \<Rightarrow> string + clock"

section \<open>fizz's configuration\<close>

datatype ProtocolVersion = tls_1_3

datatype CipherSuite =
  TLS_AES_128_GCM_SHA256 | TLS_AES_256_GCM_SHA384 | TLS_CHACHA20_POLY1305_SHA256

datatype NamedGroup = x25519 | secp256r1 | secp384r1 | secp521r1

record fizz_config =
  dcFactory :: bool
  supportedVersions :: "ProtocolVersion list"
  supportedCiphers :: "CipherSuite list list"
  supportedSigSchemes :: "u16 list"
  supportedGroups :: "NamedGroup list"
  supportedAlpns :: "string list"

text \<open>The signature schemes of the handshake, and those offered for delegated credentials.\<close>

definition handshake_sig_schemes :: "u16 list" where
  "handshake_sig_schemes =
     map as_u16 [EcdsaSecp256r1Sha256, EcdsaSecp384r1Sha384, EcdsaSecp521r1Sha512, RsaPssRsaeSha256]"

definition tls13_config :: "bool \<Rightarrow> fizz_config" where
  "tls13_config dc =
     \<lparr>dcFactory = dc,
      supportedVersions = [tls_1_3],
      supportedCiphers =
        [[TLS_AES_128_GCM_SHA256, TLS_AES_256_GCM_SHA384, TLS_CHACHA20_POLY1305_SHA256]],
      supportedSigSchemes = handshake_sig_schemes,
      supportedGroups = [x25519, secp256r1, secp384r1, secp521r1],
      supportedAlpns = []\<rparr>"

section \<open>Server context\<close>

datatype ('s, 'd) cert_manager = DelegatedCredentialCertManager 'd | DefaultCertManager 's

record ('s, 'd) FizzServerContext =
  sx_ctx :: fizz_config
  sx_certs :: "('s, 'd) cert_manager"
  sx_alpnProtocols :: "string list"

definition new_server_tls_context ::
  "('x, 'k, 't, 's, 'p, 'd) tls_crypto \<Rightarrow> CertificatePublic \<Rightarrow> ServiceCredential
     \<Rightarrow> string + ('s, 'd) FizzServerContext" where
  "new_server_tls_context K parent_cert delegated_cred =
     rethrow ''Failed to create server TLS context: ''
       (and_then (loadDCFromPEM K (cp_cert_pem parent_cert @ sc_credential_pem delegated_cred))
          (\<lambda>dc.
        and_then (ok_or ''Failed to load delegated credential from PEM'' dc) (\<lambda>dcCert.
        Inr \<lparr>sx_ctx = tls13_config False, sx_certs = DelegatedCredentialCertManager dcCert,
             sx_alpnProtocols = []\<rparr>)))"

definition new_server_tls_context_no_dc ::
  "('x, 'k, 't, 's, 'p, 'd) tls_crypto \<Rightarrow> CertificateData
     \<Rightarrow> string + ('s, 'd) FizzServerContext" where
  "new_server_tls_context_no_dc K parent_cert =
     rethrow ''Failed to create non-DC server TLS context: ''
       (and_then (ok_or ''Failed to parse parent certificate PEM''
                    (pem_read_x509 K (cd_cert_pem parent_cert))) (\<lambda>cert.
        and_then (ok_or ''Failed to parse parent private key PEM''
                    (pem_read_key K (cd_key_pem parent_cert))) (\<lambda>key.
        and_then (makeSelfCertP256 K key cert) (\<lambda>selfCert.
        Inr \<lparr>sx_ctx = tls13_config False, sx_certs = DefaultCertManager selfCert,
             sx_alpnProtocols = []\<rparr>))))"

definition server_context_set_alpn_protocols ::
  "('s, 'd) FizzServerContext \<Rightarrow> string list \<Rightarrow> ('s, 'd) FizzServerContext" where
  "server_context_set_alpn_protocols ctx protocols =
     (let ctx' = ctx\<lparr>sx_alpnProtocols := protocols\<rparr>
      in if sx_alpnProtocols ctx' \<noteq> []
         then ctx'\<lparr>sx_ctx := (sx_ctx ctx')\<lparr>supportedAlpns := sx_alpnProtocols ctx'\<rparr>\<rparr>
         else ctx')"

section \<open>Client context\<close>

text \<open>
  The numeric fields that \<open>new_client_tls_context_no_dc\<close> leaves alone are zero: \<open>make_unique\<close>
  value-initialises the struct.
\<close>

record FizzClientContext =
  cx_ctx :: fizz_config
  cx_serviceName :: string
  cx_validTime :: u32
  cx_expectedVerifyScheme :: u16
  cx_publicKeyDer :: string
  cx_expiresAt :: u64
  cx_caCertPath :: string
  cx_alpnProtocols :: "string list"
  cx_sniHostname :: string
  cx_dcEnabled :: bool

definition new_client_tls_context :: "VerificationInfo \<Rightarrow> string \<Rightarrow> string + FizzClientContext" where
  "new_client_tls_context verification_info ca_cert_path =
     Inr \<lparr>cx_ctx = tls13_config True,
          cx_serviceName = vi_service_name verification_info,
          cx_validTime = vi_valid_time verification_info,
          cx_expectedVerifyScheme = vi_expected_verify_scheme verification_info,
          cx_publicKeyDer = vi_public_key_der verification_info,
          cx_expiresAt = vi_expires_at verification_info,
          cx_caCertPath = ca_cert_path,
          cx_alpnProtocols = [], cx_sniHostname = [], cx_dcEnabled = True\<rparr>"

definition new_client_tls_context_no_dc :: "string \<Rightarrow> string + FizzClientContext" where
  "new_client_tls_context_no_dc ca_cert_path =
     Inr \<lparr>cx_ctx = tls13_config False,
          cx_serviceName = [], cx_validTime = 0, cx_expectedVerifyScheme = 0,
          cx_publicKeyDer = [], cx_expiresAt = 0,
          cx_caCertPath = ca_cert_path,
          cx_alpnProtocols = [], cx_sniHostname = [], cx_dcEnabled = False\<rparr>"

definition client_context_set_alpn_protocols ::
  "FizzClientContext \<Rightarrow> string list \<Rightarrow> FizzClientContext" where
  "client_context_set_alpn_protocols ctx protocols =
     (let ctx' = ctx\<lparr>cx_alpnProtocols := protocols\<rparr>
      in if cx_alpnProtocols ctx' \<noteq> []
         then ctx'\<lparr>cx_ctx := (cx_ctx ctx')\<lparr>supportedAlpns := cx_alpnProtocols ctx'\<rparr>\<rparr>
         else ctx')"

definition client_context_set_sni :: "FizzClientContext \<Rightarrow> string \<Rightarrow> FizzClientContext" where
  "client_context_set_sni ctx hostname = ctx\<lparr>cx_sniHostname := hostname\<rparr>"

section \<open>The Rust contexts\<close>

record ('s, 'd) ServerTlsContext =
  stc_inner :: "('s, 'd) FizzServerContext"

record ClientTlsContext =
  ctc_inner :: FizzClientContext

definition ServerTlsContext_new ::
  "('x, 'k, 't, 's, 'p, 'd) tls_crypto \<Rightarrow> CertificatePublicHandle \<Rightarrow> DelegatedCredentialData
     \<Rightarrow> FizzError + ('s, 'd) ServerTlsContext" where
  "ServerTlsContext_new K cert delegated_cred =
     map_ok (\<lambda>inner. \<lparr>stc_inner = inner\<rparr>)
       (ffi_result (new_server_tls_context K (pub_inner cert) (dcd_inner delegated_cred)))"

definition ServerTlsContext_new_no_dc ::
  "('x, 'k, 't, 's, 'p, 'd) tls_crypto \<Rightarrow> Certificate \<Rightarrow> FizzError + ('s, 'd) ServerTlsContext" where
  "ServerTlsContext_new_no_dc K cert =
     map_ok (\<lambda>inner. \<lparr>stc_inner = inner\<rparr>)
       (ffi_result (new_server_tls_context_no_dc K (cert_inner cert)))"

definition ServerTlsContext_set_alpn_protocols ::
  "('s, 'd) ServerTlsContext \<Rightarrow> string list \<Rightarrow> ('s, 'd) ServerTlsContext" where
  "ServerTlsContext_set_alpn_protocols self protocols =
     self\<lparr>stc_inner := server_context_set_alpn_protocols (stc_inner self) protocols\<rparr>"

definition ClientTlsContext_new :: "VerificationInfo \<Rightarrow> string \<Rightarrow> FizzError + ClientTlsContext" where
  "ClientTlsContext_new verification_info ca_cert_path =
     map_ok (\<lambda>inner. \<lparr>ctc_inner = inner\<rparr>)
       (ffi_result (new_client_tls_context verification_info ca_cert_path))"

definition ClientTlsContext_new_no_dc :: "string \<Rightarrow> FizzError + ClientTlsContext" where
  "ClientTlsContext_new_no_dc ca_cert_path =
     map_ok (\<lambda>inner. \<lparr>ctc_inner = inner\<rparr>)
       (ffi_result (new_client_tls_context_no_dc ca_cert_path))"

definition ClientTlsContext_set_alpn_protocols ::
  "ClientTlsContext \<Rightarrow> string list \<Rightarrow> ClientTlsContext" where
  "ClientTlsContext_set_alpn_protocols self protocols =
     self\<lparr>ctc_inner := client_context_set_alpn_protocols (ctc_inner self) protocols\<rparr>"

definition ClientTlsContext_set_sni :: "ClientTlsContext \<Rightarrow> string \<Rightarrow> ClientTlsContext" where
  "ClientTlsContext_set_sni self hostname =
     self\<lparr>ctc_inner := client_context_set_sni (ctc_inner self) hostname\<rparr>"

section \<open>Connections\<close>

text \<open>
  A connection as \<open>make_unique\<close> leaves it, then with the fields set in source order. The second
  component says whether \<open>newSocket\<close> returned: from then on the socket object owns the descriptor.
\<close>

definition blank_connection :: "int \<Rightarrow> FizzServerConnection" where
  "blank_connection fd' =
     \<lparr>evb = True, evb_thread = False, evb_tasks = [], transport = None,
      handshakeComplete = False, errorMessage = [], fd = fd',
      read_mutex = False, pending_read = False, readBufQueue = [], bytesRead = 0,
      readEof = False, read_waker = None, writeError = False, writeErrorMessage = []\<rparr>"

text \<open>
  A \<open>try\<close> block that makes a socket object out of a descriptor, step by step: a step may throw, one step takes the descriptor
  over (\<open>AsyncSocket::newSocket\<close>), and what was taken stays taken when a later step throws. The result says whether
  the descriptor has an owner.
\<close>

type_synonym 'a fd_step = "bool \<Rightarrow> (string + 'a) \<times> bool"

definition fd_keep :: "string + 'a \<Rightarrow> 'a fd_step" where
  "fd_keep r owned = (r, owned)"

definition fd_take :: "string + 'a \<Rightarrow> 'a fd_step" where
  "fd_take r owned = (r, owned \<or> is_ok r)"

definition fd_then :: "'a fd_step \<Rightarrow> ('a \<Rightarrow> 'b fd_step) \<Rightarrow> 'b fd_step" where
  "fd_then m f owned = (case m owned of (Inl what, owned') \<Rightarrow> (Inl what, owned') | (Inr x, owned') \<Rightarrow> f x owned')"

definition fd_try :: "string \<Rightarrow> 'a fd_step \<Rightarrow> (string + 'a) \<times> bool" where
  "fd_try context m = (case m False of (r, owned) \<Rightarrow> (rethrow context r, owned))"

definition server_accept_connection ::
  "('x, 'k, 't, 's, 'p, 'd) tls_crypto \<Rightarrow> ('s, 'd) FizzServerContext \<Rightarrow> int
     \<Rightarrow> (string + FizzServerConnection) \<times> bool" where
  "server_accept_connection K ctx fd' =
     fd_try ''Failed to accept connection: ''
       (fd_then (fd_take (newSocket K fd')) (\<lambda>socket.
        fd_keep (Inr ((blank_connection fd')\<lparr>transport := Some [], evb_thread := True\<rparr>))))"

definition createCertificateVerifier ::
  "('x, 'k, 't, 's, 'p, 'd) tls_crypto \<Rightarrow> string \<Rightarrow> string + string" where
  "createCertificateVerifier K path =
     rethrow ''Failed to create certificate verifier: ''
       (if \<not> x509_store_new K then Inl ''Failed to create X509_STORE''
        else if \<not> x509_store_load_locations K path
        then Inl (''Failed to load CA certificate from: '' @ path)
        else Inr path)"

definition blank_client :: "int \<Rightarrow> FizzClientConnection" where
  "blank_client fd' =
     FizzServerConnection.extend (blank_connection fd')
       (FizzClientConnection.fields [] [] None [] 0 0 [] 0 True)"

definition client_expectations ::
  "FizzClientContext \<Rightarrow> FizzClientConnection \<Rightarrow> FizzClientConnection" where
  "client_expectations ctx conn =
     (if cx_dcEnabled ctx then
        conn\<lparr>dcExtension := Some handshake_sig_schemes,
             expectedServiceName := cx_serviceName ctx,
             expectedValidTime := cx_validTime ctx,
             expectedVerifyScheme := cx_expectedVerifyScheme ctx,
             expectedPublicKeyDerHex := cx_publicKeyDer ctx,
             expectedExpiresAt := cx_expiresAt ctx\<rparr>
      else conn)"

definition client_connect ::
  "('x, 'k, 't, 's, 'p, 'd) tls_crypto \<Rightarrow> FizzClientContext \<Rightarrow> int \<Rightarrow> string
     \<Rightarrow> (string + FizzClientConnection) \<times> bool" where
  "client_connect K ctx fd' hostname =
     fd_try ''Failed to connect: ''
       (fd_then (fd_keep (createCertificateVerifier K (cx_caCertPath ctx))) (\<lambda>verifier.
        let conn = client_expectations ctx
              ((blank_client fd')\<lparr>caCertPath := cx_caCertPath ctx, dcEnabled := cx_dcEnabled ctx\<rparr>)
        in fd_then (fd_take (newSocket K fd')) (\<lambda>socket.
           let sni = (if hostname = [] \<and> cx_sniHostname ctx \<noteq> [] then cx_sniHostname ctx else hostname)
           in fd_keep (Inr (conn\<lparr>transport := Some [], peerCertPem := sni, evb_thread := True\<rparr>)))))"

section \<open>Lemmas\<close>

lemmas fd_step_defs = fd_keep_def fd_take_def fd_then_def fd_try_def rethrow_def

text \<open>Setting protocols takes effect in fizz only for a non-empty list.\<close>

lemma set_alpn_effect:
  "supportedAlpns (cx_ctx (client_context_set_alpn_protocols c ps)) =
     (if ps = [] then supportedAlpns (cx_ctx c) else ps)"
  "supportedAlpns (sx_ctx (server_context_set_alpn_protocols s ps)) =
     (if ps = [] then supportedAlpns (sx_ctx s) else ps)"
  by (simp_all add: client_context_set_alpn_protocols_def server_context_set_alpn_protocols_def Let_def)

lemma createCertificateVerifier_iff [res_simps]:
  "createCertificateVerifier K path = Inr v \<longleftrightarrow>
     x509_store_new K \<and> x509_store_load_locations K path \<and> v = path"
  by (auto simp: createCertificateVerifier_def res_simps)

lemma client_connect_iff:
  "client_connect K ctx fd' hostname = (Inr conn, owned) \<longleftrightarrow>
     x509_store_new K \<and> x509_store_load_locations K (cx_caCertPath ctx) \<and> newSocket K fd' = Inr ()
     \<and> owned
     \<and> conn = (client_expectations ctx ((blank_client fd')\<lparr>caCertPath := cx_caCertPath ctx,
                 dcEnabled := cx_dcEnabled ctx\<rparr>))
          \<lparr>transport := Some [],
           peerCertPem := (if hostname = [] then cx_sniHostname ctx else hostname),
           evb_thread := True\<rparr>"
  by (auto simp: client_connect_def fd_step_defs Let_def createCertificateVerifier_def split: sum.splits if_splits)

lemma server_accept_connection_iff:
  "server_accept_connection K ctx fd' = (Inr conn, owned) \<longleftrightarrow>
     newSocket K fd' = Inr () \<and> owned
     \<and> conn = (blank_connection fd')\<lparr>transport := Some [], evb_thread := True\<rparr>"
  by (auto simp: server_accept_connection_def fd_step_defs split: sum.splits)

text \<open>A connect that fails has not handed the descriptor to a socket object.\<close>

lemma connect_error_not_owned:
  "client_connect K ctx fd' hostname = (Inl e, owned) \<Longrightarrow> \<not> owned"
  "server_accept_connection K sctx fd' = (Inl e, owned) \<Longrightarrow> \<not> owned"
  by (auto simp: client_connect_def server_accept_connection_def fd_step_defs Let_def split: sum.splits)

section \<open>Properties\<close>

text \<open>A credential that was exported with \<open>to_pem\<close> and imported again with \<open>from_pem\<close>, which loses
  every field but the text, still serves: the server context made from it is the one the
  original gives, error or not.\<close>

theorem reimported_credential_serves_same:
  "and_then (DelegatedCredentialData_from_pem (DelegatedCredentialData_to_pem d))
     (ServerTlsContext_new K cert) = ServerTlsContext_new K cert d"
  by (simp add: DelegatedCredentialData_from_pem_def DelegatedCredentialData_to_pem_def
      delegated_credential_to_pem_def ServerTlsContext_new_def new_server_tls_context_def)

text \<open>Setting the ALPN protocols reaches fizz only for a non-empty list: an empty list clears the
  copy in the context but leaves the protocols set before in force, on both sides.\<close>

theorem empty_alpn_list_is_ignored:
  "supportedAlpns (cx_ctx (ctc_inner
       (ClientTlsContext_set_alpn_protocols (ClientTlsContext_set_alpn_protocols c ps) qs))) =
     (if qs = [] then (if ps = [] then supportedAlpns (cx_ctx (ctc_inner c)) else ps) else qs)
   \<and> supportedAlpns (sx_ctx (stc_inner
       (ServerTlsContext_set_alpn_protocols (ServerTlsContext_set_alpn_protocols s ps) qs))) =
     (if qs = [] then (if ps = [] then supportedAlpns (sx_ctx (stc_inner s)) else ps) else qs)"
  by (simp add: ClientTlsContext_set_alpn_protocols_def ServerTlsContext_set_alpn_protocols_def
      set_alpn_effect)

end
