(* ===== verification/Fizz_Stream.thy ===== *)
theory Fizz_Stream
  imports Fizz_Connection
begin

text \<open>
  The read side of a connection as a byte stream. The locale \<open>iobuf_queue\<close> is folly's contract
  for its buffer queue; under it the read functions keep \<open>conn_inv\<close> (the atomic byte counter
  is the length of the queue, the mutex is held exactly while a read is outstanding) and
  provide the interface \<open>byte_stream\<close>, in which the first-in-first-out law of a whole run is
  proved once for server and client.
\<close>

section \<open>Content and invariant\<close>

definition content :: "'a FizzServerConnection_scheme \<Rightarrow> u8 list" where
  "content conn = concat (readBufQueue conn)"

definition conn_inv :: "'a FizzServerConnection_scheme \<Rightarrow> bool" where
  "conn_inv conn \<longleftrightarrow>
     unat (bytesRead conn) = length (content conn) \<and> read_mutex conn = pending_read conn"

text \<open>A connection the Rust side may read from without waiting.\<close>

definition readable :: "'a FizzServerConnection_scheme \<Rightarrow> bool" where
  "readable conn \<longleftrightarrow>
     conn_inv conn \<and> handshakeComplete conn \<and> transport conn \<noteq> None \<and> \<not> read_mutex conn"

section \<open>The copy loop\<close>

lemma length_memcpy:
  "off + length bs \<le> length buf \<Longrightarrow> length (memcpy buf off bs) = length buf"
  by (simp add: memcpy_def)

lemma copy_chain_eq:
  assumes "off \<le> length buf"
  shows "copy_chain data off buf =
    (let m = min (length (concat data)) (length buf - off)
     in (off + m, take off buf @ take m (concat data) @ drop (off + m) buf))"
  using assms
proof (induction data arbitrary: off buf)
  case Nil
  then show ?case by simp
next
  case (Cons node data)
  let ?k = "min (length node) (length buf - off)"
  let ?buf = "memcpy buf off (take ?k node)"
  have len: "length ?buf = length buf"
    using Cons.prems by (intro length_memcpy) auto
  have "copy_chain (node # data) off buf = copy_chain data (off + ?k) ?buf"
    by (simp add: Let_def)
  also have "\<dots> = (let m = min (length (concat data)) (length buf - (off + ?k))
     in (off + ?k + m, take (off + ?k) ?buf @ take m (concat data) @ drop (off + ?k + m) ?buf))"
    using Cons.IH [of "off + ?k" ?buf] Cons.prems len by simp
  also have "\<dots> = (let m = min (length (concat (node # data))) (length buf - off)
     in (off + m, take off buf @ take m (concat (node # data)) @ drop (off + m) buf))"
    using Cons.prems
    by (cases "length node \<le> length buf - off") (auto simp: Let_def memcpy_def min_def ac_simps)
  finally show ?case .
qed

corollary copy_chain_0:
  "copy_chain data 0 buf =
    (min (length (concat data)) (length buf),
     take (length buf) (concat data) @ drop (length (concat data)) buf)"
  by (simp add: copy_chain_eq Let_def min_def)

section \<open>folly's queue\<close>

locale iobuf_queue =
  fixes Q :: iobq
  assumes postallocate_concat: "concat (postallocate Q q bs) = concat q @ bs"
    and split_enough: "n \<le> length (concat q) \<Longrightarrow>
      \<exists>data rest. split Q n q = Inr (data, rest)
        \<and> concat data = take n (concat q) \<and> concat rest = drop n (concat q)"
begin

lemma content_commitRead [simp]: "content (server_commitRead Q conn bs) = content conn @ bs"
  by (simp add: content_def server_commitRead_def postallocate_concat)

lemma conn_inv_commitRead:
  assumes "conn_inv conn" and "length (content conn) + length bs < 2 ^ 64"
  shows "conn_inv (server_commitRead Q conn bs)"
proof -
  have "unat (of_nat (length bs) :: u64) = length bs"
    using assms(2) by (intro unat_of_nat_u64) simp
  with assms have "unat (bytesRead conn + of_nat (length bs)) = length (content conn) + length bs"
    by (simp add: conn_inv_def unat_word_ariths)
  then show ?thesis
    by (simp add: conn_inv_def) (simp add: server_commitRead_def)
qed

lemma read_or_status_ok:
  assumes "readable conn"
  shows "\<exists>conn'. server_connection_read_or_status Q conn buf =
      (conn', Returns
        (\<lparr>ro_bytes_read = of_nat (min (length (content conn)) (length buf)),
          ro_eof = (content conn = [] \<and> readEof conn)\<rparr>,
         take (length buf) (content conn) @ drop (length (content conn)) buf))
    \<and> conn' = conn\<lparr>readBufQueue := readBufQueue conn', bytesRead := bytesRead conn'\<rparr>
    \<and> content conn' = drop (length buf) (content conn) \<and> conn_inv conn'"
proof (cases "bytesRead conn = 0")
  case True
  with assms have "content conn = []" by (simp add: readable_def conn_inv_def)
  with True assms show ?thesis
    by (simp add: server_connection_read_or_status_def readable_def)
next
  case False
  have len: "unat (bytesRead conn) = length (content conn)"
    using assms by (simp add: readable_def conn_inv_def)
  with False have ne: "content conn \<noteq> []"
    by (auto simp: unat_eq_zero)
  let ?n = "min (length (content conn)) (length buf)"
  have "?n \<le> length (concat (readBufQueue conn))" by (simp add: content_def)
  from split_enough [OF this] obtain data rest
    where s: "split Q ?n (readBufQueue conn) = Inr (data, rest)"
      and d: "concat data = take ?n (content conn)" and r: "concat rest = drop ?n (content conn)"
    by (auto simp: content_def)
  let ?c = "conn\<lparr>readBufQueue := rest, bytesRead := bytesRead conn - of_nat ?n\<rparr>"
  have "?n < 2 ^ 64"
    using len unat_u64_less [of "bytesRead conn"] by simp
  then have u: "unat (bytesRead conn - of_nat ?n) = length (content conn) - ?n"
    using len by (simp add: unat_sub word_le_nat_alt)
  have "server_connection_read_or_status Q conn buf =
      (?c, Returns (\<lparr>ro_bytes_read = of_nat ?n, ro_eof = False\<rparr>,
         take (length buf) (content conn) @ drop (length (content conn)) buf))"
    using assms False s d len
    by (auto simp: server_connection_read_or_status_def readable_def copy_chain_0 Let_def min_def)
  moreover have "content ?c = drop (length buf) (content conn)"
    using r by (auto simp: content_def min_def)
  moreover have "conn_inv ?c"
    using assms u r by (simp add: conn_inv_def readable_def content_def)
  ultimately show ?thesis using ne by (intro exI [of _ ?c]) simp
qed

lemma read_ok:
  assumes "readable conn"
  shows "\<exists>conn'. server_connection_read Q conn buf =
      (conn', Returns (min (length (content conn)) (length buf),
         take (length buf) (content conn) @ drop (length (content conn)) buf))
    \<and> server_connection_read_or_status Q conn buf =
      (conn', Returns
        (\<lparr>ro_bytes_read = of_nat (min (length (content conn)) (length buf)),
          ro_eof = (content conn = [] \<and> readEof conn)\<rparr>,
         take (length buf) (content conn) @ drop (length (content conn)) buf))"
proof -
  from read_or_status_ok [OF assms, of buf] obtain conn' where
    r: "server_connection_read_or_status Q conn buf =
      (conn', Returns
        (\<lparr>ro_bytes_read = of_nat (min (length (content conn)) (length buf)),
          ro_eof = (content conn = [] \<and> readEof conn)\<rparr>,
         take (length buf) (content conn) @ drop (length (content conn)) buf))" by blast
  have len: "unat (bytesRead conn) = length (content conn)"
    using assms by (simp add: readable_def conn_inv_def)
  have "server_connection_read Q conn buf =
      (conn', Returns (min (length (content conn)) (length buf),
         take (length buf) (content conn) @ drop (length (content conn)) buf))"
  proof (cases "bytesRead conn = 0")
    case True
    with len have "content conn = []" by simp
    with True assms r show ?thesis
      by (auto simp: server_connection_read_def server_connection_read_or_status_def readable_def)
  next
    case False
    have "min (length (content conn)) (length buf) \<le> length (concat (readBufQueue conn))"
      by (simp add: content_def)
    from split_enough [OF this] False assms r len show ?thesis
      by (auto simp: server_connection_read_def server_connection_read_or_status_def readable_def
          copy_chain_0 Let_def content_def)
  qed
  with r show ?thesis by blast
qed

end

section \<open>A byte stream\<close>

datatype act = Deliver "u8 list" | Take nat

fun delivered :: "act list \<Rightarrow> u8 list" where
  "delivered [] = []"
| "delivered (Deliver bs # as) = bs @ delivered as"
| "delivered (Take n # as) = delivered as"

text \<open>A run of deliveries and reads; the second component is what the reads returned.\<close>

fun stream_run ::
  "('c \<Rightarrow> u8 list \<Rightarrow> 'c) \<Rightarrow> ('c \<Rightarrow> nat \<Rightarrow> 'c \<times> u8 list) \<Rightarrow> act list \<Rightarrow> 'c \<Rightarrow> 'c \<times> u8 list" where
  "stream_run deliver tk [] c = (c, [])"
| "stream_run deliver tk (Deliver bs # as) c = stream_run deliver tk as (deliver c bs)"
| "stream_run deliver tk (Take n # as) c =
     (let (c', bs) = tk c n; (c'', rest) = stream_run deliver tk as c' in (c'', bs @ rest))"

locale byte_stream =
  fixes content_of :: "'c \<Rightarrow> u8 list"
    and inv :: "'c \<Rightarrow> bool"
    and deliver :: "'c \<Rightarrow> u8 list \<Rightarrow> 'c"
    and tk :: "'c \<Rightarrow> nat \<Rightarrow> 'c \<times> u8 list"
  assumes deliver_content: "inv c \<Longrightarrow> content_of (deliver c bs) = content_of c @ bs"
    and deliver_inv: "inv c \<Longrightarrow> length (content_of c) + length bs < 2 ^ 64 \<Longrightarrow> inv (deliver c bs)"
    and tk_bytes: "inv c \<Longrightarrow> snd (tk c n) = take n (content_of c)"
    and tk_content: "inv c \<Longrightarrow> content_of (fst (tk c n)) = drop n (content_of c)"
    and tk_inv: "inv c \<Longrightarrow> inv (fst (tk c n))"
begin

lemma stream_fifo:
  assumes "inv c" and "length (content_of c) + length (delivered as) < 2 ^ 64"
    and "stream_run deliver tk as c = (c', received)"
  shows "received @ content_of c' = content_of c @ delivered as \<and> inv c'"
  using assms
proof (induction as arbitrary: c received)
  case Nil
  then show ?case by simp
next
  case (Cons a as)
  show ?case
  proof (cases a)
    case (Deliver bs)
    with Cons.prems have "inv (deliver c bs)"
      by (intro deliver_inv) auto
    moreover have "length (content_of (deliver c bs)) + length (delivered as) < 2 ^ 64"
      using Cons.prems Deliver by (simp add: deliver_content)
    ultimately show ?thesis
      using Cons.IH [of "deliver c bs" received] Cons.prems Deliver
      by (simp add: deliver_content)
  next
    case (Take n)
    obtain d bs where t: "tk c n = (d, bs)" by fastforce
    obtain c1 rest where r: "stream_run deliver tk as d = (c1, rest)" by fastforce
    from Cons.prems Take t r have eq: "c' = c1" "received = bs @ rest" by simp_all
    have d: "inv d" "content_of d = drop n (content_of c)" "bs = take n (content_of c)"
      using tk_inv [of c n] tk_content [of c n] tk_bytes [of c n] Cons.prems(1) t by simp_all
    have "length (content_of d) + length (delivered as) < 2 ^ 64"
      using Cons.prems(2) Take d by simp
    from Cons.IH [OF d(1) this] r eq have "rest @ content_of c1 = content_of d @ delivered as" "inv c1"
      by simp_all
    then show ?thesis using eq d Take by simp
  qed
qed

end

section \<open>Server and client provide it\<close>

text \<open>One delivery by the event-base thread, and one read of up to \<open>n\<close> bytes from Rust.\<close>

definition server_deliver ::
  "iobq \<Rightarrow> 'a FizzServerConnection_scheme \<Rightarrow> u8 list \<Rightarrow> 'a FizzServerConnection_scheme" where
  "server_deliver Q conn bs = server_commitRead Q (fst (server_getReadBuffer conn)) bs"

definition server_take ::
  "iobq \<Rightarrow> 'a FizzServerConnection_scheme \<Rightarrow> nat \<Rightarrow> 'a FizzServerConnection_scheme \<times> u8 list" where
  "server_take Q conn n =
     (case server_connection_read_or_status Q conn (replicate n 0) of
        (conn', Returns (out, buf)) \<Rightarrow> (conn', take (unat (ro_bytes_read out)) buf)
      | (conn', _) \<Rightarrow> (conn', []))"

definition client_deliver :: "iobq \<Rightarrow> FizzClientConnection \<Rightarrow> u8 list \<Rightarrow> FizzClientConnection" where
  "client_deliver Q conn bs = client_commitRead Q (fst (client_getReadBuffer conn)) bs"

definition client_take :: "iobq \<Rightarrow> FizzClientConnection \<Rightarrow> nat \<Rightarrow> FizzClientConnection \<times> u8 list" where
  "client_take Q conn n =
     (case client_connection_read_or_status Q conn (replicate n 0) of
        (conn', Returns (out, buf)) \<Rightarrow> (conn', take (unat (ro_bytes_read out)) buf)
      | (conn', _) \<Rightarrow> (conn', []))"

lemma client_stream_is_server [simp]:
  "client_deliver = server_deliver" "client_take = server_take"
  by (simp_all add: fun_eq_iff client_deliver_def server_deliver_def client_take_def server_take_def)

context iobuf_queue
begin

lemma content_getReadBuffer [simp]: "content (fst (server_getReadBuffer conn)) = content conn"
  by (simp add: server_getReadBuffer_def content_def)

lemma server_take_readable:
  assumes "readable conn"
  obtains conn' where "server_take Q conn n = (conn', take n (content conn))"
    and "content conn' = drop n (content conn)" and "readable conn'"
proof -
  from read_or_status_ok [OF assms, of "replicate n 0"] obtain conn' where
    r: "server_connection_read_or_status Q conn (replicate n 0) =
      (conn', Returns
        (\<lparr>ro_bytes_read = of_nat (min (length (content conn)) n),
          ro_eof = (content conn = [] \<and> readEof conn)\<rparr>,
         take n (content conn) @ drop (length (content conn)) (replicate n 0)))"
    and f: "conn' = conn\<lparr>readBufQueue := readBufQueue conn', bytesRead := bytesRead conn'\<rparr>"
    and c: "content conn' = drop n (content conn)" "conn_inv conn'" by auto
  have "min (length (content conn)) n < 2 ^ 64"
    using assms unat_u64_less [of "bytesRead conn"]
    by (simp add: readable_def conn_inv_def)
  then have "server_take Q conn n = (conn', take n (content conn))"
    using r by (simp add: server_take_def min_def)
  moreover have "readable conn'"
  proof -
    have "handshakeComplete conn' = handshakeComplete conn" "transport conn' = transport conn"
      "read_mutex conn' = read_mutex conn"
      by (subst f, simp)+
    with assms c show ?thesis by (simp add: readable_def)
  qed
  ultimately show ?thesis using that c by blast
qed

lemma byte_stream_server: "byte_stream content readable (server_deliver Q) (server_take Q)"
proof (unfold_locales, goal_cases)
  case (1 c bs)
  show ?case by (simp add: server_deliver_def)
next
  case (2 c bs)
  then have "conn_inv (fst (server_getReadBuffer c))"
    by (simp add: readable_def conn_inv_def server_getReadBuffer_def content_def)
  with 2 have "conn_inv (server_deliver Q c bs)"
    unfolding server_deliver_def by (intro conn_inv_commitRead) auto
  with 2 show ?case
    by (simp add: readable_def server_deliver_def server_commitRead_def server_getReadBuffer_def)
next
  case (3 c n)
  then show ?case by (rule server_take_readable [where n = n]) simp
next
  case (4 c n)
  then show ?case by (rule server_take_readable [where n = n]) simp
next
  case (5 c n)
  then show ?case by (rule server_take_readable [where n = n]) simp
qed

end

sublocale iobuf_queue \<subseteq> srv: byte_stream content readable "server_deliver Q" "server_take Q"
  by (rule byte_stream_server)

sublocale iobuf_queue \<subseteq> cli: byte_stream content readable "client_deliver Q" "client_take Q"
  unfolding client_stream_is_server by (rule byte_stream_server)

context iobuf_queue
begin

lemmas server_stream_fifo = srv.stream_fifo
lemmas client_stream_fifo = cli.stream_fifo

end

section \<open>A queue that keeps one block per delivery\<close>

fun split_chain :: "nat \<Rightarrow> chain \<Rightarrow> string + chain \<times> chain" where
  "split_chain n [] = (if n = 0 then Inr ([], []) else Inl ''Attempt to remove more bytes than are present in IOBufQueue'')"
| "split_chain n (b # q) =
     (if length b \<le> n
      then map_ok (\<lambda>(data, rest). (b # data, rest)) (split_chain (n - length b) q)
      else Inr ([take n b], drop n b # q))"

definition block_queue :: iobq where
  "block_queue = \<lparr>postallocate = (\<lambda>q bs. q @ [bs]), split = split_chain\<rparr>"

lemma split_chain_enough:
  "n \<le> length (concat q) \<Longrightarrow>
    \<exists>data rest. split_chain n q = Inr (data, rest)
      \<and> concat data = take n (concat q) \<and> concat rest = drop n (concat q)"
proof (induction q arbitrary: n)
  case Nil
  then show ?case by simp
next
  case (Cons b q)
  show ?case
  proof (cases "length b \<le> n")
    case True
    with Cons.prems have "n - length b \<le> length (concat q)" by simp
    from Cons.IH [OF this] True show ?thesis by auto
  next
    case False
    then show ?thesis by simp
  qed
qed

interpretation block: iobuf_queue block_queue
  by unfold_locales (simp_all add: block_queue_def split_chain_enough)

section \<open>A concrete instance\<close>

text \<open>A connection whose handshake is done and that has received nothing.\<close>

definition sample_connection :: FizzServerConnection where
  "sample_connection =
     \<lparr>evb = True, evb_thread = True, evb_tasks = [], transport = Some [],
      handshakeComplete = True, errorMessage = [], fd = 7,
      read_mutex = False, pending_read = False, readBufQueue = [], bytesRead = 0,
      readEof = False, read_waker = None, writeError = False, writeErrorMessage = []\<rparr>"

definition sample_client :: FizzClientConnection where
  "sample_client =
     FizzServerConnection.extend sample_connection
       (FizzClientConnection.fields [] ''ca.pem'' None [] 0 0 [] 0 True)"

lemma sample_readable [simp]:
  "readable sample_connection" "content sample_connection = []"
  "readable sample_client" "content sample_client = []"
  by (simp_all add: sample_connection_def sample_client_def readable_def conn_inv_def content_def
      FizzServerConnection.defs FizzClientConnection.defs)

section \<open>Properties\<close>

text \<open>C15. The server's read side is a byte stream: over any sequence of deliveries by the event-base
  thread and reads of any sizes from Rust, the bytes the reads returned, followed by what is
  still buffered, are the bytes buffered at the start followed by those delivered, in order.\<close>

theorem server_bytes_in_order:
  assumes "iobuf_queue Q" and "readable conn"
    and "length (content conn) + length (delivered as) < 2 ^ 64"
    and "stream_run (server_deliver Q) (server_take Q) as conn = (conn', received)"
  shows "received @ content conn' = content conn @ delivered as \<and> readable conn'"
  by (rule iobuf_queue.server_stream_fifo [OF assms])

theorem server_bytes_in_order_witness:
  "let (c, received) = stream_run (server_deliver block_queue) (server_take block_queue)
      [Deliver [1, 2, 3], Take 2, Deliver [4], Take 5] sample_connection
   in received @ content c = [1, 2, 3, 4]"
proof -
  obtain c r where run: "stream_run (server_deliver block_queue) (server_take block_queue)
      [Deliver [1, 2, 3], Take 2, Deliver [4], Take 5] sample_connection = (c, r)" by fastforce
  from server_bytes_in_order [OF block.iobuf_queue_axioms sample_readable(1) _ this] run
  show ?thesis by simp
qed

text \<open>The same for the client, whose functions are written out a second time.\<close>

theorem client_bytes_in_order:
  assumes "iobuf_queue Q" and "readable conn"
    and "length (content conn) + length (delivered as) < 2 ^ 64"
    and "stream_run (client_deliver Q) (client_take Q) as conn = (conn', received)"
  shows "received @ content conn' = content conn @ delivered as \<and> readable conn'"
  by (rule iobuf_queue.client_stream_fifo [OF assms])

theorem client_bytes_in_order_witness:
  "let (c, received) = stream_run (client_deliver block_queue) (client_take block_queue)
      [Deliver [1, 2, 3], Take 2, Deliver [4], Take 5] sample_client
   in received @ content c = [1, 2, 3, 4]"
proof -
  obtain c r where run: "stream_run (client_deliver block_queue) (client_take block_queue)
      [Deliver [1, 2, 3], Take 2, Deliver [4], Take 5] sample_client = (c, r)" by fastforce
  from client_bytes_in_order [OF block.iobuf_queue_axioms sample_readable(3) _ this] run
  show ?thesis by simp
qed

text \<open>The client's read callbacks and connection functions, a second copy of the server's in the
  source, behave exactly like the server's on the fields both structs have.\<close>

theorem client_code_equals_server_code:
  "client_readDataAvailable = server_readDataAvailable \<and> client_readEOF = server_readEOF
   \<and> client_readErr = server_readErr
   \<and> client_connection_read = server_connection_read
   \<and> client_connection_read_or_status = server_connection_read_or_status
   \<and> client_connection_write = server_connection_write
   \<and> client_connection_close = server_connection_close
   \<and> client_destructor = server_destructor"
  by simp

end
