(* ===== verification/Fizz_Poll.thy ===== *)
theory Fizz_Poll
  imports Fizz_Stream
begin

text \<open>
  The Rust connections: \<open>ServerConnection\<close> of \<open>src/src/server_tls.rs\<close> and
  \<open>ClientConnection\<close> of \<open>src/src/client_tls.rs\<close>, with their \<open>AsyncRead\<close> and
  \<open>AsyncWrite\<close> implementations. A poll that reads gets the slice \<open>initialize_unfilled\<close>
  returned and says how far \<open>advance\<close> moved. A poll may wait for the read mutex
  (\<open>Blocks\<close>) or panic on a poisoned slot (\<open>Throws\<close>).
\<close>

section \<open>Polls\<close>

datatype 'a Poll = Pending | Ready 'a

record ServerConnection =
  sv_inner :: FizzServerConnection
  sv_read_waker :: ReadWaker

record ClientConnection =
  cl_inner :: FizzClientConnection
  cl_read_waker :: ReadWaker

record 'c poll_read_result =
  pr_store :: slot_store
  pr_self :: 'c
  pr_slice :: "u8 list"
  pr_advanced :: nat
  pr_poll :: "(IoErr + unit) Poll"

section \<open>Server\<close>

definition ServerConnection_is_open :: "(tr_call list \<Rightarrow> bool) \<Rightarrow> ServerConnection \<Rightarrow> bool" where
  "ServerConnection_is_open good self = server_connection_is_open good (sv_inner self)"

definition ServerConnection_close ::
  "(tr_call list \<Rightarrow> bool) \<Rightarrow> ServerConnection \<Rightarrow> ServerConnection \<times> unit call" where
  "ServerConnection_close good self =
     (case server_connection_close good (sv_inner self) of
        (conn, r) \<Rightarrow> (self\<lparr>sv_inner := conn\<rparr>, r))"

definition server_poll_read ::
  "(Waker \<Rightarrow> Waker \<Rightarrow> bool) \<Rightarrow> iobq \<Rightarrow> slot_store \<Rightarrow> ServerConnection \<Rightarrow> Waker \<Rightarrow> u8 list
     \<Rightarrow> ServerConnection poll_read_result call" where
  "server_poll_read ww Q h self waker buf_slice =
     (case register ww h (sv_read_waker self) waker of
        None \<Rightarrow> Throws ''ReadWaker slot poisoned''
      | Some h' \<Rightarrow>
          (case server_connection_read_or_status Q (sv_inner self) buf_slice of
             (conn, Blocks) \<Rightarrow> Blocks
           | (conn, Throws e) \<Rightarrow>
               Returns \<lparr>pr_store = h', pr_self = self\<lparr>sv_inner := conn\<rparr>, pr_slice = buf_slice,
                        pr_advanced = 0, pr_poll = Ready (Inl (IoErr Other e))\<rparr>
           | (conn, Returns (outcome, buf')) \<Rightarrow>
               (if ro_bytes_read outcome > 0 then
                  Returns \<lparr>pr_store = h', pr_self = self\<lparr>sv_inner := conn\<rparr>, pr_slice = buf',
                           pr_advanced = unat (ro_bytes_read outcome), pr_poll = Ready (Inr ())\<rparr>
                else if ro_eof outcome then
                  Returns \<lparr>pr_store = h', pr_self = self\<lparr>sv_inner := conn\<rparr>, pr_slice = buf',
                           pr_advanced = 0, pr_poll = Ready (Inr ())\<rparr>
                else
                  Returns \<lparr>pr_store = h', pr_self = self\<lparr>sv_inner := conn\<rparr>, pr_slice = buf',
                           pr_advanced = 0, pr_poll = Pending\<rparr>)))"

definition server_poll_write ::
  "ServerConnection \<Rightarrow> u8 list \<Rightarrow> ServerConnection \<times> (IoErr + nat) Poll" where
  "server_poll_write self buf =
     (case server_connection_write (sv_inner self) buf of
        (conn, Inr n) \<Rightarrow> (self\<lparr>sv_inner := conn\<rparr>, Ready (Inr n))
      | (conn, Inl e) \<Rightarrow> (self\<lparr>sv_inner := conn\<rparr>, Ready (Inl (IoErr Other e))))"

definition server_poll_flush :: "ServerConnection \<Rightarrow> (IoErr + unit) Poll" where
  "server_poll_flush self = Ready (Inr ())"

definition server_poll_shutdown ::
  "(tr_call list \<Rightarrow> bool) \<Rightarrow> ServerConnection \<Rightarrow> ServerConnection \<times> (IoErr + unit) Poll call" where
  "server_poll_shutdown good self =
     (case server_poll_flush self of
        Ready (Inr _) \<Rightarrow>
          (case ServerConnection_close good self of
             (self', Returns _) \<Rightarrow> (self', Returns (Ready (Inr ())))
           | (self', Throws e) \<Rightarrow> (self', Throws e)
           | (self', Blocks) \<Rightarrow> (self', Blocks))
      | Ready (Inl e) \<Rightarrow> (self, Returns (Ready (Inl e)))
      | Pending \<Rightarrow> (self, Returns Pending))"

section \<open>Client\<close>

definition peer_certificate :: "ClientConnection \<Rightarrow> FizzError + string" where
  "peer_certificate self =
     map_err TlsHandshakeError (client_connection_peer_cert (cl_inner self))"

definition ClientConnection_is_open :: "(tr_call list \<Rightarrow> bool) \<Rightarrow> ClientConnection \<Rightarrow> bool" where
  "ClientConnection_is_open good self = client_connection_is_open good (cl_inner self)"

definition ClientConnection_close ::
  "(tr_call list \<Rightarrow> bool) \<Rightarrow> ClientConnection \<Rightarrow> ClientConnection \<times> unit call" where
  "ClientConnection_close good self =
     (case client_connection_close good (cl_inner self) of
        (conn, r) \<Rightarrow> (self\<lparr>cl_inner := conn\<rparr>, r))"

text \<open>Only the client implements \<open>Drop\<close>; dropping closes first.\<close>

definition ClientConnection_drop ::
  "(tr_call list \<Rightarrow> bool) \<Rightarrow> ClientConnection \<Rightarrow> ClientConnection \<times> unit call" where
  "ClientConnection_drop good self = ClientConnection_close good self"

definition client_poll_read ::
  "(Waker \<Rightarrow> Waker \<Rightarrow> bool) \<Rightarrow> iobq \<Rightarrow> slot_store \<Rightarrow> ClientConnection \<Rightarrow> Waker \<Rightarrow> u8 list
     \<Rightarrow> ClientConnection poll_read_result call" where
  "client_poll_read ww Q h self waker buf_slice =
     (case register ww h (cl_read_waker self) waker of
        None \<Rightarrow> Throws ''ReadWaker slot poisoned''
      | Some h' \<Rightarrow>
          (case client_connection_read_or_status Q (cl_inner self) buf_slice of
             (conn, Blocks) \<Rightarrow> Blocks
           | (conn, Throws e) \<Rightarrow>
               Returns \<lparr>pr_store = h', pr_self = self\<lparr>cl_inner := conn\<rparr>, pr_slice = buf_slice,
                        pr_advanced = 0, pr_poll = Ready (Inl (IoErr Other e))\<rparr>
           | (conn, Returns (outcome, buf')) \<Rightarrow>
               (if ro_bytes_read outcome > 0 then
                  Returns \<lparr>pr_store = h', pr_self = self\<lparr>cl_inner := conn\<rparr>, pr_slice = buf',
                           pr_advanced = unat (ro_bytes_read outcome), pr_poll = Ready (Inr ())\<rparr>
                else if ro_eof outcome then
                  Returns \<lparr>pr_store = h', pr_self = self\<lparr>cl_inner := conn\<rparr>, pr_slice = buf',
                           pr_advanced = 0, pr_poll = Ready (Inr ())\<rparr>
                else
                  Returns \<lparr>pr_store = h', pr_self = self\<lparr>cl_inner := conn\<rparr>, pr_slice = buf',
                           pr_advanced = 0, pr_poll = Pending\<rparr>)))"

definition client_poll_write ::
  "ClientConnection \<Rightarrow> u8 list \<Rightarrow> ClientConnection \<times> (IoErr + nat) Poll" where
  "client_poll_write self buf =
     (case client_connection_write (cl_inner self) buf of
        (conn, Inr n) \<Rightarrow> (self\<lparr>cl_inner := conn\<rparr>, Ready (Inr n))
      | (conn, Inl e) \<Rightarrow> (self\<lparr>cl_inner := conn\<rparr>, Ready (Inl (IoErr Other e))))"

definition client_poll_flush :: "ClientConnection \<Rightarrow> (IoErr + unit) Poll" where
  "client_poll_flush self = Ready (Inr ())"

definition client_poll_shutdown ::
  "(tr_call list \<Rightarrow> bool) \<Rightarrow> ClientConnection \<Rightarrow> ClientConnection \<times> (IoErr + unit) Poll call" where
  "client_poll_shutdown good self =
     (case client_poll_flush self of
        Ready (Inr _) \<Rightarrow>
          (case ClientConnection_close good self of
             (self', Returns _) \<Rightarrow> (self', Returns (Ready (Inr ())))
           | (self', Throws e) \<Rightarrow> (self', Throws e)
           | (self', Blocks) \<Rightarrow> (self', Blocks))
      | Ready (Inl e) \<Rightarrow> (self, Returns (Ready (Inl e)))
      | Pending \<Rightarrow> (self, Returns Pending))"

section \<open>Reading\<close>

text \<open>What a poll that reads answers, as a function of what the connection holds.\<close>

definition read_answer :: "u8 list \<Rightarrow> bool \<Rightarrow> nat \<Rightarrow> (IoErr + unit) Poll" where
  "read_answer bs eof n =
     (if bs \<noteq> [] \<and> n > 0 then Ready (Inr ())
      else if bs = [] \<and> eof then Ready (Inr ()) else Pending)"

context iobuf_queue
begin

text \<open>The outcome of the shared read function in the form both polls inspect it.\<close>

lemma read_outcome:
  assumes "readable conn"
  obtains conn' out buf' where
    "server_connection_read_or_status Q conn buf = (conn', Returns (out, buf'))"
    and "unat (ro_bytes_read out) = min (length (content conn)) (length buf)"
    and "(0 < ro_bytes_read out) = (content conn \<noteq> [] \<and> buf \<noteq> [])"
    and "ro_eof out = (content conn = [] \<and> readEof conn)"
    and "buf' = take (length buf) (content conn) @ drop (length (content conn)) buf"
    and "content conn' = drop (length buf) (content conn)" and "readable conn'"
proof -
  let ?n = "min (length (content conn)) (length buf)"
  from read_or_status_ok [OF assms, of buf] obtain conn' where
    r: "server_connection_read_or_status Q conn buf =
      (conn', Returns (\<lparr>ro_bytes_read = of_nat ?n, ro_eof = (content conn = [] \<and> readEof conn)\<rparr>,
         take (length buf) (content conn) @ drop (length (content conn)) buf))"
    and f: "conn' = conn\<lparr>readBufQueue := readBufQueue conn', bytesRead := bytesRead conn'\<rparr>"
    and c: "content conn' = drop (length buf) (content conn)" "conn_inv conn'" by blast
  have "?n < 2 ^ 64"
    using assms unat_u64_less [of "bytesRead conn"] by (simp add: readable_def conn_inv_def)
  then have u: "unat (of_nat ?n :: u64) = ?n" by (rule unat_of_nat_u64)
  then have pos: "(0 < (of_nat ?n :: u64)) = (content conn \<noteq> [] \<and> buf \<noteq> [])"
    by (simp only: word_less_nat_alt) auto
  have "handshakeComplete conn' = handshakeComplete conn" "transport conn' = transport conn"
    "read_mutex conn' = read_mutex conn"
    by (subst f, simp)+
  with assms c have "readable conn'" by (simp add: readable_def)
  then show ?thesis
    by (intro that [OF r]) (simp_all only: ReadOutcome.simps u pos c)
qed

lemma server_poll_read_ok:
  assumes "readable (sv_inner self)" and "slot_ok h (sv_read_waker self)"
  shows "\<exists>r. server_poll_read ww Q h self waker buf = Returns r
    \<and> register ww h (sv_read_waker self) waker = Some (pr_store r)
    \<and> pr_poll r = read_answer (content (sv_inner self)) (readEof (sv_inner self)) (length buf)
    \<and> pr_advanced r = min (length (content (sv_inner self))) (length buf)
    \<and> take (pr_advanced r) (pr_slice r) = take (length buf) (content (sv_inner self))
    \<and> content (sv_inner (pr_self r)) = drop (length buf) (content (sv_inner self))
    \<and> sv_read_waker (pr_self r) = sv_read_waker self"
proof -
  obtain h' where reg: "register ww h (sv_read_waker self) waker = Some h'"
    using register_total [OF assms(2)] by blast
  show ?thesis
    by (rule read_outcome [OF assms(1), of buf])
      (use reg in \<open>auto simp: server_poll_read_def read_answer_def\<close>)
qed

lemma client_poll_read_ok:
  assumes "readable (cl_inner self)" and "slot_ok h (cl_read_waker self)"
  shows "\<exists>r. client_poll_read ww Q h self waker buf = Returns r
    \<and> register ww h (cl_read_waker self) waker = Some (pr_store r)
    \<and> pr_poll r = read_answer (content (cl_inner self)) (readEof (cl_inner self)) (length buf)
    \<and> pr_advanced r = min (length (content (cl_inner self))) (length buf)
    \<and> take (pr_advanced r) (pr_slice r) = take (length buf) (content (cl_inner self))
    \<and> content (cl_inner (pr_self r)) = drop (length buf) (content (cl_inner self))
    \<and> cl_read_waker (pr_self r) = cl_read_waker self"
proof -
  obtain h' where reg: "register ww h (cl_read_waker self) waker = Some h'"
    using register_total [OF assms(2)] by blast
  show ?thesis
    by (rule read_outcome [OF assms(1), of buf])
      (use reg in \<open>auto simp: client_poll_read_def read_answer_def\<close>)
qed

end

section \<open>Closing and writing\<close>

text \<open>
  A stopped loop has a closed transport: what keeps \<open>close\<close> from waiting for a thread that is
  gone.
\<close>

definition close_inv :: "(tr_call list \<Rightarrow> bool) \<Rightarrow> 'a FizzServerConnection_scheme \<Rightarrow> bool" where
  "close_inv good conn \<longleftrightarrow>
     (\<forall>calls. transport conn = Some calls \<longrightarrow> good calls \<longrightarrow> evb_thread conn)"

lemma server_connection_close_Returns:
  assumes "close_inv good conn" and "closed_not_good good"
  shows "\<exists>conn'. server_connection_close good conn = (conn', Returns ())
    \<and> \<not> evb_thread conn' \<and> \<not> server_connection_is_open good conn' \<and> close_inv good conn'"
  using assms
  by (cases "transport conn")
    (auto simp: server_connection_close_def close_inv_def closed_not_good_def tr_do_def
      run_tasks_def server_connection_is_open_def)

lemma server_connection_close_idem:
  assumes "closed_not_good good" and "server_connection_close good conn = (conn', Returns ())"
  shows "server_connection_close good conn' = (conn', Returns ())"
  using assms
  by (cases "transport conn")
    (auto simp: server_connection_close_def closed_not_good_def tr_do_def run_tasks_def
      split: if_splits)

section \<open>The write queue\<close>

text \<open>
  Every write accepted so far, in order: what the transport got, then what still waits on the
  event base.
\<close>

fun chain_writes :: "tr_call list \<Rightarrow> u8 list list" where
  "chain_writes [] = []"
| "chain_writes (TrWriteChain b # calls) = b # chain_writes calls"
| "chain_writes (_ # calls) = chain_writes calls"

lemma chain_writes_append [simp]: "chain_writes (xs @ ys) = chain_writes xs @ chain_writes ys"
  by (induction xs rule: chain_writes.induct) simp_all

lemma chain_writes_map [simp]: "chain_writes (map TrWriteChain bs) = bs"
  by (induction bs) simp_all

definition write_stream :: "'a FizzServerConnection_scheme \<Rightarrow> u8 list list" where
  "write_stream conn =
     (case transport conn of None \<Rightarrow> [] | Some calls \<Rightarrow> chain_writes calls) @ evb_tasks conn"

definition write_ready :: "'a FizzServerConnection_scheme \<Rightarrow> bool" where
  "write_ready conn \<longleftrightarrow> handshakeComplete conn \<and> transport conn \<noteq> None"

text \<open>What can happen to the write side: a poll, a turn of the event base, a failed write.\<close>

datatype wact = Write "u8 list" | Turn | WriteFails string

fun write_run ::
  "('c \<Rightarrow> u8 list \<Rightarrow> 'c \<times> (IoErr + nat) Poll) \<Rightarrow> ('c \<Rightarrow> 'c) \<Rightarrow> ('c \<Rightarrow> string \<Rightarrow> 'c)
     \<Rightarrow> wact list \<Rightarrow> 'c \<Rightarrow> 'c \<times> u8 list list" where
  "write_run wr turn fails [] c = (c, [])"
| "write_run wr turn fails (Write b # as) c =
     (case wr c b of (c', p) \<Rightarrow>
        (case write_run wr turn fails as c' of (c'', acc) \<Rightarrow>
           (c'', (case p of Ready (Inr _) \<Rightarrow> b # acc | _ \<Rightarrow> acc))))"
| "write_run wr turn fails (Turn # as) c = write_run wr turn fails as (turn c)"
| "write_run wr turn fails (WriteFails e # as) c = write_run wr turn fails as (fails c e)"

fun until_failure :: "wact list \<Rightarrow> u8 list list" where
  "until_failure [] = []"
| "until_failure (Write b # as) = b # until_failure as"
| "until_failure (Turn # as) = until_failure as"
| "until_failure (WriteFails e # as) = []"

text \<open>
  The contract of the write side: a write is answered at once, it is accepted whole and queued
  last, unless an earlier write has failed; the loop neither loses nor reorders writes.
\<close>

locale write_queue =
  fixes stream_of :: "'c \<Rightarrow> u8 list list"
    and inv :: "'c \<Rightarrow> bool"
    and failed :: "'c \<Rightarrow> bool"
    and wr :: "'c \<Rightarrow> u8 list \<Rightarrow> 'c \<times> (IoErr + nat) Poll"
    and turn :: "'c \<Rightarrow> 'c"
    and fails :: "'c \<Rightarrow> string \<Rightarrow> 'c"
  assumes wr_ok: "inv c \<Longrightarrow> \<not> failed c \<Longrightarrow> wr c b = (c', p) \<Longrightarrow>
      p = Ready (Inr (length b)) \<and> stream_of c' = stream_of c @ [b] \<and> inv c' \<and> \<not> failed c'"
    and wr_failed: "inv c \<Longrightarrow> failed c \<Longrightarrow> wr c b = (c', p) \<Longrightarrow> c' = c \<and> (\<exists>e. p = Ready (Inl e))"
    and turn_ok: "inv c \<Longrightarrow> stream_of (turn c) = stream_of c \<and> inv (turn c) \<and> failed (turn c) = failed c"
    and fails_ok: "inv c \<Longrightarrow> stream_of (fails c e) = stream_of c \<and> inv (fails c e) \<and> failed (fails c e)"
begin

lemma write_fifo:
  assumes "inv c" and "write_run wr turn fails as c = (c', accepted)"
  shows "stream_of c' = stream_of c @ accepted \<and> inv c'
    \<and> accepted = (if failed c then [] else until_failure as)"
  using assms
proof (induction as arbitrary: c accepted)
  case Nil
  then show ?case by simp
next
  case (Cons a as)
  show ?case
  proof (cases a)
    case (Write b)
    obtain d p where w: "wr c b = (d, p)" by fastforce
    obtain d' acc where "write_run wr turn fails as d = (d', acc)" by fastforce
    with Cons.prems(2) Write w have r: "write_run wr turn fails as d = (c', acc)"
      and acc: "accepted = (case p of Ready (Inr _) \<Rightarrow> b # acc | _ \<Rightarrow> acc)" by simp_all
    show ?thesis
    proof (cases "failed c")
      case True
      with wr_failed [OF Cons.prems(1) True w] Cons.IH [of d acc] Cons.prems(1) Write r acc
      show ?thesis by auto
    next
      case False
      with wr_ok [OF Cons.prems(1) False w] Cons.IH [of d acc] Cons.prems(1) Write r acc
      show ?thesis by auto
    qed
  next
    case Turn
    with turn_ok [OF Cons.prems(1)] Cons.IH [of "turn c" accepted] Cons.prems
    show ?thesis by simp
  next
    case (WriteFails e)
    with fails_ok [OF Cons.prems(1), of e] Cons.IH [of "fails c e" accepted] Cons.prems
    show ?thesis by simp
  qed
qed

end

interpretation server_writes: write_queue "\<lambda>c. write_stream (sv_inner c)" "\<lambda>c. write_ready (sv_inner c)"
  "\<lambda>c. writeError (sv_inner c)" server_poll_write "\<lambda>c. c\<lparr>sv_inner := evb_turn (sv_inner c)\<rparr>"
  "\<lambda>c e. c\<lparr>sv_inner := server_writeErr (sv_inner c) e\<rparr>"
  by unfold_locales
    (auto simp: server_poll_write_def server_connection_write_def write_ready_def write_stream_def
      evb_turn_def tr_do_def server_writeErr_def split: list.splits)

interpretation client_writes: write_queue "\<lambda>c. write_stream (cl_inner c)" "\<lambda>c. write_ready (cl_inner c)"
  "\<lambda>c. writeError (cl_inner c)" client_poll_write "\<lambda>c. c\<lparr>cl_inner := evb_turn (cl_inner c)\<rparr>"
  "\<lambda>c e. c\<lparr>cl_inner := client_writeErr (cl_inner c) e\<rparr>"
  by unfold_locales
    (auto simp: client_poll_write_def server_connection_write_def write_ready_def write_stream_def
      evb_turn_def tr_do_def server_writeErr_def split: list.splits)

text \<open>Closing an open connection hands every queued write to the transport before the close.\<close>

lemma close_flushes:
  assumes "transport conn = Some calls" and "good calls" and "evb_thread conn"
    and "server_connection_close good conn = (conn', r)"
  shows "transport conn' = Some (calls @ map TrWriteChain (evb_tasks conn) @ [TrClose])
    \<and> evb_tasks conn' = [] \<and> write_stream conn' = write_stream conn"
  using assms
  by (auto simp: server_connection_close_def tr_do_def run_tasks_def write_stream_def)

text \<open>Without a thread the event base makes no further step.\<close>

lemma evb_turn_stopped: "\<not> evb_thread conn \<Longrightarrow> evb_turn conn = conn"
  by (simp add: evb_turn_def split: list.splits)

lemma evb_turns_stopped: "\<not> evb_thread conn \<Longrightarrow> (evb_turn ^^ n) conn = conn"
  by (induction n) (simp_all add: evb_turn_stopped)

section \<open>A concrete instance\<close>

definition sample_server :: ServerConnection where
  "sample_server = \<lparr>sv_inner = server_deliver block_queue sample_connection [1, 2, 3],
     sv_read_waker = \<lparr>rw_inner = 0\<rparr>\<rparr>"

definition sample_client_connection :: ClientConnection where
  "sample_client_connection = \<lparr>cl_inner = client_deliver block_queue sample_client [1, 2, 3],
     cl_read_waker = \<lparr>rw_inner = 0\<rparr>\<rparr>"

definition empty_slots :: slot_store where
  "empty_slots = (\<lambda>_. Slot None)"

text \<open>A transport is good until it is closed.\<close>

definition open_transport :: "tr_call list \<Rightarrow> bool" where
  "open_transport calls \<longleftrightarrow> TrClose \<notin> set calls \<and> TrCloseNow \<notin> set calls"

lemma open_transport_closed: "closed_not_good open_transport"
  by (auto simp: closed_not_good_def open_transport_def)

lemma sample_server_ready:
  "readable (sv_inner sample_server)" "content (sv_inner sample_server) = [1, 2, 3]"
  "slot_ok empty_slots (sv_read_waker sample_server)"
  using block.srv.deliver_inv [OF sample_readable(1), of "[1, 2, 3]"]
    block.srv.deliver_content [OF sample_readable(1), of "[1, 2, 3]"]
  by (simp_all add: sample_server_def empty_slots_def slot_ok_def)

lemma sample_client_ready:
  "readable (cl_inner sample_client_connection)"
  "content (cl_inner sample_client_connection) = [1, 2, 3]"
  "slot_ok empty_slots (cl_read_waker sample_client_connection)"
  using block.cli.deliver_inv [OF sample_readable(3), of "[1, 2, 3]"]
    block.cli.deliver_content [OF sample_readable(3), of "[1, 2, 3]"]
  by (simp_all add: sample_client_connection_def empty_slots_def slot_ok_def del: client_stream_is_server)

lemma sample_server_fields [simp]:
  "transport (sv_inner sample_server) = Some []" "evb_thread (sv_inner sample_server)"
  "evb_tasks (sv_inner sample_server) = []" "handshakeComplete (sv_inner sample_server)"
  "\<not> writeError (sv_inner sample_server)"
  by (simp_all add: sample_server_def server_deliver_def server_commitRead_def
      server_getReadBuffer_def sample_connection_def)

section \<open>Properties\<close>

text \<open>C16. What \<open>poll_read\<close> of a server connection answers: it never waits when the mutex is free; with
  data and room it is ready and has advanced by as many bytes as fit, which are the oldest ones
  and leave the buffer; without data it is ready only at end of stream, and pending otherwise; and
  in every case the task's waker was registered first.\<close>

theorem server_poll_read_answer:
  assumes "iobuf_queue Q" and "readable (sv_inner self)" and "slot_ok h (sv_read_waker self)"
  shows "\<exists>r. server_poll_read ww Q h self waker buf = Returns r
    \<and> register ww h (sv_read_waker self) waker = Some (pr_store r)
    \<and> pr_poll r = read_answer (content (sv_inner self)) (readEof (sv_inner self)) (length buf)
    \<and> pr_advanced r = min (length (content (sv_inner self))) (length buf)
    \<and> take (pr_advanced r) (pr_slice r) = take (length buf) (content (sv_inner self))
    \<and> content (sv_inner (pr_self r)) = drop (length buf) (content (sv_inner self))
    \<and> sv_read_waker (pr_self r) = sv_read_waker self"
  by (rule iobuf_queue.server_poll_read_ok [OF assms])

theorem server_poll_read_answer_witness:
  "\<exists>r. server_poll_read (=) block_queue empty_slots sample_server (Waker 5 0) [0, 0] = Returns r
    \<and> pr_poll r = Ready (Inr ()) \<and> pr_advanced r = 2 \<and> take 2 (pr_slice r) = [1, 2]
    \<and> content (sv_inner (pr_self r)) = [3]"
proof -
  from server_poll_read_answer [OF block.iobuf_queue_axioms sample_server_ready(1,3),
      of "(=)" "Waker 5 0" "[0, 0]"]
  obtain r where "server_poll_read (=) block_queue empty_slots sample_server (Waker 5 0) [0, 0] = Returns r"
    "pr_poll r = read_answer [1, 2, 3] (readEof (sv_inner sample_server)) 2" "pr_advanced r = 2"
    "take (pr_advanced r) (pr_slice r) = [1, 2]" "content (sv_inner (pr_self r)) = [3]"
    by (auto simp: sample_server_ready(2) numeral_2_eq_2)
  then show ?thesis by (auto simp: read_answer_def)
qed

text \<open>The same for a client connection.\<close>

theorem client_poll_read_answer:
  assumes "iobuf_queue Q" and "readable (cl_inner self)" and "slot_ok h (cl_read_waker self)"
  shows "\<exists>r. client_poll_read ww Q h self waker buf = Returns r
    \<and> register ww h (cl_read_waker self) waker = Some (pr_store r)
    \<and> pr_poll r = read_answer (content (cl_inner self)) (readEof (cl_inner self)) (length buf)
    \<and> pr_advanced r = min (length (content (cl_inner self))) (length buf)
    \<and> take (pr_advanced r) (pr_slice r) = take (length buf) (content (cl_inner self))
    \<and> content (cl_inner (pr_self r)) = drop (length buf) (content (cl_inner self))
    \<and> cl_read_waker (pr_self r) = cl_read_waker self"
  by (rule iobuf_queue.client_poll_read_ok [OF assms])

theorem client_poll_read_answer_witness:
  "\<exists>r. client_poll_read (=) block_queue empty_slots sample_client_connection (Waker 5 0) [0, 0] = Returns r
    \<and> pr_advanced r = 2 \<and> take 2 (pr_slice r) = [1, 2] \<and> content (cl_inner (pr_self r)) = [3]"
proof -
  from client_poll_read_answer [OF block.iobuf_queue_axioms sample_client_ready(1,3),
      of "(=)" "Waker 5 0" "[0, 0]"]
  obtain r where "client_poll_read (=) block_queue empty_slots sample_client_connection (Waker 5 0) [0, 0]
      = Returns r" "pr_advanced r = 2" "take (pr_advanced r) (pr_slice r) = [1, 2]"
    "content (cl_inner (pr_self r)) = [3]"
    by (auto simp: sample_client_ready(2) numeral_2_eq_2)
  then show ?thesis by auto
qed

text \<open>A poll with an empty buffer while data is available answers \<open>Pending\<close>, although nothing is
  awaited: no wake-up follows from data that is already there.\<close>

theorem empty_poll_is_pending:
  assumes "iobuf_queue Q" and "readable (sv_inner self)" and "slot_ok h (sv_read_waker self)"
    and "content (sv_inner self) \<noteq> []"
  shows "\<exists>r. server_poll_read ww Q h self waker [] = Returns r \<and> pr_poll r = Pending
    \<and> content (sv_inner (pr_self r)) = content (sv_inner self)"
  using iobuf_queue.server_poll_read_ok [OF assms(1-3), of ww waker "[]"] assms(4)
  by (auto simp: read_answer_def)

theorem empty_poll_is_pending_witness:
  "\<exists>r. server_poll_read (=) block_queue empty_slots sample_server (Waker 5 0) [] = Returns r
    \<and> pr_poll r = Pending"
  using empty_poll_is_pending [OF block.iobuf_queue_axioms sample_server_ready(1,3),
      of "(=)" "Waker 5 0"] by (auto simp: sample_server_ready(2) numeral_2_eq_2)

text \<open>C17. Writes of a server connection: over any sequence of \<open>poll_write\<close>s, turns of the event base
  and failed writes, every write up to the first failure is accepted whole and at once, none after
  it, and what the transport got followed by what is queued are the accepted writes in order.\<close>

theorem server_writes_in_order:
  assumes "write_ready (sv_inner self)"
    and "write_run server_poll_write (\<lambda>c. c\<lparr>sv_inner := evb_turn (sv_inner c)\<rparr>)
      (\<lambda>c e. c\<lparr>sv_inner := server_writeErr (sv_inner c) e\<rparr>) as self = (self', accepted)"
  shows "write_stream (sv_inner self') = write_stream (sv_inner self) @ accepted
    \<and> accepted = (if writeError (sv_inner self) then [] else until_failure as)"
  using server_writes.write_fifo [OF assms] by blast

theorem server_writes_in_order_witness:
  "let (c, accepted) = write_run server_poll_write (\<lambda>c. c\<lparr>sv_inner := evb_turn (sv_inner c)\<rparr>)
      (\<lambda>c e. c\<lparr>sv_inner := server_writeErr (sv_inner c) e\<rparr>)
      [Write [1], Turn, Write [2], WriteFails ''reset'', Write [3]] sample_server
   in write_stream (sv_inner c) = [[1], [2]] \<and> accepted = [[1], [2]]"
proof -
  obtain c acc where run: "write_run server_poll_write (\<lambda>c. c\<lparr>sv_inner := evb_turn (sv_inner c)\<rparr>)
      (\<lambda>c e. c\<lparr>sv_inner := server_writeErr (sv_inner c) e\<rparr>)
      [Write [1], Turn, Write [2], WriteFails ''reset'', Write [3]] sample_server = (c, acc)"
    by fastforce
  from server_writes_in_order [OF _ this] run show ?thesis
    by (simp add: write_ready_def write_stream_def)
qed

text \<open>Closing returns and is idempotent: on a connection whose event-base thread runs while its
  transport is open, \<open>close\<close> never waits forever, leaves the connection not open, and a second
  \<open>close\<close>, such as the one in \<open>drop\<close>, changes nothing.\<close>

theorem close_returns_and_is_idempotent:
  assumes "closed_not_good good" and "close_inv good (cl_inner self)"
  shows "\<exists>self'. ClientConnection_close good self = (self', Returns ())
    \<and> \<not> ClientConnection_is_open good self' \<and> ClientConnection_drop good self' = (self', Returns ())"
proof -
  from server_connection_close_Returns [OF assms(2,1)] obtain conn' where
    c: "server_connection_close good (cl_inner self) = (conn', Returns ())"
    and o: "\<not> server_connection_is_open good conn'" by blast
  from server_connection_close_idem [OF assms(1) c] c o show ?thesis
    by (simp add: ClientConnection_close_def ClientConnection_is_open_def ClientConnection_drop_def)
qed

theorem close_returns_and_is_idempotent_witness:
  "\<exists>c. ClientConnection_close open_transport sample_client_connection = (c, Returns ())
    \<and> \<not> ClientConnection_is_open open_transport c
    \<and> ClientConnection_drop open_transport c = (c, Returns ())"
  by (rule close_returns_and_is_idempotent [OF open_transport_closed])
    (simp add: close_inv_def sample_client_connection_def server_deliver_def server_commitRead_def
      server_getReadBuffer_def sample_client_def sample_connection_def
      FizzServerConnection.defs FizzClientConnection.defs)

text \<open>\<open>poll_shutdown\<close> of an open server connection is ready at once and hands every write that was
  accepted before it to the transport, in order, before the close.\<close>

theorem shutdown_flushes_writes:
  assumes "transport (sv_inner self) = Some calls" and "good calls" and "evb_thread (sv_inner self)"
  shows "\<exists>self'. server_poll_shutdown good self = (self', Returns (Ready (Inr ())))
    \<and> transport (sv_inner self') = Some (calls @ map TrWriteChain (evb_tasks (sv_inner self)) @ [TrClose])
    \<and> evb_tasks (sv_inner self') = []"
proof -
  obtain conn' where c: "server_connection_close good (sv_inner self) = (conn', Returns ())"
    using assms by (auto simp: server_connection_close_def tr_do_def run_tasks_def)
  from close_flushes [OF assms c] c show ?thesis
    by (simp add: server_poll_shutdown_def server_poll_flush_def ServerConnection_close_def)
qed

theorem shutdown_flushes_writes_witness:
  "\<exists>c. server_poll_shutdown open_transport (fst (server_poll_write sample_server [9])) =
      (c, Returns (Ready (Inr ())))
    \<and> transport (sv_inner c) = Some [TrWriteChain [9], TrClose]"
  using shutdown_flushes_writes [of "fst (server_poll_write sample_server [9])" "[]" open_transport]
  by (auto simp: server_poll_write_def server_connection_write_def open_transport_def)

text \<open>C40. A write after the connection was closed from this side is still reported as done, but it never reaches a
  usable transport: no turn of the event base takes it up, and the drain of the destructor, which does, hands it to
  a transport that is closed by then.\<close>

theorem write_after_close_is_lost:
  assumes "write_ready (sv_inner self)" and "\<not> writeError (sv_inner self)" and "closed_not_good good"
    and "ServerConnection_close good self = (closed, Returns ())"
  shows "\<exists>self' calls. server_poll_write closed buf = (self', Ready (Inr (length buf)))
    \<and> transport ((evb_turn ^^ n) (sv_inner self')) = Some calls \<and> \<not> good calls
    \<and> transport (last (server_destructor ((evb_turn ^^ n) (sv_inner self')))) =
        Some (calls @ map TrWriteChain (evb_tasks (sv_inner closed) @ [buf]))"
proof -
  obtain calls where c: "write_ready (sv_inner closed)" "\<not> writeError (sv_inner closed)"
    "\<not> evb_thread (sv_inner closed)" "transport (sv_inner closed) = Some calls" "\<not> good calls"
    using assms
    by (auto simp: ServerConnection_close_def server_connection_close_def write_ready_def tr_do_def
        run_tasks_def closed_not_good_def split: option.splits if_splits)
  let ?s = "closed\<lparr>sv_inner := (sv_inner closed)\<lparr>evb_tasks := evb_tasks (sv_inner closed) @ [buf]\<rparr>\<rparr>"
  have "server_poll_write closed buf = (?s, Ready (Inr (length buf)))"
    using c by (simp add: server_poll_write_def server_connection_write_def write_ready_def)
  moreover have "(evb_turn ^^ n) (sv_inner ?s) = sv_inner ?s"
    using c(3) by (intro evb_turns_stopped) simp
  ultimately show ?thesis using c(3-5)
    by (intro exI [of _ ?s] exI [of _ calls]) (simp add: server_destructor_def run_tasks_def Let_def)
qed

theorem write_after_close_is_lost_witness:
  "\<exists>self' calls. server_poll_write (fst (ServerConnection_close open_transport sample_server)) [9] =
      (self', Ready (Inr (length [9 :: u8])))
    \<and> transport ((evb_turn ^^ 3) (sv_inner self')) = Some calls \<and> \<not> open_transport calls
    \<and> transport (last (server_destructor ((evb_turn ^^ 3) (sv_inner self')))) =
        Some (calls @ map TrWriteChain
          (evb_tasks (sv_inner (fst (ServerConnection_close open_transport sample_server))) @ [[9]]))"
  by (rule write_after_close_is_lost [where self = sample_server and good = open_transport])
    (simp_all add: write_ready_def ServerConnection_close_def server_connection_close_def
      open_transport_def tr_do_def run_tasks_def closed_not_good_def)

end
