(* ===== verification/Fizz_Handshake.thy ===== *)
theory Fizz_Handshake
  imports Fizz_Context Fizz_Poll
begin

text \<open>
  The TLS handshake as the code drives it: the check of the peer's delegated credential, the
  handshake callbacks and the asynchronous and blocking handshake functions of
  \<open>src/src/ffi/client_tls_ffi.cpp\<close> and \<open>src/src/ffi/server_tls_ffi.cpp\<close>. What fizz reports when
  the protocol ends is an event; the code's answer to each event is a function of the
  connection.
\<close>

section \<open>What fizz reports\<close>

text \<open>The server's certificate: an ordinary one, or a delegated credential under its leaf.\<close>

datatype 'x server_cert = PlainCert | PeerDelegatedCredential 'x fizz_credential

datatype 'x handshake_event =
    HandshakeSuccess "'x server_cert option"
  | HandshakeError string
  | AttemptFallback

section \<open>The client's check of the delegated credential\<close>

text \<open>
  \<open>Inr\<close> is the returned string, empty for a match; \<open>Inl\<close> an exception of the library. The
  seconds of the expiry are \<open>duration_cast\<close> of a time point.
\<close>

definition verifyVerificationInfoAgainstPeerDelegatedCredential ::
  "('x, 'k, 't, 's, 'p, 'd) tls_crypto \<Rightarrow> FizzClientConnection \<Rightarrow> 'x \<Rightarrow> fizz_credential
     \<Rightarrow> string + string" where
  "verifyVerificationInfoAgainstPeerDelegatedCredential K conn leafX509 dc =
     (if bytes_to_hex_lower (fz_public_key dc) \<noteq> expectedPublicKeyDerHex conn
      then Inr ''delegated credential public key does not match VerificationInfo''
      else if fz_valid_time dc \<noteq> expectedValidTime conn
      then Inr ''delegated credential valid_time does not match VerificationInfo''
      else if fz_expected_verify_scheme dc \<noteq> expectedVerifyScheme conn
      then Inr ''delegated credential verify scheme does not match VerificationInfo''
      else and_then (getCredentialExpiresTime K leafX509 dc) (\<lambda>expTp.
        let wireExpiresSec = of_nat (ticks expTp div hz expTp) :: u64
        in if wireExpiresSec \<noteq> expectedExpiresAt conn
           then Inr ''delegated credential expiry does not match VerificationInfo''
           else Inr []))"

section \<open>Client callbacks\<close>

text \<open>The part of \<open>fizzHandshakeSuccess\<close> under \<open>try\<close>: the connection afterwards and the error text.\<close>

definition client_verify_peer ::
  "('x, 'k, 't, 's, 'p, 'd) tls_crypto \<Rightarrow> FizzClientConnection \<Rightarrow> 'x server_cert option
     \<Rightarrow> FizzClientConnection \<times> string" where
  "client_verify_peer K conn serverCert =
     (case serverCert of
        None \<Rightarrow> (conn, ''No server certificate after handshake'')
      | Some cert \<Rightarrow>
          (let accept = ((tr_do TrSetReadCB
                 (conn\<lparr>peerCertPem := ''[Certificate extracted successfully]''\<rparr>))
                   \<lparr>handshakeComplete := True\<rparr>, [])
           in if dcEnabled conn then
                (case cert of
                   PlainCert \<Rightarrow>
                     (conn, ''Server did not present a delegated credential certificate'')
                 | PeerDelegatedCredential leafX509 dc \<Rightarrow>
                     (case verifyVerificationInfoAgainstPeerDelegatedCredential K conn leafX509 dc of
                        Inl what \<Rightarrow> (conn, ''Failed to verify peer certificate: '' @ what)
                      | Inr mismatch \<Rightarrow>
                          if mismatch \<noteq> [] then (tr_do TrCloseNow conn, mismatch) else accept))
              else accept))"

definition client_handshake_callback ::
  "('x, 'k, 't, 's, 'p, 'd) tls_crypto \<Rightarrow> FizzClientConnection \<Rightarrow> IoContext
     \<Rightarrow> 'x handshake_event \<Rightarrow> FizzClientConnection \<times> IoContext" where
  "client_handshake_callback K conn context event =
     (case event of
        HandshakeSuccess serverCert \<Rightarrow>
          (let (conn', error) = client_verify_peer K conn serverCert
           in (conn', handle_io_result context 0 error))
      | HandshakeError what \<Rightarrow>
          (conn\<lparr>errorMessage := what\<rparr>, handle_io_result context 0 what)
      | AttemptFallback \<Rightarrow> (conn, context))"

text \<open>
  The callback of the blocking variant stores the error text instead of sending it. fizz never
  reports a version fallback to a client.
\<close>

definition client_handshake_callback_blocking ::
  "('x, 'k, 't, 's, 'p, 'd) tls_crypto \<Rightarrow> FizzClientConnection \<Rightarrow> 'x handshake_event
     \<Rightarrow> FizzClientConnection" where
  "client_handshake_callback_blocking K conn event =
     (case event of
        HandshakeSuccess serverCert \<Rightarrow>
          (let (conn', error) = client_verify_peer K conn serverCert
           in if error = [] then conn' else conn'\<lparr>errorMessage := error\<rparr>)
      | HandshakeError what \<Rightarrow> conn\<lparr>errorMessage := what\<rparr>
      | AttemptFallback \<Rightarrow> conn)"

section \<open>Server callbacks\<close>

definition server_handshake_callback ::
  "FizzServerConnection \<Rightarrow> IoContext \<Rightarrow> 'x handshake_event \<Rightarrow> FizzServerConnection \<times> IoContext" where
  "server_handshake_callback conn context event =
     (case event of
        HandshakeSuccess _ \<Rightarrow>
          (tr_do TrSetReadCB (conn\<lparr>handshakeComplete := True\<rparr>), handle_io_result context 0 [])
      | HandshakeError what \<Rightarrow>
          (conn\<lparr>errorMessage := what\<rparr>, handle_io_result context 0 what)
      | AttemptFallback \<Rightarrow>
          (conn\<lparr>errorMessage := ''Version fallback attempted''\<rparr>,
           handle_io_result context 0 ''Version fallback attempted''))"

definition server_handshake_callback_blocking ::
  "FizzServerConnection \<Rightarrow> 'x handshake_event \<Rightarrow> FizzServerConnection" where
  "server_handshake_callback_blocking conn event =
     (case event of
        HandshakeSuccess _ \<Rightarrow> tr_do TrSetReadCB (conn\<lparr>handshakeComplete := True\<rparr>)
      | HandshakeError what \<Rightarrow> conn\<lparr>errorMessage := what\<rparr>
      | AttemptFallback \<Rightarrow>
          conn\<lparr>errorMessage := ''Version fallback attempted'', handshakeComplete := True\<rparr>)"

section \<open>Starting the handshake\<close>

text \<open>
  The call on the transport runs on the event-base thread and is waited for, so it needs that
  thread. The client takes the server name out of \<open>peerCertPem\<close>, where \<open>client_connect\<close> put it.
\<close>

definition client_start ::
  "FizzClientConnection \<Rightarrow> FizzClientConnection \<times> unit call" where
  "client_start conn =
     (let sniHostname = peerCertPem conn;
          conn' = conn\<lparr>peerCertPem := []\<rparr>;
          sni = (if sniHostname = [] then None else Some sniHostname)
      in if evb_thread conn' then (tr_do (TrConnect sni) conn', Returns ()) else (conn', Blocks))"

definition client_connection_handshake_async ::
  "FizzClientConnection \<Rightarrow> FizzClientConnection \<times> unit call" where
  "client_connection_handshake_async conn =
     (if transport conn = None then (conn, Throws ''No transport available'')
      else client_start conn)"

definition server_connection_handshake_async ::
  "FizzServerConnection \<Rightarrow> FizzServerConnection \<times> unit call" where
  "server_connection_handshake_async conn =
     (if transport conn = None then (conn, Throws ''No transport available'')
      else if evb_thread conn then (tr_do TrAccept conn, Returns ()) else (conn, Blocks))"

section \<open>The blocking variants\<close>

text \<open>
  The waiting loop: each sample is the pair \<open>(handshakeComplete, errorMessage)\<close> one iteration
  reads, a millisecond apart, until 120 seconds have passed; so the samples are finitely many
  and their end is the timeout. Returned is the sample that ended the loop.
\<close>

fun wait_handshake :: "(bool \<times> string) list \<Rightarrow> string + bool \<times> string" where
  "wait_handshake [] = Inl ''Handshake timed out after 120 seconds''"
| "wait_handshake ((complete, error) # samples) =
     (if \<not> complete \<and> error = [] then wait_handshake samples else Inr (complete, error))"

definition finish_handshake :: "string + bool \<times> string \<Rightarrow> string + unit" where
  "finish_handshake r =
     and_then r (\<lambda>(complete, error).
       if error \<noteq> [] then Inl (''Handshake failed: '' @ error)
       else if \<not> complete then Inl ''Handshake did not complete''
       else Inr ())"

text \<open>
  The connection after the event of the handshake, if one came; what the loop samples before
  that is the state the handshake started with.
\<close>

definition samples_of :: "'a FizzServerConnection_scheme \<Rightarrow> 'a FizzServerConnection_scheme option
    \<Rightarrow> nat \<Rightarrow> (bool \<times> string) list" where
  "samples_of before after n =
     replicate n (handshakeComplete before, errorMessage before)
     @ (case after of None \<Rightarrow> [] | Some c \<Rightarrow> [(handshakeComplete c, errorMessage c)])"

definition client_connection_handshake ::
  "('x, 'k, 't, 's, 'p, 'd) tls_crypto \<Rightarrow> FizzClientConnection \<Rightarrow> nat \<Rightarrow> 'x handshake_event option
     \<Rightarrow> FizzClientConnection \<times> unit call" where
  "client_connection_handshake K conn n event =
     (if transport conn = None
      then (conn\<lparr>handshakeComplete := False\<rparr>,
            Throws ''Client handshake failed: No transport available'')
      else case client_start conn of
        (started, Returns _) \<Rightarrow>
          (let after = map_option (client_handshake_callback_blocking K started) event;
               final = (case after of None \<Rightarrow> started | Some c \<Rightarrow> c)
           in case finish_handshake (wait_handshake (samples_of started after n)) of
                Inl what \<Rightarrow> (final\<lparr>handshakeComplete := False\<rparr>,
                             Throws (''Client handshake failed: '' @ what))
              | Inr _ \<Rightarrow> (final, Returns ()))
      | (started, r) \<Rightarrow> (started, r))"

definition server_connection_handshake ::
  "FizzServerConnection \<Rightarrow> nat \<Rightarrow> 'x handshake_event option \<Rightarrow> FizzServerConnection \<times> unit call" where
  "server_connection_handshake conn n event =
     (if transport conn = None
      then (conn\<lparr>handshakeComplete := False\<rparr>,
            Throws ''Server handshake failed: No transport available'')
      else if \<not> evb_thread conn then (conn, Blocks)
      else
        (let started = tr_do TrAccept conn;
             after = map_option (server_handshake_callback_blocking started) event;
             final = (case after of None \<Rightarrow> started | Some c \<Rightarrow> c)
         in case finish_handshake (wait_handshake (samples_of started after n)) of
              Inl what \<Rightarrow> (final\<lparr>handshakeComplete := False\<rparr>,
                           Throws (''Server handshake failed: '' @ what))
            | Inr _ \<Rightarrow> (final, Returns ())))"

section \<open>Lemmas\<close>

text \<open>What a matching credential is: the four compared values.\<close>

definition credential_matches ::
  "('x, 'k, 't, 's, 'p, 'd) tls_crypto \<Rightarrow> FizzClientConnection \<Rightarrow> 'x \<Rightarrow> fizz_credential \<Rightarrow> bool" where
  "credential_matches K conn leaf dc \<longleftrightarrow>
     expectedPublicKeyDerHex conn = bytes_to_hex_lower (fz_public_key dc)
     \<and> expectedValidTime conn = fz_valid_time dc
     \<and> expectedVerifyScheme conn = fz_expected_verify_scheme dc
     \<and> (case getCredentialExpiresTime K leaf dc of
          Inl _ \<Rightarrow> False
        | Inr tp \<Rightarrow> expectedExpiresAt conn = of_nat (ticks tp div hz tp))"

lemma verify_info_iff:
  "verifyVerificationInfoAgainstPeerDelegatedCredential K conn leaf dc = Inr [] \<longleftrightarrow>
     credential_matches K conn leaf dc"
  by (auto simp: verifyVerificationInfoAgainstPeerDelegatedCredential_def credential_matches_def
      Let_def split: sum.splits)

text \<open>When the client lets a handshake through, and what it leaves behind.\<close>

definition peer_acceptable ::
  "('x, 'k, 't, 's, 'p, 'd) tls_crypto \<Rightarrow> FizzClientConnection \<Rightarrow> 'x server_cert option \<Rightarrow> bool" where
  "peer_acceptable K conn cert \<longleftrightarrow>
     (case cert of
        None \<Rightarrow> False
      | Some PlainCert \<Rightarrow> \<not> dcEnabled conn
      | Some (PeerDelegatedCredential leaf dc) \<Rightarrow> dcEnabled conn \<longrightarrow> credential_matches K conn leaf dc)"

lemma client_verify_peer_ok:
  assumes "peer_acceptable K conn cert"
  shows "client_verify_peer K conn cert =
    ((tr_do TrSetReadCB (conn\<lparr>peerCertPem := ''[Certificate extracted successfully]''\<rparr>))
       \<lparr>handshakeComplete := True\<rparr>, [])"
  using assms
  by (auto simp: client_verify_peer_def peer_acceptable_def verify_info_iff [symmetric] Let_def
      split: option.splits server_cert.splits)

lemma client_verify_peer_rejects:
  assumes "\<not> peer_acceptable K conn cert" and "client_verify_peer K conn cert = (conn', error)"
  shows "error \<noteq> [] \<and> handshakeComplete conn' = handshakeComplete conn
    \<and> (conn' = conn \<or> conn' = tr_do TrCloseNow conn)"
proof (cases cert)
  case None
  with assms show ?thesis by (auto simp: client_verify_peer_def)
next
  case (Some c)
  show ?thesis
  proof (cases c)
    case PlainCert
    with Some assms show ?thesis by (auto simp: client_verify_peer_def peer_acceptable_def)
  next
    case (PeerDelegatedCredential leaf dc)
    with Some assms(1) have dc: "dcEnabled conn"
      and ne: "verifyVerificationInfoAgainstPeerDelegatedCredential K conn leaf dc \<noteq> Inr []"
      by (simp_all add: peer_acceptable_def verify_info_iff)
    with Some PeerDelegatedCredential assms(2) show ?thesis
      by (cases "verifyVerificationInfoAgainstPeerDelegatedCredential K conn leaf dc")
        (auto simp: client_verify_peer_def Let_def tr_do_def split: if_splits)
  qed
qed

lemma wait_handshake_replicate:
  "wait_handshake (replicate n (False, []) @ s) = wait_handshake s"
  by (induction n) simp_all

section \<open>A concrete instance\<close>

text \<open>
  The library of the credentials with the calls of this layer: a descriptor always becomes a socket,
  every authority file loads, and a credential expires \<open>valid_time\<close> seconds after the start
  of the certificate, \<open>start\<close>.
\<close>

definition sample_tls :: "u32 \<Rightarrow> nat \<Rightarrow> (unit, unit, unit, unit, unit, unit) tls_crypto" where
  "sample_tls age start =
     dc_crypto.extend (sample_library age)
       (tls_crypto.fields (\<lambda>_. Inr (Some ())) (\<lambda>_ _. Inr ()) True (\<lambda>_. True) (\<lambda>_. Inr ())
         (\<lambda>_ dc. Inr \<lparr>ticks = start + unat (fz_valid_time dc), hz = 1\<rparr>))"

definition sample_peer :: fizz_credential where
  "sample_peer =
     \<lparr>fz_valid_time = 3700, fz_expected_verify_scheme = 0x0403, fz_public_key = [48, 89],
      fz_credential_scheme = 0x0403, fz_signature = [48, 69]\<rparr>"

definition expecting_client :: FizzClientConnection where
  "expecting_client = (blank_client 7)
     \<lparr>transport := Some [], evb_thread := True, expectedPublicKeyDerHex := bytes_to_hex_lower [48, 89],
      expectedValidTime := 3700, expectedVerifyScheme := 0x0403, expectedExpiresAt := 4600\<rparr>"

lemma sample_tls_expiry:
  "getCredentialExpiresTime (sample_tls age start) x dc =
     Inr \<lparr>ticks = start + unat (fz_valid_time dc), hz = 1\<rparr>"
  by (simp add: sample_tls_def dc_crypto.defs tls_crypto.defs)

lemma expecting_fields [simp]:
  "\<not> handshakeComplete expecting_client" "errorMessage expecting_client = []"
  "transport expecting_client = Some []" "evb_thread expecting_client" "dcEnabled expecting_client"
  by (simp_all add: expecting_client_def blank_client_def blank_connection_def
      FizzServerConnection.defs FizzClientConnection.defs)

lemma expecting_accepts:
  "peer_acceptable (sample_tls 100 900) expecting_client (Some (PeerDelegatedCredential () sample_peer))"
  by (simp add: peer_acceptable_def credential_matches_def sample_tls_expiry)
    (simp add: expecting_client_def sample_peer_def)

section \<open>Properties\<close>

text \<open>C9. The client completes a handshake exactly when the peer's certificate is acceptable: without
  delegated credentials any certificate is; with them it must be a delegated credential whose public
  key, validity, scheme and expiry in seconds are the four expected values. Otherwise an error
  text is sent and the handshake stays incomplete.\<close>

theorem client_completes_iff:
  assumes "\<not> handshakeComplete conn" and "io_sent context = []"
    and "client_handshake_callback K conn context (HandshakeSuccess cert) = (conn', context')"
  shows "handshakeComplete conn' = peer_acceptable K conn cert
    \<and> (receiver_await context' = Some (Inr 0)) = peer_acceptable K conn cert
    \<and> (\<not> peer_acceptable K conn cert \<longrightarrow> (\<exists>e. e \<noteq> [] \<and> receiver_await context' = Some (Inl e)))"
proof (cases "peer_acceptable K conn cert")
  case True
  with client_verify_peer_ok [OF True] assms show ?thesis
    by (auto simp: client_handshake_callback_def)
next
  case False
  obtain c e where v: "client_verify_peer K conn cert = (c, e)" by fastforce
  from client_verify_peer_rejects [OF False v] v assms False show ?thesis
    by (auto simp: client_handshake_callback_def)
qed

theorem client_completes_iff_witness:
  "let r = client_handshake_callback (sample_tls 100 900) expecting_client IoContext_new
       (HandshakeSuccess (Some (PeerDelegatedCredential () sample_peer)))
   in handshakeComplete (fst r) \<and> receiver_await (snd r) = Some (Inr 0)"
proof -
  obtain c x where r: "client_handshake_callback (sample_tls 100 900) expecting_client IoContext_new
       (HandshakeSuccess (Some (PeerDelegatedCredential () sample_peer))) = (c, x)" by fastforce
  from client_completes_iff [OF expecting_fields(1) _ r] expecting_accepts r show ?thesis
    by (simp add: IoContext_new_def)
qed

text \<open>C32. The blocking handshake of the client and the asynchronous one agree: for every event other
  than an error without text, the blocking call returns normally exactly when the callback of the
  asynchronous one sends success.\<close>

theorem blocking_agrees_with_async:
  assumes "\<not> handshakeComplete conn" and "errorMessage conn = []" and "transport conn \<noteq> None"
    and "evb_thread conn" and "event \<noteq> HandshakeError []"
  shows "(\<exists>c. client_connection_handshake K conn n (Some event) = (c, Returns ())) \<longleftrightarrow>
    receiver_await (snd (client_handshake_callback K (fst (client_connection_handshake_async conn))
      IoContext_new event)) = Some (Inr 0)"
proof -
  let ?s = "fst (client_connection_handshake_async conn)"
  have s: "client_start conn = (?s, Returns ())" "\<not> handshakeComplete ?s" "errorMessage ?s = []"
    using assms by (auto simp: client_connection_handshake_async_def client_start_def Let_def tr_do_def)
  let ?a = "client_handshake_callback_blocking K ?s event"
  have "(\<exists>c. client_connection_handshake K conn n (Some event) = (c, Returns ())) \<longleftrightarrow>
      handshakeComplete ?a \<and> errorMessage ?a = []"
    using assms(3) s
    by (auto simp: client_connection_handshake_def samples_of_def wait_handshake_replicate
        finish_handshake_def Let_def split: sum.splits if_splits)
  also have "\<dots> \<longleftrightarrow> receiver_await (snd (client_handshake_callback K ?s IoContext_new event)) = Some (Inr 0)"
  proof (cases event)
    case (HandshakeSuccess cert)
    obtain c e where v: "client_verify_peer K ?s cert = (c, e)" by fastforce
    show ?thesis
    proof (cases "peer_acceptable K ?s cert")
      case True
      with HandshakeSuccess s client_verify_peer_ok [OF True] show ?thesis
        by (simp add: client_handshake_callback_blocking_def client_handshake_callback_def tr_do_def
            IoContext_new_def)
    next
      case False
      with HandshakeSuccess s v client_verify_peer_rejects [OF False v] show ?thesis
        by (simp add: client_handshake_callback_blocking_def client_handshake_callback_def
            IoContext_new_def)
    qed
  qed (use s assms(5) in \<open>auto simp: client_handshake_callback_blocking_def
      client_handshake_callback_def IoContext_new_def receiver_await_def handle_io_result_def\<close>)
  finally show ?thesis .
qed

theorem blocking_agrees_with_async_witness:
  "(\<exists>c. client_connection_handshake (sample_tls 100 900) expecting_client 3
      (Some (HandshakeSuccess (Some PlainCert))) = (c, Returns ())) =
   (receiver_await (snd (client_handshake_callback (sample_tls 100 900)
      (fst (client_connection_handshake_async expecting_client)) IoContext_new
      (HandshakeSuccess (Some PlainCert)))) = Some (Inr 0))"
  by (rule blocking_agrees_with_async) simp_all

text \<open>A blocking handshake for which no event ever comes ends: after the last of its samples it throws
  the timeout and leaves the connection incomplete.\<close>

theorem blocking_handshake_times_out:
  assumes "\<not> handshakeComplete conn" and "errorMessage conn = []" and "transport conn \<noteq> None"
    and "evb_thread conn"
  shows "\<exists>c. server_connection_handshake conn n (None :: unit handshake_event option) =
      (c, Throws ''Server handshake failed: Handshake timed out after 120 seconds'')
    \<and> \<not> handshakeComplete c"
proof -
  have "wait_handshake (replicate n (False, [])) = Inl ''Handshake timed out after 120 seconds''"
    using wait_handshake_replicate [of n "[]"] by simp
  with assms show ?thesis
    by (simp add: server_connection_handshake_def samples_of_def finish_handshake_def tr_do_def Let_def)
qed

theorem blocking_handshake_times_out_witness:
  "\<exists>c. server_connection_handshake ((blank_connection 7)\<lparr>transport := Some [], evb_thread := True\<rparr>) 120000
       (None :: unit handshake_event option) =
      (c, Throws ''Server handshake failed: Handshake timed out after 120 seconds'')
    \<and> \<not> handshakeComplete c"
  by (rule blocking_handshake_times_out) (simp_all add: blank_connection_def)

end
