(* ===== verification/Fizz_Wake.thy ===== *)
theory Fizz_Wake
  imports Fizz_Poll
begin

text \<open>
  The two threads that share a connection's read state: the Tokio task that polls and the
  event-base thread that runs fizz's read callbacks. Their atomic steps are the critical sections
  of the code (the waker slot's mutex, \<open>read_mutex\<close>, single atomic stores) and may interleave in
  any order; memory is sequentially consistent. Shown: no byte is lost or reordered, end of
  stream is reported after the last byte only, and no wake-up is lost.
\<close>

section \<open>Phases\<close>

text \<open>
  \<open>Setup\<close>: the handshake is done but \<open>connect\<close> or \<open>accept_from_stream\<close> has not yet installed
  the waker. \<open>Registered n\<close>: inside \<open>poll_read\<close> with room for \<open>n\<close> bytes, between \<open>register\<close> and
  the check. \<open>Parked n\<close>: that poll returned \<open>Pending\<close>.
\<close>

datatype reader_phase = Setup | Running | Registered nat | Parked nat | AtEof

text \<open>
  The event-base thread between its critical sections: waiting for the socket, between
  \<open>getReadBuffer\<close> and its callback, before the wake of \<open>readDataAvailable\<close>, inside \<open>readEOF\<close> or
  \<open>readErr\<close>, and after either.
\<close>

datatype loop_phase =
  Waiting | Reading | Committed | EofStored | ErrReleased | Closing | ClosedNow | Finished

record 'a sys =
  sy_conn :: "'a FizzServerConnection_scheme"
  sy_store :: slot_store
  sy_handle :: ReadWaker
  sy_reader :: reader_phase
  sy_scheduled :: bool
  sy_loop :: loop_phase
  sy_received :: "u8 list"
  sy_sent :: "u8 list"

section \<open>The event-base thread inside a callback\<close>

text \<open>\<open>wakeReader\<close>: the executor schedules the task of the waker that was fired.\<close>

definition wake_step :: "nat \<Rightarrow> loop_phase \<Rightarrow> 'a sys \<Rightarrow> 'a sys option" where
  "wake_step t next s =
     (case server_wakeReader (sy_conn s) (sy_store s) of
        None \<Rightarrow> None
      | Some (h, w) \<Rightarrow>
          Some (s\<lparr>sy_store := h, sy_scheduled := (sy_scheduled s \<or> map_option wk_task w = Some t),
                  sy_loop := next\<rparr>))"

fun loop_next :: "nat \<Rightarrow> 'a sys \<Rightarrow> 'a sys option" where
  "loop_next t s =
     (case sy_loop s of
        Committed \<Rightarrow> wake_step t Waiting s
      | EofStored \<Rightarrow> Some (s\<lparr>sy_conn := server_releaseRead (sy_conn s), sy_loop := Closing\<rparr>)
      | ErrReleased \<Rightarrow> Some (s\<lparr>sy_conn := (sy_conn s)\<lparr>readEof := True\<rparr>, sy_loop := Closing\<rparr>)
      | Closing \<Rightarrow> Some (s\<lparr>sy_conn := tr_do TrCloseNow (sy_conn s), sy_loop := ClosedNow\<rparr>)
      | ClosedNow \<Rightarrow> wake_step t Finished s
      | _ \<Rightarrow> None)"

declare loop_next.simps [simp del]

fun loop_iter :: "nat \<Rightarrow> nat \<Rightarrow> 'a sys \<Rightarrow> 'a sys option" where
  "loop_iter t 0 s = Some s"
| "loop_iter t (Suc k) s = Option.bind (loop_next t s) (loop_iter t k)"

section \<open>Steps\<close>

definition start_eof :: "'a sys \<Rightarrow> 'a sys" where
  "start_eof s = s\<lparr>sy_conn := (sy_conn s)\<lparr>readEof := True\<rparr>, sy_loop := EofStored\<rparr>"

definition start_err :: "string \<Rightarrow> 'a sys \<Rightarrow> 'a sys" where
  "start_err what s =
     s\<lparr>sy_conn := server_releaseRead ((sy_conn s)\<lparr>errorMessage := what\<rparr>), sy_loop := ErrReleased\<rparr>"

text \<open>What \<open>poll_read\<close> does with the outcome of the read.\<close>

definition after_read :: "nat \<Rightarrow> ReadOutcome \<Rightarrow> reader_phase" where
  "after_read n out =
     (if ro_bytes_read out > 0 then Running else if ro_eof out then AtEof else Parked n)"

inductive sys_step ::
  "(Waker \<Rightarrow> Waker \<Rightarrow> bool) \<Rightarrow> iobq \<Rightarrow> nat \<Rightarrow> 'a sys \<Rightarrow> 'a sys \<Rightarrow> bool" for ww Q t where
  install: "sy_reader s = Setup \<Longrightarrow> ReadWaker_new (sy_store s) a = (h, rw) \<Longrightarrow>
    sys_step ww Q t s (s\<lparr>sy_store := h, sy_handle := rw,
      sy_conn := set_server_read_waker (sy_conn s) (clone_for_cpp rw), sy_reader := Running\<rparr>)"
| poll: "sy_reader s = Running \<or> sy_reader s = AtEof \<Longrightarrow> register ww (sy_store s) (sy_handle s) (Waker t i) = Some h \<Longrightarrow>
    sys_step ww Q t s (s\<lparr>sy_store := h, sy_reader := Registered n\<rparr>)"
| check: "sy_reader s = Registered n \<Longrightarrow>
    server_connection_read_or_status Q (sy_conn s) (replicate n 0) = (c, Returns (out, buf)) \<Longrightarrow>
    sys_step ww Q t s (s\<lparr>sy_conn := c, sy_reader := after_read n out,
      sy_received := sy_received s @ take (unat (ro_bytes_read out)) buf\<rparr>)"
| run: "sy_reader s = Parked n \<Longrightarrow> sy_scheduled s \<Longrightarrow>
    sys_step ww Q t s (s\<lparr>sy_reader := Running, sy_scheduled := False\<rparr>)"
| get_buffer: "sy_loop s = Waiting \<Longrightarrow> server_getReadBuffer (sy_conn s) = (c, Returns ()) \<Longrightarrow>
    sys_step ww Q t s (s\<lparr>sy_conn := c, sy_loop := Reading\<rparr>)"
| commit: "sy_loop s = Reading \<Longrightarrow> length (content (sy_conn s)) + length bs < 2 ^ 64 \<Longrightarrow>
    sys_step ww Q t s (s\<lparr>sy_conn := server_commitRead Q (sy_conn s) bs, sy_loop := Committed,
      sy_sent := sy_sent s @ bs\<rparr>)"
| eof: "sy_loop s = Waiting \<or> sy_loop s = Reading \<Longrightarrow> sys_step ww Q t s (start_eof s)"
| err: "sy_loop s = Waiting \<or> sy_loop s = Reading \<Longrightarrow> sys_step ww Q t s (start_err what s)"
| inside: "loop_next t s = Some s' \<Longrightarrow> sys_step ww Q t s s'"
| enqueue: "server_connection_write (sy_conn s) bs = (c, r) \<Longrightarrow> sys_step ww Q t s (s\<lparr>sy_conn := c\<rparr>)"
| turn: "sy_loop s = Waiting \<or> sy_loop s = Finished \<Longrightarrow>
    sys_step ww Q t s (s\<lparr>sy_conn := evb_turn (sy_conn s)\<rparr>)"

text \<open>A poll with room for \<open>buf\<close> would wait for \<open>read_mutex\<close>.\<close>

definition waits_for_mutex :: "iobq \<Rightarrow> 'a sys \<Rightarrow> u8 list \<Rightarrow> bool" where
  "waits_for_mutex Q s buf \<longleftrightarrow> snd (server_connection_read_or_status Q (sy_conn s) buf) = Blocks"

text \<open>A connection whose handshake has just completed, with nothing read yet.\<close>

definition sys_init :: "'a sys \<Rightarrow> bool" where
  "sys_init s \<longleftrightarrow>
     readable (sy_conn s) \<and> content (sy_conn s) = [] \<and> \<not> readEof (sy_conn s) \<and> read_waker (sy_conn s) = None
     \<and> sy_reader s = Setup \<and> \<not> sy_scheduled s \<and> sy_loop s = Waiting \<and> sy_received s = [] \<and> sy_sent s = []"

inductive sys_reach ::
  "(Waker \<Rightarrow> Waker \<Rightarrow> bool) \<Rightarrow> iobq \<Rightarrow> nat \<Rightarrow> 'a sys \<Rightarrow> bool" for ww Q t where
  init: "sys_init s \<Longrightarrow> sys_reach ww Q t s"
| step: "sys_reach ww Q t s \<Longrightarrow> sys_step ww Q t s s' \<Longrightarrow> sys_reach ww Q t s'"

section \<open>The phases compose to the functions of the code\<close>

lemma poll_read_phases:
  assumes "server_poll_read ww Q h self w (replicate n 0) = Returns r"
    and "pr_poll r = Ready (Inr ()) \<or> pr_poll r = Pending"
  shows "register ww h (sv_read_waker self) w = Some (pr_store r) \<and>
    (\<exists>out. server_connection_read_or_status Q (sv_inner self) (replicate n 0) =
        (sv_inner (pr_self r), Returns (out, pr_slice r))
      \<and> pr_advanced r = unat (ro_bytes_read out)
      \<and> (after_read n out = Parked n \<longleftrightarrow> pr_poll r = Pending))"
proof -
  obtain h' where reg: "register ww h (sv_read_waker self) w = Some h'"
    using assms(1) by (cases "register ww h (sv_read_waker self) w") (simp_all add: server_poll_read_def)
  obtain c o' where ros: "server_connection_read_or_status Q (sv_inner self) (replicate n 0) = (c, o')"
    by fastforce
  with assms reg obtain out b where "o' = Returns (out, b)"
    by (cases o') (auto simp: server_poll_read_def)
  with assms reg ros show ?thesis
    by (cases "ro_bytes_read out > 0"; cases "ro_eof out")
      (auto simp: server_poll_read_def after_read_def word_less_nat_alt)
qed

lemma commit_then_wake:
  "loop_next t (s\<lparr>sy_conn := server_commitRead Q (sy_conn s) bs, sy_loop := Committed\<rparr>) =
     map_option (\<lambda>(c, h, w). s\<lparr>sy_conn := c, sy_store := h,
         sy_scheduled := (sy_scheduled s \<or> map_option wk_task w = Some t), sy_loop := Waiting\<rparr>)
       (server_readDataAvailable Q (sy_conn s) (sy_store s) bs)"
  by (auto simp: loop_next.simps wake_step_def server_readDataAvailable_def Let_def split: option.splits)

lemma readEOF_phases:
  "loop_iter t 3 (start_eof s) =
     map_option (\<lambda>(c, h, w). s\<lparr>sy_conn := c, sy_store := h,
         sy_scheduled := (sy_scheduled s \<or> map_option wk_task w = Some t), sy_loop := Finished\<rparr>)
       (server_readEOF (sy_conn s) (sy_store s))"
  by (auto simp: numeral_3_eq_3 loop_next.simps wake_step_def start_eof_def server_readEOF_def Let_def
      split: option.splits)

lemma readErr_phases:
  "loop_iter t 3 (start_err what s) =
     map_option (\<lambda>(c, h, w). s\<lparr>sy_conn := c, sy_store := h,
         sy_scheduled := (sy_scheduled s \<or> map_option wk_task w = Some t), sy_loop := Finished\<rparr>)
       (server_readErr (sy_conn s) (sy_store s) what)"
  by (auto simp: numeral_3_eq_3 loop_next.simps wake_step_def start_err_def server_readErr_def Let_def
      split: option.splits)

text \<open>A connection with a completed handshake and a fresh waker is a state of the system.\<close>

lemma installed_reach:
  assumes "readable c" and "content c = []" and "\<not> readEof c" and "read_waker c = None"
  shows "sys_reach ww Q t
    \<lparr>sy_conn = set_server_read_waker c \<lparr>rw_inner = a\<rparr>, sy_store = h(a := Slot None),
     sy_handle = \<lparr>rw_inner = a\<rparr>, sy_reader = Running, sy_scheduled = False, sy_loop = Waiting,
     sy_received = [], sy_sent = []\<rparr>"
proof -
  let ?s = "\<lparr>sy_conn = c, sy_store = h, sy_handle = \<lparr>rw_inner = a\<rparr>, sy_reader = Setup,
    sy_scheduled = False, sy_loop = Waiting, sy_received = [], sy_sent = []\<rparr>"
  have "sys_reach ww Q t ?s"
    using assms by (intro sys_reach.init) (simp add: sys_init_def)
  from sys_reach.step [OF this sys_step.install [of ?s a "h(a := Slot None)" "\<lparr>rw_inner = a\<rparr>"]]
  show ?thesis by (simp add: ReadWaker_new_def clone_for_cpp_def)
qed

section \<open>Invariant\<close>

fun wake_coming :: "loop_phase \<Rightarrow> bool" where
  "wake_coming Waiting = False"
| "wake_coming Reading = False"
| "wake_coming ErrReleased = False"
| "wake_coming Finished = False"
| "wake_coming _ = True"

fun eof_phase :: "loop_phase \<Rightarrow> bool" where
  "eof_phase Waiting = False"
| "eof_phase Reading = False"
| "eof_phase Committed = False"
| "eof_phase ErrReleased = False"
| "eof_phase _ = True"

fun lock_phase :: "loop_phase \<Rightarrow> bool" where
  "lock_phase Reading = True"
| "lock_phase EofStored = True"
| "lock_phase _ = False"

text \<open>The read state: what the counters, the mutex and the ghost history say of each other.\<close>

definition data_inv :: "'a sys \<Rightarrow> bool" where
  "data_inv s \<longleftrightarrow>
     conn_inv (sy_conn s) \<and> write_ready (sy_conn s)
     \<and> (read_mutex (sy_conn s) \<longrightarrow> lock_phase (sy_loop s))
     \<and> (sy_loop s = Reading \<longrightarrow> read_mutex (sy_conn s))
     \<and> sy_received s @ content (sy_conn s) = sy_sent s
     \<and> readEof (sy_conn s) = eof_phase (sy_loop s)
     \<and> (sy_reader s = AtEof \<longrightarrow> content (sy_conn s) = [] \<and> readEof (sy_conn s))"

text \<open>The waker: where it is, and why a parked task will be run.\<close>

definition waker_inv :: "nat \<Rightarrow> 'a sys \<Rightarrow> bool" where
  "waker_inv t s \<longleftrightarrow>
     (if sy_reader s = Setup then read_waker (sy_conn s) = None
      else read_waker (sy_conn s) = Some (clone_for_cpp (sy_handle s))
        \<and> slot_ok (sy_store s) (sy_handle s))
     \<and> (\<forall>n. sy_reader s \<in> {Registered n, Parked n} \<longrightarrow>
          sy_scheduled s \<or> slot_task (sy_store s) (sy_handle s) = Some t)
     \<and> (\<forall>n. sy_reader s = Parked n \<longrightarrow> n > 0 \<longrightarrow> \<not> sy_scheduled s \<longrightarrow>
          wake_coming (sy_loop s) \<or> content (sy_conn s) = [] \<and> \<not> readEof (sy_conn s))"

lemma clone_inner [simp]: "rw_inner (clone_for_cpp rw) = rw_inner rw"
  by (simp add: clone_for_cpp_def)

text \<open>What each step leaves of the connection.\<close>

lemma content_updates [simp]:
  "content (c\<lparr>readEof := b\<rparr>) = content c" "content (c\<lparr>errorMessage := e\<rparr>) = content c"
  "content (c\<lparr>evb_tasks := q\<rparr>) = content c" "content (c\<lparr>read_mutex := m, pending_read := p\<rparr>) = content c"
  "content (server_releaseRead c) = content c" "content (tr_do x c) = content c"
  "content (evb_turn c) = content c" "content (set_server_read_waker c rw) = content c"
  by (simp_all add: content_def server_releaseRead_def tr_do_def evb_turn_def
      set_server_read_waker_def split: list.splits)

lemma releaseRead_fields [simp]:
  "conn_inv c \<Longrightarrow> \<not> read_mutex (server_releaseRead c)"
  "conn_inv c \<Longrightarrow> conn_inv (server_releaseRead c)"
  "readEof (server_releaseRead c) = readEof c" "read_waker (server_releaseRead c) = read_waker c"
  "write_ready (server_releaseRead c) = write_ready c"
  by (simp_all add: server_releaseRead_def conn_inv_def content_def write_ready_def)

lemma conn_inv_updates [simp]:
  "conn_inv (c\<lparr>readEof := b\<rparr>) = conn_inv c" "conn_inv (c\<lparr>errorMessage := e\<rparr>) = conn_inv c"
  "conn_inv (tr_do x c) = conn_inv c" "conn_inv (evb_turn c) = conn_inv c"
  "conn_inv (set_server_read_waker c rw) = conn_inv c" "conn_inv (c\<lparr>evb_tasks := q\<rparr>) = conn_inv c"
  by (simp_all add: conn_inv_def)
    (simp_all add: tr_do_def evb_turn_def set_server_read_waker_def content_def split: list.splits)

lemma write_ready_updates [simp]:
  "write_ready (c\<lparr>readEof := b\<rparr>) = write_ready c" "write_ready (c\<lparr>errorMessage := e\<rparr>) = write_ready c"
  "write_ready (tr_do x c) = write_ready c" "write_ready (evb_turn c) = write_ready c"
  "write_ready (set_server_read_waker c rw) = write_ready c"
  "write_ready (c\<lparr>evb_tasks := q\<rparr>) = write_ready c"
  "write_ready (server_commitRead Q c bs) = write_ready c"
  by (simp_all add: write_ready_def tr_do_def evb_turn_def set_server_read_waker_def
      server_commitRead_def split: list.splits)

lemma tr_do_fields [simp]:
  "readEof (tr_do x c) = readEof c" "read_waker (tr_do x c) = read_waker c"
  "read_mutex (tr_do x c) = read_mutex c"
  by (simp_all add: tr_do_def)

lemma evb_turn_fields [simp]:
  "readEof (evb_turn c) = readEof c" "read_waker (evb_turn c) = read_waker c"
  "read_mutex (evb_turn c) = read_mutex c"
  by (simp_all add: evb_turn_def split: list.splits)

lemma set_waker_fields [simp]:
  "readEof (set_server_read_waker c rw) = readEof c"
  "read_waker (set_server_read_waker c rw) = Some rw"
  "read_mutex (set_server_read_waker c rw) = read_mutex c"
  by (simp_all add: set_server_read_waker_def)

lemma commitRead_fields [simp]:
  "readEof (server_commitRead Q c bs) = readEof c" "read_waker (server_commitRead Q c bs) = read_waker c"
  "\<not> read_mutex (server_commitRead Q c bs)"
  by (simp_all add: server_commitRead_def)

lemma write_frame:
  "server_connection_write c bs = (c', r) \<Longrightarrow> \<exists>q. c' = c\<lparr>evb_tasks := q\<rparr>"
  by (auto simp: server_connection_write_def split: if_splits intro: exI [of _ "evb_tasks c"])

lemma getReadBuffer_frame:
  "server_getReadBuffer c = (c', Returns ()) \<Longrightarrow>
     \<not> read_mutex c \<and> c' = c\<lparr>read_mutex := True, pending_read := True\<rparr>"
  by (simp add: server_getReadBuffer_def split: if_splits)

lemma locked_fields [simp]:
  "conn_inv c \<Longrightarrow> conn_inv (c\<lparr>read_mutex := m, pending_read := m\<rparr>)"
  "write_ready (c\<lparr>read_mutex := m, pending_read := q\<rparr>) = write_ready c"
  by (simp_all add: conn_inv_def content_def write_ready_def)

lemma wake_step_frame:
  "wake_step t p s = Some s' \<Longrightarrow> \<exists>h b. s' = s\<lparr>sy_store := h, sy_scheduled := b, sy_loop := p\<rparr>"
  by (cases "server_wakeReader (sy_conn s) (sy_store s)") (auto simp: wake_step_def)

section \<open>The invariant is kept\<close>

locale reading = iobuf_queue Q for Q :: iobq +
  fixes ww :: "Waker \<Rightarrow> Waker \<Rightarrow> bool"
  assumes will_wake: "will_wake_sound ww"

sublocale reading \<subseteq> slot: wake_slot "\<lambda>h. register ww h rw"
  "\<lambda>h. wake_read_waker h (clone_for_cpp rw)" "\<lambda>h. slot_task h rw" "\<lambda>h. slot_ok h rw" for rw
  by (rule wake_slot_ReadWaker [OF will_wake])

context reading
begin

lemma data_inv_wake:
  assumes "wake_step t p s = Some s'" and "data_inv s"
    and "sy_loop s = Committed \<and> p = Waiting \<or> sy_loop s = ClosedNow \<and> p = Finished"
  shows "data_inv s'"
proof -
  from wake_step_frame [OF assms(1)] obtain h b
    where "s' = s\<lparr>sy_store := h, sy_scheduled := b, sy_loop := p\<rparr>" by blast
  with assms(2,3) show ?thesis unfolding data_inv_def by (elim disjE conjE) simp_all
qed

lemma data_inv_next:
  assumes "loop_next t s = Some s'" and "data_inv s"
  shows "data_inv s'"
proof (cases "sy_loop s")
  case Committed
  with assms data_inv_wake [of t Waiting s s'] show ?thesis by (simp add: loop_next.simps)
next
  case ClosedNow
  with assms data_inv_wake [of t Finished s s'] show ?thesis by (simp add: loop_next.simps)
qed (use assms in \<open>auto simp: loop_next.simps data_inv_def\<close>)

lemma data_inv_check:
  assumes "data_inv s" and "sy_reader s = Registered n"
    and r: "server_connection_read_or_status Q (sy_conn s) (replicate n 0) = (c, Returns (out, buf))"
  shows "data_inv (s\<lparr>sy_conn := c, sy_reader := after_read n out,
      sy_received := sy_received s @ take (unat (ro_bytes_read out)) buf\<rparr>)"
    and "after_read n out = Parked n \<Longrightarrow> n > 0 \<Longrightarrow> content c = [] \<and> \<not> readEof c"
    and "read_waker c = read_waker (sy_conn s)"
proof -
  have m: "\<not> read_mutex (sy_conn s)"
    using r by (auto simp: server_connection_read_or_status_def split: if_splits)
  with assms(1) have rd: "readable (sy_conn s)"
    by (simp add: data_inv_def readable_def write_ready_def)
  from read_or_status_ok [OF rd, of "replicate n 0"] r
  have frame: "c = (sy_conn s)\<lparr>readBufQueue := readBufQueue c, bytesRead := bytesRead c\<rparr>" by auto
  have fields: "readEof c = readEof (sy_conn s)" "read_waker c = read_waker (sy_conn s)"
    by (subst frame, simp)+
  show "read_waker c = read_waker (sy_conn s)" by (rule fields)
  from read_outcome [OF rd, of "replicate n 0"] r have
    n: "unat (ro_bytes_read out) = min (length (content (sy_conn s))) n"
    and pos: "(0 < ro_bytes_read out) = (content (sy_conn s) \<noteq> [] \<and> n \<noteq> 0)"
    and e: "ro_eof out = (content (sy_conn s) = [] \<and> readEof (sy_conn s))"
    and b: "buf = take n (content (sy_conn s)) @ drop (length (content (sy_conn s))) (replicate n 0)"
    and c: "content c = drop n (content (sy_conn s))" and rc: "readable c"
    by (auto simp del: drop_replicate)
  from n b have got: "take (unat (ro_bytes_read out)) buf = take n (content (sy_conn s))" by simp
  show "data_inv (s\<lparr>sy_conn := c, sy_reader := after_read n out,
      sy_received := sy_received s @ take (unat (ro_bytes_read out)) buf\<rparr>)"
    using assms(1) rc c fields pos e m unfolding got data_inv_def
    by (elim conjE) (simp add: after_read_def readable_def write_ready_def)
  show "after_read n out = Parked n \<Longrightarrow> n > 0 \<Longrightarrow> content c = [] \<and> \<not> readEof c"
    using pos e c fields by (auto simp: after_read_def split: if_splits)
qed

lemma data_inv_step:
  assumes "sys_step ww Q t s s'" and "data_inv s"
  shows "data_inv s'"
  using assms
proof (induction rule: sys_step.induct)
  case (check s n c out buf)
  then show ?case by (intro data_inv_check(1))
next
  case (get_buffer s c)
  with getReadBuffer_frame [OF get_buffer(2)] show ?case
    by (auto simp: data_inv_def)
next
  case (commit s bs)
  then have "conn_inv (server_commitRead Q (sy_conn s) bs)"
    by (intro conn_inv_commitRead) (simp_all add: data_inv_def)
  with commit show ?case
    by (auto simp: data_inv_def)
next
  case (inside s s')
  then show ?case by (rule data_inv_next)
next
  case (enqueue s bs c r)
  then obtain q where "c = (sy_conn s)\<lparr>evb_tasks := q\<rparr>" using write_frame by blast
  with enqueue show ?case unfolding data_inv_def by (elim conjE) simp
qed (auto simp: data_inv_def start_eof_def start_err_def)

text \<open>A wake always happens, and runs the task of every reader that has registered.\<close>

lemma wake_step_total:
  assumes "waker_inv t s"
  obtains s' where "wake_step t p s = Some s'"
    and "slot_ok (sy_store s) (sy_handle s) \<longrightarrow> slot_ok (sy_store s') (sy_handle s')"
    and "\<And>n. sy_reader s \<in> {Registered n, Parked n} \<Longrightarrow> sy_scheduled s'"
proof (cases "sy_reader s = Setup")
  case True
  with assms have "read_waker (sy_conn s) = None" by (simp add: waker_inv_def)
  with True show ?thesis by (intro that) (auto simp: wake_step_def server_wakeReader_def)
next
  case False
  with assms have w: "read_waker (sy_conn s) = Some (clone_for_cpp (sy_handle s))"
    and ok: "slot_ok (sy_store s) (sy_handle s)" by (simp_all add: waker_inv_def)
  from slot.fire_total [OF ok] obtain h x
    where f: "wake_read_waker (sy_store s) (clone_for_cpp (sy_handle s)) = Some (h, x)" by blast
  have x: "map_option wk_task x = slot_task (sy_store s) (sy_handle s)"
    by (rule slot.fire_task [OF ok f])
  let ?s' = "s\<lparr>sy_store := h, sy_loop := p,
    sy_scheduled := (sy_scheduled s \<or> map_option wk_task x = Some t)\<rparr>"
  show ?thesis
  proof (rule that [of ?s'])
    show "wake_step t p s = Some ?s'"
      using w f by (simp add: wake_step_def server_wakeReader_def)
    show "slot_ok (sy_store s) (sy_handle s) \<longrightarrow> slot_ok (sy_store ?s') (sy_handle ?s')"
      using slot.fire_ok [OF ok f] by simp
    show "sy_scheduled ?s'" if "sy_reader s \<in> {Registered n, Parked n}" for n
      using assms that unfolding waker_inv_def x by auto
  qed
qed

lemma waker_inv_wake:
  assumes "wake_step t p s = Some s'" and "waker_inv t s"
  shows "waker_inv t s'"
proof -
  obtain h b where s': "s' = s\<lparr>sy_store := h, sy_scheduled := b, sy_loop := p\<rparr>"
    using wake_step_frame [OF assms(1)] by blast
  from wake_step_total [OF assms(2), of p] assms(1)
  have "slot_ok (sy_store s) (sy_handle s) \<longrightarrow> slot_ok h (sy_handle s)"
    and "\<And>n. sy_reader s \<in> {Registered n, Parked n} \<Longrightarrow> b"
    unfolding s' by auto
  with assms(2) show ?thesis
    unfolding s' waker_inv_def by (elim conjE) (auto split: if_splits)
qed

lemma waker_inv_next:
  assumes "loop_next t s = Some s'" and "waker_inv t s" and "data_inv s"
  shows "waker_inv t s'"
proof (cases "sy_loop s")
  case Committed
  with assms waker_inv_wake [of t Waiting s s'] show ?thesis by (simp add: loop_next.simps)
next
  case ClosedNow
  with assms waker_inv_wake [of t Finished s s'] show ?thesis by (simp add: loop_next.simps)
qed (use assms in \<open>auto simp: loop_next.simps waker_inv_def split: if_splits\<close>)

lemma waker_inv_step:
  assumes "sys_step ww Q t s s'" and "waker_inv t s" and "data_inv s"
  shows "waker_inv t s'"
  using assms
proof (induction rule: sys_step.induct)
  case (install s a h rw)
  then show ?case by (auto simp: waker_inv_def ReadWaker_new_def slot_ok_def)
next
  case (poll s i h n)
  then have ok: "slot_ok (sy_store s) (sy_handle s)" by (auto simp: waker_inv_def)
  from slot.reg_task [OF ok poll(2)] slot.reg_ok [OF ok poll(2)] poll
  show ?case by (auto simp: waker_inv_def)
next
  case (check s n c out buf)
  from data_inv_check(2,3) [OF check(4,1,2)] check show ?case
    by (auto simp: waker_inv_def after_read_def split: if_splits)
next
  case (get_buffer s c)
  with getReadBuffer_frame [OF get_buffer(2)] show ?case
    by (auto simp: waker_inv_def split: if_splits)
next
  case (inside s s')
  then show ?case by (rule waker_inv_next)
next
  case (enqueue s bs c r)
  then obtain q where "c = (sy_conn s)\<lparr>evb_tasks := q\<rparr>" using write_frame by blast
  with enqueue show ?case by (simp add: waker_inv_def split: if_splits)
qed (auto simp: waker_inv_def start_eof_def start_err_def split: if_splits)

theorem reach_inv: "sys_reach ww Q t s \<Longrightarrow> data_inv s \<and> waker_inv t s"
proof (induction rule: sys_reach.induct)
  case (init s)
  then show ?case
    by (auto simp: sys_init_def data_inv_def waker_inv_def readable_def write_ready_def)
next
  case (step s s')
  then show ?case using data_inv_step waker_inv_step by blast
qed

section \<open>No lost wake-up\<close>

lemma closing_wakes:
  assumes "waker_inv t s" and "data_inv s" and "sy_reader s = Parked n"
  shows "sy_loop s = ClosedNow \<Longrightarrow> \<exists>s'. loop_iter t 1 s = Some s' \<and> sy_scheduled s'"
    and "sy_loop s = Closing \<Longrightarrow> \<exists>s'. loop_iter t 2 s = Some s' \<and> sy_scheduled s'"
    and "sy_loop s = EofStored \<Longrightarrow> \<exists>s'. loop_iter t 3 s = Some s' \<and> sy_scheduled s'"
proof -
  have now: "\<exists>s'. loop_iter t 1 u = Some s' \<and> sy_scheduled s'"
    if "waker_inv t u" "sy_loop u = ClosedNow" "sy_reader u = Parked n" for u :: "'a sys"
    using wake_step_total [OF that(1), of Finished] that(2,3) by (force simp: loop_next.simps)
  have closing: "\<exists>s'. loop_iter t 2 u = Some s' \<and> sy_scheduled s'"
    if "waker_inv t u" "data_inv u" "sy_loop u = Closing" "sy_reader u = Parked n" for u :: "'a sys"
  proof -
    let ?v = "u\<lparr>sy_conn := tr_do TrCloseNow (sy_conn u), sy_loop := ClosedNow\<rparr>"
    have n: "loop_next t u = Some ?v" using that by (simp add: loop_next.simps)
    from now [OF waker_inv_next [OF n that(1,2)]] n that show ?thesis by (simp add: numeral_2_eq_2)
  qed
  show "sy_loop s = ClosedNow \<Longrightarrow> \<exists>s'. loop_iter t 1 s = Some s' \<and> sy_scheduled s'"
    using now assms by blast
  show "sy_loop s = Closing \<Longrightarrow> \<exists>s'. loop_iter t 2 s = Some s' \<and> sy_scheduled s'"
    using closing assms by blast
  show "\<exists>s'. loop_iter t 3 s = Some s' \<and> sy_scheduled s'" if "sy_loop s = EofStored"
  proof -
    let ?v = "s\<lparr>sy_conn := server_releaseRead (sy_conn s), sy_loop := Closing\<rparr>"
    have n: "loop_next t s = Some ?v" using that by (simp add: loop_next.simps)
    from closing [OF waker_inv_next [OF n assms(1,2)] data_inv_next [OF n assms(2)]] n assms(3)
    show ?thesis by (simp add: numeral_3_eq_3 numeral_2_eq_2)
  qed
qed

lemma coming_wakes:
  assumes "waker_inv t s" and "data_inv s" and "sy_reader s = Parked n" and "wake_coming (sy_loop s)"
  shows "\<exists>k s'. k \<le> 3 \<and> loop_iter t k s = Some s' \<and> sy_scheduled s'"
proof (cases "sy_loop s")
  case Committed
  with wake_step_total [OF assms(1), of Waiting] assms(3)
  have "\<exists>s'. loop_iter t 1 s = Some s' \<and> sy_scheduled s'" by (force simp: loop_next.simps)
  then show ?thesis by (intro exI [of _ 1]) simp
next
  case ClosedNow
  with closing_wakes(1) [OF assms(1-3)] show ?thesis by (intro exI [of _ 1]) simp
next
  case Closing
  with closing_wakes(2) [OF assms(1-3)] show ?thesis by (intro exI [of _ 2]) simp
next
  case EofStored
  with closing_wakes(3) [OF assms(1-3)] show ?thesis by (intro exI [of _ 3]) simp
qed (use assms(4) in simp_all)

lemma no_lost_wake:
  assumes "sys_reach ww Q t s" and "sy_reader s = Parked n" and "n > 0"
    and "content (sy_conn s) \<noteq> [] \<or> readEof (sy_conn s)"
  shows "\<exists>k s'. k \<le> 3 \<and> loop_iter t k s = Some s' \<and> sy_scheduled s'"
proof (cases "sy_scheduled s")
  case True
  then show ?thesis by (intro exI [of _ 0]) simp
next
  case False
  from reach_inv [OF assms(1)] have inv: "data_inv s" "waker_inv t s" by simp_all
  with assms(2-4) False have "wake_coming (sy_loop s)" by (auto simp: waker_inv_def)
  with coming_wakes [OF inv(2,1) assms(2)] show ?thesis by blast
qed

lemma reach_stream:
  assumes "sys_reach ww Q t s"
  shows "sy_received s @ content (sy_conn s) = sy_sent s"
    and "sy_reader s = AtEof \<Longrightarrow> sy_received s = sy_sent s \<and> eof_phase (sy_loop s)"
  using reach_inv [OF assms] by (auto simp: data_inv_def)

text \<open>A poll waits for the event-base thread only inside its short critical section.\<close>

lemma unlocked_no_wait: "\<not> read_mutex (sy_conn s) \<Longrightarrow> \<not> waits_for_mutex Q s buf"
  by (simp add: waits_for_mutex_def server_connection_read_or_status_def Let_def split: sum.splits prod.splits)

lemma reach_blocked:
  assumes "sys_reach ww Q t s" and "waits_for_mutex Q s buf"
  shows "sy_loop s = Reading \<or> sy_loop s = EofStored"
proof -
  have "read_mutex (sy_conn s)" using assms(2) unlocked_no_wait by blast
  with reach_inv [OF assms(1)] have "lock_phase (sy_loop s)" by (simp add: data_inv_def)
  then show ?thesis by (cases "sy_loop s") simp_all
qed

text \<open>Every callback that can come next releases the mutex.\<close>

lemma callback_frees:
  assumes "sys_reach ww Q t s" and "length (content (sy_conn s)) + length bs < 2 ^ 64"
  shows "sy_loop s = Reading \<Longrightarrow> \<exists>s'. sys_step ww Q t s s' \<and> sy_loop s' = Committed
      \<and> sy_sent s' = sy_sent s @ bs \<and> \<not> waits_for_mutex Q s' buf"
    and "sy_loop s = Reading \<Longrightarrow> sys_step ww Q t s (start_err what s) \<and> \<not> waits_for_mutex Q (start_err what s) buf"
    and "sy_loop s = Reading \<Longrightarrow> \<exists>s'. sys_step ww Q t s (start_eof s) \<and> loop_next t (start_eof s) = Some s'
      \<and> \<not> waits_for_mutex Q s' buf"
    and "sy_loop s = EofStored \<Longrightarrow> \<exists>s'. loop_next t s = Some s' \<and> \<not> waits_for_mutex Q s' buf"
proof -
  have inv: "conn_inv (sy_conn s)" using reach_inv [OF assms(1)] by (simp add: data_inv_def)
  show "\<exists>s'. sys_step ww Q t s s' \<and> sy_loop s' = Committed \<and> sy_sent s' = sy_sent s @ bs \<and> \<not> waits_for_mutex Q s' buf"
    if "sy_loop s = Reading"
    by (intro exI conjI, rule sys_step.commit [OF that assms(2)]) (simp_all add: unlocked_no_wait)
  show "sys_step ww Q t s (start_err what s) \<and> \<not> waits_for_mutex Q (start_err what s) buf" if "sy_loop s = Reading"
    using that inv by (intro conjI sys_step.err unlocked_no_wait) (simp_all add: start_err_def)
  show "\<exists>s'. sys_step ww Q t s (start_eof s) \<and> loop_next t (start_eof s) = Some s' \<and> \<not> waits_for_mutex Q s' buf"
    if "sy_loop s = Reading"
    using that inv sys_step.eof [of s ww Q t] by (simp add: start_eof_def loop_next.simps unlocked_no_wait)
  show "\<exists>s'. loop_next t s = Some s' \<and> \<not> waits_for_mutex Q s' buf" if "sy_loop s = EofStored"
    using that inv by (simp add: loop_next.simps unlocked_no_wait)
qed

text \<open>End of stream is final: nothing is delivered after it.\<close>

lemma eof_stable:
  assumes "sys_reach ww Q t s" and "content (sy_conn s) = []" and "readEof (sy_conn s)"
    and "sys_step ww Q t s s'"
  shows "content (sy_conn s') = [] \<and> readEof (sy_conn s')"
proof -
  have inv: "data_inv s" and inv': "data_inv s'"
    using reach_inv [OF assms(1)] data_inv_step [OF assms(4)] by simp_all
  from assms(4) have "sy_sent s' = sy_sent s \<and> length (sy_received s) \<le> length (sy_received s')
      \<and> eof_phase (sy_loop s') \<or> sy_loop s = Reading"
  proof (cases rule: sys_step.cases)
    case inside
    from assms(3) inv have "eof_phase (sy_loop s)" by (simp add: data_inv_def)
    with inside wake_step_frame [of t Finished s s'] show ?thesis
      by (auto simp: loop_next.simps split: loop_phase.splits)
  qed (use assms(3) inv in \<open>auto simp: data_inv_def start_eof_def start_err_def\<close>)
  moreover from assms(3) inv have "sy_loop s \<noteq> Reading" by (auto simp: data_inv_def)
  ultimately have s': "sy_sent s' = sy_sent s" "length (sy_received s) \<le> length (sy_received s')"
    "eof_phase (sy_loop s')" by simp_all
  have "sy_received s = sy_sent s" "sy_received s' @ content (sy_conn s') = sy_sent s'"
    using inv inv' assms(2) by (auto simp: data_inv_def)
  with s' have "length (sy_received s') + length (content (sy_conn s')) \<le> length (sy_received s')"
    by (metis length_append)
  with s'(3) inv' show ?thesis by (simp add: data_inv_def)
qed

end

interpretation block_reading: reading block_queue "(=)"
  by unfold_locales simp

section \<open>A concrete instance\<close>

text \<open>
  A run in which a task parks before data comes: the waker is installed, a poll for four bytes
  finds nothing, then two bytes are committed and the wake has yet to happen.
\<close>

definition fresh_system :: "unit sys" where
  "fresh_system =
     \<lparr>sy_conn = sample_connection, sy_store = empty_slots, sy_handle = \<lparr>rw_inner = 0\<rparr>,
      sy_reader = Setup, sy_scheduled = False, sy_loop = Waiting, sy_received = [], sy_sent = []\<rparr>"

definition running_system :: "unit sys" where
  "running_system = fresh_system\<lparr>sy_conn := sample_connection\<lparr>read_waker := Some \<lparr>rw_inner = 0\<rparr>\<rparr>,
     sy_reader := Running\<rparr>"

definition parked_system :: "unit sys" where
  "parked_system = running_system\<lparr>sy_store := empty_slots(0 := Slot (Some (Waker 5 0))),
     sy_reader := Parked 4\<rparr>"

definition reading_system :: "unit sys" where
  "reading_system = parked_system\<lparr>sy_loop := Reading,
     sy_conn := sample_connection\<lparr>read_waker := Some \<lparr>rw_inner = 0\<rparr>, read_mutex := True,
       pending_read := True\<rparr>\<rparr>"

definition committed_system :: "unit sys" where
  "committed_system = reading_system\<lparr>sy_loop := Committed, sy_sent := [1, 2],
     sy_conn := server_commitRead block_queue (sy_conn reading_system) [1, 2]\<rparr>"

definition eof_system :: "unit sys" where
  "eof_system = (start_eof parked_system)"

lemmas system_defs = fresh_system_def running_system_def parked_system_def reading_system_def
  committed_system_def eof_system_def sample_connection_def empty_slots_def

lemma fresh_reach: "sys_reach (=) block_queue 5 fresh_system"
  by (rule sys_reach.init) (simp add: sys_init_def readable_def conn_inv_def content_def system_defs)

lemma running_reach: "sys_reach (=) block_queue 5 running_system"
proof (rule sys_reach.step [OF fresh_reach])
  show "sys_step (=) block_queue 5 fresh_system running_system"
    using sys_step.install [of fresh_system 0 empty_slots "\<lparr>rw_inner = 0\<rparr>"]
    by (simp add: system_defs ReadWaker_new_def clone_for_cpp_def set_server_read_waker_def
        fun_upd_idem_iff)
qed

lemma parked_reach: "sys_reach (=) block_queue 5 parked_system"
proof -
  let ?s = "running_system\<lparr>sy_store := empty_slots(0 := Slot (Some (Waker 5 0))), sy_reader := Registered 4\<rparr>"
  have "sys_step (=) block_queue 5 running_system ?s"
    using sys_step.poll [of running_system "(=)" 5 0 "empty_slots(0 := Slot (Some (Waker 5 0)))" block_queue 4]
    by (simp add: system_defs register_def)
  from sys_reach.step [OF running_reach this] show ?thesis
  proof (rule sys_reach.step)
    show "sys_step (=) block_queue 5 ?s parked_system"
      using sys_step.check [of ?s 4 block_queue "sy_conn ?s" "\<lparr>ro_bytes_read = 0, ro_eof = False\<rparr>"
          "replicate 4 0" "(=)" 5]
      by (simp add: system_defs server_connection_read_or_status_def after_read_def)
  qed
qed

lemma committed_reach: "sys_reach (=) block_queue 5 committed_system"
proof -
  have "sys_step (=) block_queue 5 parked_system reading_system"
    using sys_step.get_buffer [of parked_system "sy_conn reading_system" "(=)" block_queue 5]
    by (simp add: system_defs server_getReadBuffer_def)
  from sys_reach.step [OF parked_reach this] show ?thesis
  proof (rule sys_reach.step)
    show "sys_step (=) block_queue 5 reading_system committed_system"
      using sys_step.commit [of reading_system "[1, 2]" "(=)" block_queue 5]
      by (simp add: system_defs content_def)
  qed
qed

lemma eof_reach: "sys_reach (=) block_queue 5 eof_system"
  by (rule sys_reach.step [OF parked_reach], unfold eof_system_def, rule sys_step.eof)
    (simp add: system_defs)

section \<open>Properties\<close>

text \<open>C1. No wake-up is lost: in every state that the polling task and the event-base thread can reach
  by interleaving their steps, if a task is parked after a poll with room while data is buffered or
  the stream has ended, then the event-base thread, on its own and within three steps that are
  all possible, has the task scheduled.\<close>

theorem no_lost_wakeup:
  assumes "iobuf_queue Q" and "will_wake_sound ww"
    and "sys_reach ww Q t s" and "sy_reader s = Parked n" and "n > 0"
    and "content (sy_conn s) \<noteq> [] \<or> readEof (sy_conn s)"
  shows "\<exists>k s'. k \<le> 3 \<and> loop_iter t k s = Some s' \<and> sy_scheduled s'"
  using assms(3-6)
  by (rule reading.no_lost_wake [OF reading.intro [OF assms(1) reading_axioms.intro [OF assms(2)]]])

theorem no_lost_wakeup_witness:
  "\<not> sy_scheduled committed_system \<and>
   (\<exists>k s'. k \<le> 3 \<and> loop_iter 5 k committed_system = Some s' \<and> sy_scheduled s')"
proof
  show "\<not> sy_scheduled committed_system" by (simp add: system_defs)
  show "\<exists>k s'. k \<le> 3 \<and> loop_iter 5 k committed_system = Some s' \<and> sy_scheduled s'"
    by (rule no_lost_wakeup [OF block.iobuf_queue_axioms will_wake_sound_eq committed_reach, of 4])
      (simp_all add: system_defs content_def server_commitRead_def block_queue_def)
qed

text \<open>C5. Under every interleaving the task receives the bytes in order and without loss: what it has
  received followed by what is buffered is what the transport delivered, and end of stream is
  reported only after the last delivered byte was received.\<close>

theorem interleaved_stream:
  assumes "iobuf_queue Q" and "will_wake_sound ww" and "sys_reach ww Q t s"
  shows "sy_received s @ content (sy_conn s) = sy_sent s
    \<and> (sy_reader s = AtEof \<longrightarrow> sy_received s = sy_sent s)"
proof -
  have "reading Q ww" using assms(1,2) by (simp add: reading_def reading_axioms_def)
  from reading.reach_stream [OF this assms(3)] show ?thesis by blast
qed

theorem interleaved_stream_witness:
  "sy_received committed_system @ content (sy_conn committed_system) = [1, 2]"
  using interleaved_stream [OF block.iobuf_queue_axioms will_wake_sound_eq committed_reach]
  by (simp add: system_defs)

text \<open>C24. End of stream is final: once the buffer is empty and the end is marked, no step of either
  thread brings data back or clears the mark, so every later poll reports the end again.\<close>

theorem end_of_stream_is_final:
  assumes "iobuf_queue Q" and "will_wake_sound ww" and "sys_reach ww Q t s"
    and "content (sy_conn s) = []" and "readEof (sy_conn s)" and "sys_step ww Q t s s'"
  shows "content (sy_conn s') = [] \<and> readEof (sy_conn s')"
proof -
  have "reading Q ww" using assms(1,2) by (simp add: reading_def reading_axioms_def)
  from reading.eof_stable [OF this assms(3-6)] show ?thesis .
qed

theorem end_of_stream_is_final_witness:
  "content (server_releaseRead (sy_conn eof_system)) = []
   \<and> readEof (server_releaseRead (sy_conn eof_system))"
proof -
  let ?s = "eof_system\<lparr>sy_conn := server_releaseRead (sy_conn eof_system), sy_loop := Closing\<rparr>"
  have "sys_step (=) block_queue 5 eof_system ?s"
    by (rule sys_step.inside) (simp add: eof_system_def start_eof_def loop_next.simps)
  from end_of_stream_is_final [OF block.iobuf_queue_axioms will_wake_sound_eq eof_reach _ _ this]
  show ?thesis by (simp add: system_defs start_eof_def content_def)
qed

text \<open>C25. A poll waits for \<open>read_mutex\<close> only while the event-base thread is between \<open>getReadBuffer\<close> and its callback,
  or inside \<open>readEOF\<close> just before it releases the mutex, and never for ever: whichever callback follows, the
  thread can take it, and the poll no longer waits after its first step, or for \<open>readEOF\<close> after its second.\<close>

theorem poll_waits_in_callback_only:
  assumes "iobuf_queue Q" and "will_wake_sound ww" and "sys_reach ww Q t s" and "waits_for_mutex Q s buf"
    and "length (content (sy_conn s)) + length bs < 2 ^ 64"
  shows "sy_loop s = Reading
      \<and> (\<exists>s'. sys_step ww Q t s s' \<and> sy_loop s' = Committed \<and> sy_sent s' = sy_sent s @ bs \<and> \<not> waits_for_mutex Q s' buf)
      \<and> (sys_step ww Q t s (start_err what s) \<and> \<not> waits_for_mutex Q (start_err what s) buf)
      \<and> (\<exists>s'. sys_step ww Q t s (start_eof s) \<and> loop_next t (start_eof s) = Some s' \<and> \<not> waits_for_mutex Q s' buf)
    \<or> sy_loop s = EofStored \<and> (\<exists>s'. loop_next t s = Some s' \<and> \<not> waits_for_mutex Q s' buf)"
proof -
  have "reading Q ww" using assms(1,2) by (simp add: reading_def reading_axioms_def)
  from reading.reach_blocked [OF this assms(3,4)] reading.callback_frees [OF this assms(3,5)]
  show ?thesis by blast
qed

theorem poll_waits_in_callback_only_witness:
  "sy_loop reading_system = Reading
   \<and> (\<exists>s'. sys_step (=) block_queue 5 reading_system s' \<and> sy_loop s' = Committed \<and> sy_sent s' = sy_sent reading_system @ [4]
        \<and> \<not> waits_for_mutex block_queue s' [0])"
proof -
  have "sys_step (=) block_queue 5 parked_system reading_system"
    using sys_step.get_buffer [of parked_system "sy_conn reading_system" "(=)" block_queue 5]
    by (simp add: system_defs server_getReadBuffer_def)
  from sys_reach.step [OF parked_reach this] have "sys_reach (=) block_queue 5 reading_system" .
  moreover have "waits_for_mutex block_queue reading_system [0]"
    by (simp add: system_defs waits_for_mutex_def server_connection_read_or_status_def)
  moreover have "length (content (sy_conn reading_system)) + length [4 :: u8] < 2 ^ 64"
    by (simp add: system_defs content_def)
  ultimately have "sy_loop reading_system = Reading
      \<and> (\<exists>s'. sys_step (=) block_queue 5 reading_system s' \<and> sy_loop s' = Committed \<and> sy_sent s' = sy_sent reading_system @ [4]
        \<and> \<not> waits_for_mutex block_queue s' [0]) \<or> sy_loop reading_system = EofStored"
    using poll_waits_in_callback_only [OF block.iobuf_queue_axioms will_wake_sound_eq, of 5 reading_system "[0]" "[4]"]
    by blast
  then show ?thesis by (simp add: system_defs)
qed

text \<open>The steps of the interleaving are the callbacks of the code: taken without interruption,
  they compute exactly \<open>readDataAvailable\<close>, \<open>readEOF\<close> and \<open>readErr\<close>, the woken task being scheduled.\<close>

theorem callbacks_are_their_phases:
  "(let after = (\<lambda>p. map_option (\<lambda>(c, h, w). s\<lparr>sy_conn := c, sy_store := h,
        sy_scheduled := (sy_scheduled s \<or> map_option wk_task w = Some t), sy_loop := p\<rparr>))
    in loop_next t (s\<lparr>sy_conn := server_commitRead Q (sy_conn s) bs, sy_loop := Committed\<rparr>) =
         after Waiting (server_readDataAvailable Q (sy_conn s) (sy_store s) bs)
     \<and> loop_iter t 3 (start_eof s) = after Finished (server_readEOF (sy_conn s) (sy_store s))
     \<and> loop_iter t 3 (start_err what s) = after Finished (server_readErr (sy_conn s) (sy_store s) what))"
  unfolding Let_def by (intro conjI commit_then_wake readEOF_phases readErr_phases)

end
