(* ===== verification/Fizz_Tls.thy ===== *)
theory Fizz_Tls
  imports Fizz_Handshake Fizz_Wake
begin

text \<open>
  \<open>ClientTlsContext::connect\<close> and \<open>ServerTlsContext::accept\<close>, \<open>accept_from_stream\<close>: the futures
  that turn a TCP socket into a TLS connection. Their result says what the caller gets and what
  becomes of the connection object and the descriptor, because both travel through raw
  pointers and numbers that no destructor follows.
\<close>

section \<open>Environment\<close>

text \<open>
  What happens around one call: whether the socket converts to a standard one, whether the blocking
  task is joined, the address of the new waker slot, and the handshake event. No event means
  that the callback never runs; \<open>sender_dropped\<close> that it is destroyed without running.
\<close>

record 'x tls_env =
  into_std :: "string + int"
  join_error :: "string option"
  slot_address :: nat
  hs_event :: "'x handshake_event option"
  sender_dropped :: bool

text \<open>\<open>take_raw_fd\<close> also sets \<open>TCP_NODELAY\<close> and ignores whether that worked.\<close>

definition take_raw_fd :: "'x tls_env \<Rightarrow> int call" where
  "take_raw_fd env =
     (case into_std env of
        Inl e \<Rightarrow> Throws (''Failed to convert to std::net::TcpStream: '' @ e)
      | Inr raw \<Rightarrow> Returns raw)"

text \<open>
  The outcome: the value of the future, the waker store, a connection object that is still
  allocated but that nothing owns, and whether the descriptor was left open without an owner.
\<close>

record ('r, 'c) tls_outcome =
  to_value :: "(FizzError + 'r) call"
  to_store :: slot_store
  to_leaked :: "'c option"
  to_fd_open :: bool

definition give_up :: "FizzError \<Rightarrow> slot_store \<Rightarrow> ('r, 'c) tls_outcome" where
  "give_up e h = \<lparr>to_value = Returns (Inl e), to_store = h, to_leaked = None, to_fd_open = False\<rparr>"

text \<open>The wait on the receiver: a value sent by the callback, a dropped sender, or forever.\<close>

definition await_handshake :: "IoContext \<Rightarrow> bool \<Rightarrow> (string + nat) option call" where
  "await_handshake context dropped =
     (case receiver_await context of
        Some r \<Rightarrow> Returns (Some r)
      | None \<Rightarrow> if dropped then Returns None else Blocks)"

definition spawn_error :: "string \<Rightarrow> FizzError" where
  "spawn_error e = IoError (IoErr Other (''Failed to spawn blocking task: '' @ e))"

section \<open>Client\<close>

definition connect ::
  "('x, 'k, 't, 's, 'p, 'd) tls_crypto \<Rightarrow> 'x tls_env \<Rightarrow> slot_store \<Rightarrow> ClientTlsContext \<Rightarrow> string
     \<Rightarrow> (ClientConnection, FizzClientConnection) tls_outcome" where
  "connect K env h self hostname =
     (case take_raw_fd env of
        Throws e \<Rightarrow> \<lparr>to_value = Throws e, to_store = h, to_leaked = None, to_fd_open = False\<rparr>
      | Blocks \<Rightarrow> \<lparr>to_value = Blocks, to_store = h, to_leaked = None, to_fd_open = False\<rparr>
      | Returns raw \<Rightarrow>
        (case join_error env of
           Some e \<Rightarrow> (give_up (spawn_error e) h)\<lparr>to_fd_open := True\<rparr>
         | None \<Rightarrow>
           (case client_connect K (ctc_inner self) raw hostname of
              (Inl what, owned) \<Rightarrow> (give_up (from_exception what) h)\<lparr>to_fd_open := \<not> owned\<rparr>
            | (Inr conn, _) \<Rightarrow>
              (case client_connection_handshake_async conn of
                 (conn1, Throws what) \<Rightarrow> give_up (TlsHandshakeError what) h
               | (conn1, Blocks) \<Rightarrow>
                   \<lparr>to_value = Blocks, to_store = h, to_leaked = None, to_fd_open = False\<rparr>
               | (conn1, Returns _) \<Rightarrow>
                   (let (conn2, context) =
                          (case hs_event env of
                             None \<Rightarrow> (conn1, IoContext_new)
                           | Some event \<Rightarrow> client_handshake_callback K conn1 IoContext_new event)
                    in case await_handshake context (sender_dropped env) of
                         Blocks \<Rightarrow>
                           \<lparr>to_value = Blocks, to_store = h, to_leaked = None, to_fd_open = False\<rparr>
                       | Throws e \<Rightarrow>
                           \<lparr>to_value = Throws e, to_store = h, to_leaked = Some conn2, to_fd_open = False\<rparr>
                       | Returns None \<Rightarrow>
                           (give_up (TlsHandshakeError ''Handshake channel closed unexpectedly'') h)
                             \<lparr>to_leaked := Some conn2\<rparr>
                       | Returns (Some (Inl e)) \<Rightarrow>
                           (give_up (TlsHandshakeError e) h)\<lparr>to_leaked := Some conn2\<rparr>
                       | Returns (Some (Inr _)) \<Rightarrow>
                           (let (h', rw) = ReadWaker_new h (slot_address env)
                            in \<lparr>to_value = Returns (Inr
                                  \<lparr>cl_inner = set_client_read_waker conn2 (clone_for_cpp rw),
                                   cl_read_waker = rw\<rparr>),
                                to_store = h', to_leaked = None, to_fd_open = False\<rparr>))))))"

section \<open>Server\<close>

definition accept_from_stream ::
  "('x, 'k, 't, 's, 'p, 'd) tls_crypto \<Rightarrow> 'x tls_env \<Rightarrow> slot_store \<Rightarrow> ('s, 'd) ServerTlsContext
     \<Rightarrow> (ServerConnection, FizzServerConnection) tls_outcome" where
  "accept_from_stream K env h self =
     (case take_raw_fd env of
        Throws e \<Rightarrow> \<lparr>to_value = Throws e, to_store = h, to_leaked = None, to_fd_open = False\<rparr>
      | Blocks \<Rightarrow> \<lparr>to_value = Blocks, to_store = h, to_leaked = None, to_fd_open = False\<rparr>
      | Returns raw \<Rightarrow>
        (case join_error env of
           Some e \<Rightarrow> (give_up (spawn_error e) h)\<lparr>to_fd_open := True\<rparr>
         | None \<Rightarrow>
           (case server_accept_connection K (stc_inner self) raw of
              (Inl what, owned) \<Rightarrow> (give_up (from_exception what) h)\<lparr>to_fd_open := \<not> owned\<rparr>
            | (Inr conn, _) \<Rightarrow>
              (case server_connection_handshake_async conn of
                 (conn1, Throws what) \<Rightarrow> give_up (TlsHandshakeError what) h
               | (conn1, Blocks) \<Rightarrow>
                   \<lparr>to_value = Blocks, to_store = h, to_leaked = None, to_fd_open = False\<rparr>
               | (conn1, Returns _) \<Rightarrow>
                   (let (conn2, context) =
                          (case hs_event env of
                             None \<Rightarrow> (conn1, IoContext_new)
                           | Some event \<Rightarrow> server_handshake_callback conn1 IoContext_new event)
                    in case await_handshake context (sender_dropped env) of
                         Blocks \<Rightarrow>
                           \<lparr>to_value = Blocks, to_store = h, to_leaked = None, to_fd_open = False\<rparr>
                       | Throws e \<Rightarrow>
                           \<lparr>to_value = Throws e, to_store = h, to_leaked = Some conn2, to_fd_open = False\<rparr>
                       | Returns None \<Rightarrow>
                           (give_up (TlsHandshakeError ''Handshake channel closed unexpectedly'') h)
                             \<lparr>to_leaked := Some conn2\<rparr>
                       | Returns (Some (Inl e)) \<Rightarrow>
                           (give_up (TlsHandshakeError e) h)\<lparr>to_leaked := Some conn2\<rparr>
                       | Returns (Some (Inr _)) \<Rightarrow>
                           (let (h', rw) = ReadWaker_new h (slot_address env)
                            in \<lparr>to_value = Returns (Inr
                                  \<lparr>sv_inner = set_server_read_waker conn2 (clone_for_cpp rw),
                                   sv_read_waker = rw\<rparr>),
                                to_store = h', to_leaked = None, to_fd_open = False\<rparr>))))))"

text \<open>\<open>accept\<close> first accepts a TCP connection from the listener.\<close>

definition accept ::
  "('x, 'k, 't, 's, 'p, 'd) tls_crypto \<Rightarrow> (IoErr + 'x tls_env) \<Rightarrow> slot_store
     \<Rightarrow> ('s, 'd) ServerTlsContext \<Rightarrow> (ServerConnection, FizzServerConnection) tls_outcome" where
  "accept K listener h self =
     (case listener of
        Inl e \<Rightarrow> give_up (IoError e) h
      | Inr env \<Rightarrow> accept_from_stream K env h self)"

section \<open>The connection a handshake starts with\<close>

definition sni_of :: "FizzClientContext \<Rightarrow> string \<Rightarrow> string" where
  "sni_of ctx hostname = (if hostname = [] then cx_sniHostname ctx else hostname)"

definition client_started :: "FizzClientContext \<Rightarrow> int \<Rightarrow> string \<Rightarrow> FizzClientConnection" where
  "client_started ctx raw hostname =
     (client_expectations ctx ((blank_client raw)\<lparr>caCertPath := cx_caCertPath ctx,
        dcEnabled := cx_dcEnabled ctx\<rparr>))
       \<lparr>transport := Some [TrConnect (if sni_of ctx hostname = [] then None
                                    else Some (sni_of ctx hostname))],
        peerCertPem := [], evb_thread := True\<rparr>"

definition server_started :: "int \<Rightarrow> FizzServerConnection" where
  "server_started raw = (blank_connection raw)\<lparr>transport := Some [TrAccept], evb_thread := True\<rparr>"

lemma client_expectations_fields [simp]:
  "transport (client_expectations ctx c) = transport c"
  "evb_thread (client_expectations ctx c) = evb_thread c"
  "handshakeComplete (client_expectations ctx c) = handshakeComplete c"
  "readBufQueue (client_expectations ctx c) = readBufQueue c"
  "bytesRead (client_expectations ctx c) = bytesRead c"
  "read_mutex (client_expectations ctx c) = read_mutex c"
  "pending_read (client_expectations ctx c) = pending_read c"
  "readEof (client_expectations ctx c) = readEof c"
  "read_waker (client_expectations ctx c) = read_waker c"
  "evb_tasks (client_expectations ctx c) = evb_tasks c"
  "writeError (client_expectations ctx c) = writeError c"
  "dcEnabled (client_expectations ctx c) = dcEnabled c"
  by (simp_all add: client_expectations_def)

lemma blank_client_fields [simp]:
  "handshakeComplete (blank_client raw) = False" "readBufQueue (blank_client raw) = []"
  "bytesRead (blank_client raw) = 0" "read_mutex (blank_client raw) = False"
  "pending_read (blank_client raw) = False" "readEof (blank_client raw) = False"
  "read_waker (blank_client raw) = None" "evb_tasks (blank_client raw) = []"
  "writeError (blank_client raw) = False"
  by (simp_all add: blank_client_def blank_connection_def FizzServerConnection.defs
      FizzClientConnection.defs)

lemma client_handshake_started:
  assumes "client_connect K ctx raw hostname = (Inr conn, owned)"
  shows "client_connection_handshake_async conn = (client_started ctx raw hostname, Returns ())"
  using assms
  by (simp add: client_connect_iff client_connection_handshake_async_def client_start_def
      client_started_def sni_of_def tr_do_def Let_def)

lemma server_handshake_started:
  assumes "server_accept_connection K ctx raw = (Inr conn, owned)"
  shows "server_connection_handshake_async conn = (server_started raw, Returns ())"
  using assms
  by (simp add: server_accept_connection_iff server_connection_handshake_async_def
      server_started_def tr_do_def)

section \<open>What the client accepts\<close>

text \<open>The acceptance test in terms of the context, which holds the verification info.\<close>

definition context_accepts ::
  "('x, 'k, 't, 's, 'p, 'd) tls_crypto \<Rightarrow> FizzClientContext \<Rightarrow> 'x server_cert option \<Rightarrow> bool" where
  "context_accepts K ctx cert \<longleftrightarrow>
     (case cert of
        None \<Rightarrow> False
      | Some PlainCert \<Rightarrow> \<not> cx_dcEnabled ctx
      | Some (PeerDelegatedCredential leaf dc) \<Rightarrow>
          cx_dcEnabled ctx \<longrightarrow>
            cx_publicKeyDer ctx = bytes_to_hex_lower (fz_public_key dc)
            \<and> cx_validTime ctx = fz_valid_time dc
            \<and> cx_expectedVerifyScheme ctx = fz_expected_verify_scheme dc
            \<and> (case getCredentialExpiresTime K leaf dc of
                 Inl _ \<Rightarrow> False
               | Inr tp \<Rightarrow> cx_expiresAt ctx = of_nat (ticks tp div hz tp)))"

lemma client_started_fields [simp]:
  "dcEnabled (client_started ctx raw hostname) = cx_dcEnabled ctx"
  "handshakeComplete (client_started ctx raw hostname) = False"
  "errorMessage (client_started ctx raw hostname) = []"
  "read_waker (client_started ctx raw hostname) = None"
  by (simp_all add: client_started_def client_expectations_def blank_client_def blank_connection_def
      FizzServerConnection.defs FizzClientConnection.defs)

lemma acceptable_started:
  "peer_acceptable K (client_started ctx raw hostname) cert = context_accepts K ctx cert"
proof (cases "cx_dcEnabled ctx")
  case True
  then have "expectedPublicKeyDerHex (client_started ctx raw hostname) = cx_publicKeyDer ctx"
    "expectedValidTime (client_started ctx raw hostname) = cx_validTime ctx"
    "expectedVerifyScheme (client_started ctx raw hostname) = cx_expectedVerifyScheme ctx"
    "expectedExpiresAt (client_started ctx raw hostname) = cx_expiresAt ctx"
    by (simp_all add: client_started_def client_expectations_def)
  with True show ?thesis
    by (simp add: peer_acceptable_def context_accepts_def credential_matches_def
        split: option.splits server_cert.splits sum.splits)
next
  case False
  then show ?thesis
    by (simp add: peer_acceptable_def context_accepts_def split: option.splits server_cert.splits)
qed

section \<open>The two futures by cases\<close>

text \<open>Once the connection object exists, only the event decides.\<close>

lemma connect_handshake:
  assumes "into_std env = Inr raw" and "join_error env = None"
    and "client_connect K (ctc_inner self) raw hostname = (Inr conn, owned)"
    and "hs_event env = Some event"
  shows "connect K env h self hostname =
    (case client_handshake_callback K (client_started (ctc_inner self) raw hostname)
        IoContext_new event of
       (conn2, context) \<Rightarrow>
         (case receiver_await context of
            None \<Rightarrow>
              (if sender_dropped env
               then (give_up (TlsHandshakeError ''Handshake channel closed unexpectedly'') h)
                      \<lparr>to_leaked := Some conn2\<rparr>
               else \<lparr>to_value = Blocks, to_store = h, to_leaked = None, to_fd_open = False\<rparr>)
          | Some (Inl e) \<Rightarrow> (give_up (TlsHandshakeError e) h)\<lparr>to_leaked := Some conn2\<rparr>
          | Some (Inr _) \<Rightarrow>
              \<lparr>to_value = Returns (Inr
                 \<lparr>cl_inner = set_client_read_waker conn2 \<lparr>rw_inner = slot_address env\<rparr>,
                  cl_read_waker = \<lparr>rw_inner = slot_address env\<rparr>\<rparr>),
               to_store = h(slot_address env := Slot None), to_leaked = None, to_fd_open = False\<rparr>))"
  using assms client_handshake_started [OF assms(3)]
  by (simp add: connect_def take_raw_fd_def await_handshake_def ReadWaker_new_def clone_for_cpp_def
      split: prod.splits option.splits sum.splits)

lemma accept_handshake:
  assumes "into_std env = Inr raw" and "join_error env = None"
    and "server_accept_connection K (stc_inner self) raw = (Inr conn, owned)"
    and "hs_event env = Some event"
  shows "accept_from_stream K env h self =
    (case server_handshake_callback (server_started raw) IoContext_new event of
       (conn2, context) \<Rightarrow>
         (case receiver_await context of
            None \<Rightarrow>
              (if sender_dropped env
               then (give_up (TlsHandshakeError ''Handshake channel closed unexpectedly'') h)
                      \<lparr>to_leaked := Some conn2\<rparr>
               else \<lparr>to_value = Blocks, to_store = h, to_leaked = None, to_fd_open = False\<rparr>)
          | Some (Inl e) \<Rightarrow> (give_up (TlsHandshakeError e) h)\<lparr>to_leaked := Some conn2\<rparr>
          | Some (Inr _) \<Rightarrow>
              \<lparr>to_value = Returns (Inr
                 \<lparr>sv_inner = set_server_read_waker conn2 \<lparr>rw_inner = slot_address env\<rparr>,
                  sv_read_waker = \<lparr>rw_inner = slot_address env\<rparr>\<rparr>),
               to_store = h(slot_address env := Slot None), to_leaked = None, to_fd_open = False\<rparr>))"
  using assms server_handshake_started [OF assms(3)]
  by (simp add: accept_from_stream_def take_raw_fd_def await_handshake_def ReadWaker_new_def
      clone_for_cpp_def split: prod.splits option.splits sum.splits)

text \<open>The connection of a completed handshake, before and after the waker is installed.\<close>

definition client_established :: "FizzClientContext \<Rightarrow> int \<Rightarrow> string \<Rightarrow> FizzClientConnection" where
  "client_established ctx raw hostname =
     (tr_do TrSetReadCB ((client_started ctx raw hostname)
        \<lparr>peerCertPem := ''[Certificate extracted successfully]''\<rparr>))\<lparr>handshakeComplete := True\<rparr>"

definition server_established :: "int \<Rightarrow> FizzServerConnection" where
  "server_established raw = tr_do TrSetReadCB ((server_started raw)\<lparr>handshakeComplete := True\<rparr>)"

lemma client_established_ready:
  "readable (client_established ctx raw hostname)" "content (client_established ctx raw hostname) = []"
  "\<not> readEof (client_established ctx raw hostname)"
  "read_waker (client_established ctx raw hostname) = None"
  by (simp_all add: client_established_def client_started_def readable_def conn_inv_def content_def
      tr_do_def)

lemma server_established_ready:
  "readable (server_established raw)" "content (server_established raw) = []"
  "\<not> readEof (server_established raw)" "read_waker (server_established raw) = None"
  by (simp_all add: server_established_def server_started_def blank_connection_def readable_def
      conn_inv_def content_def tr_do_def)

lemma connect_accepted:
  assumes "into_std env = Inr raw" and "join_error env = None"
    and "client_connect K (ctc_inner self) raw hostname = (Inr conn, owned)"
    and "hs_event env = Some (HandshakeSuccess cert)" and "context_accepts K (ctc_inner self) cert"
  shows "connect K env h self hostname =
    \<lparr>to_value = Returns (Inr
       \<lparr>cl_inner = set_client_read_waker (client_established (ctc_inner self) raw hostname)
          \<lparr>rw_inner = slot_address env\<rparr>,
        cl_read_waker = \<lparr>rw_inner = slot_address env\<rparr>\<rparr>),
     to_store = h(slot_address env := Slot None), to_leaked = None, to_fd_open = False\<rparr>"
proof -
  have "peer_acceptable K (client_started (ctc_inner self) raw hostname) cert"
    using assms(5) by (simp add: acceptable_started)
  from client_verify_peer_ok [OF this] show ?thesis
    unfolding connect_handshake [OF assms(1-4)]
    by (simp add: client_handshake_callback_def client_established_def IoContext_new_def)
qed

text \<open>A rejected or failed handshake: the error reaches the caller, the connection nobody.\<close>

lemma connect_rejected:
  assumes "into_std env = Inr raw" and "join_error env = None"
    and "client_connect K (ctc_inner self) raw hostname = (Inr conn, owned)"
    and "hs_event env = Some (HandshakeSuccess cert)" and "\<not> context_accepts K (ctc_inner self) cert"
  shows "\<exists>e conn'. e \<noteq> [] \<and> \<not> handshakeComplete conn' \<and> connect K env h self hostname =
    \<lparr>to_value = Returns (Inl (TlsHandshakeError e)), to_store = h, to_leaked = Some conn',
     to_fd_open = False\<rparr>"
proof -
  let ?c = "client_started (ctc_inner self) raw hostname"
  obtain conn' e where v: "client_verify_peer K ?c cert = (conn', e)" by fastforce
  have "\<not> peer_acceptable K ?c cert" using assms(5) by (simp add: acceptable_started)
  from client_verify_peer_rejects [OF this v] have "e \<noteq> []" "\<not> handshakeComplete conn'" by simp_all
  with v show ?thesis
    unfolding connect_handshake [OF assms(1-4)]
    by (intro exI [of _ e] exI [of _ conn'])
      (simp add: client_handshake_callback_def IoContext_new_def give_up_def)
qed

lemma connect_failed:
  assumes "into_std env = Inr raw" and "join_error env = None"
    and "client_connect K (ctc_inner self) raw hostname = (Inr conn, owned)"
    and "hs_event env = Some (HandshakeError e)" and "e \<noteq> []"
  shows "connect K env h self hostname =
    \<lparr>to_value = Returns (Inl (TlsHandshakeError e)), to_store = h,
     to_leaked = Some ((client_started (ctc_inner self) raw hostname)\<lparr>errorMessage := e\<rparr>),
     to_fd_open = False\<rparr>"
  unfolding connect_handshake [OF assms(1-4)]
  using assms(5) by (simp add: client_handshake_callback_def IoContext_new_def give_up_def)

lemma accept_succeeded:
  assumes "into_std env = Inr raw" and "join_error env = None"
    and "server_accept_connection K (stc_inner self) raw = (Inr conn, owned)"
    and "hs_event env = Some (HandshakeSuccess cert)"
  shows "accept_from_stream K env h self =
    \<lparr>to_value = Returns (Inr
       \<lparr>sv_inner = set_server_read_waker (server_established raw) \<lparr>rw_inner = slot_address env\<rparr>,
        sv_read_waker = \<lparr>rw_inner = slot_address env\<rparr>\<rparr>),
     to_store = h(slot_address env := Slot None), to_leaked = None, to_fd_open = False\<rparr>"
  unfolding accept_handshake [OF assms]
  by (simp add: server_handshake_callback_def server_established_def IoContext_new_def)

text \<open>
  What an event tells the client's future: with an error text that is not empty, which is what
  \<open>exception_wrapper::what\<close> returns, every event but an accepted certificate is an error.
\<close>

lemma connect_ok_iff:
  assumes "hs_event env \<noteq> Some (HandshakeError [])" and "hs_event env \<noteq> Some AttemptFallback"
  shows "(\<exists>c. to_value (connect K env h self hostname) = Returns (Inr c)) \<longleftrightarrow>
    (\<exists>raw cert. into_std env = Inr raw \<and> join_error env = None
      \<and> x509_store_new K \<and> x509_store_load_locations K (cx_caCertPath (ctc_inner self))
      \<and> newSocket K raw = Inr () \<and> hs_event env = Some (HandshakeSuccess cert)
      \<and> context_accepts K (ctc_inner self) cert)"
    (is "?ok = ?cond")
proof
  assume ?cond
  then obtain raw cert conn where "into_std env = Inr raw" "join_error env = None"
    "client_connect K (ctc_inner self) raw hostname = (Inr conn, True)"
    "hs_event env = Some (HandshakeSuccess cert)" "context_accepts K (ctc_inner self) cert"
    by (auto simp: client_connect_iff)
  then show ?ok by (simp add: connect_accepted)
next
  assume ok: ?ok
  then obtain raw where raw: "into_std env = Inr raw"
    by (cases "into_std env") (auto simp: connect_def take_raw_fd_def)
  with ok have join: "join_error env = None"
    by (cases "join_error env") (auto simp: connect_def take_raw_fd_def give_up_def)
  obtain r owned where cc: "client_connect K (ctc_inner self) raw hostname = (r, owned)" by fastforce
  with ok raw join obtain conn where r: "r = Inr conn"
    by (cases r) (auto simp: connect_def take_raw_fd_def give_up_def)
  note cc = cc [unfolded r]
  show ?cond
  proof (cases "hs_event env")
    case None
    with ok raw join cc client_handshake_started [OF cc] show ?thesis
      by (auto simp: connect_def take_raw_fd_def await_handshake_def give_up_def split: if_splits)
  next
    case (Some event)
    then obtain cert where "hs_event env = Some (HandshakeSuccess cert)"
      using ok assms connect_failed [OF raw join cc] by (cases event) auto
    moreover from this ok have "context_accepts K (ctc_inner self) cert"
      using connect_rejected [OF raw join cc, of cert h] by (cases "context_accepts K (ctc_inner self) cert") auto
    ultimately show ?thesis using raw join cc by (auto simp: client_connect_iff)
  qed
qed

section \<open>A concrete instance\<close>

definition sample_context :: ClientTlsContext where
  "sample_context = \<lparr>ctc_inner =
     \<lparr>cx_ctx = tls13_config True, cx_serviceName = ''svc'', cx_validTime = 3700,
      cx_expectedVerifyScheme = 0x0403, cx_publicKeyDer = bytes_to_hex_lower [48, 89],
      cx_expiresAt = 4600, cx_caCertPath = ''ca.pem'', cx_alpnProtocols = [],
      cx_sniHostname = [], cx_dcEnabled = True\<rparr>\<rparr>"

definition sample_env :: "unit handshake_event \<Rightarrow> unit tls_env" where
  "sample_env event =
     \<lparr>into_std = Inr 7, join_error = None, slot_address = 0, hs_event = Some event,
      sender_dropped = False\<rparr>"

lemma sample_env_fields [simp]:
  "into_std (sample_env e) = Inr 7" "join_error (sample_env e) = None"
  "hs_event (sample_env e) = Some e"
  by (simp_all add: sample_env_def)

lemma sample_tls_fields [simp]:
  "x509_store_new (sample_tls age start)" "x509_store_load_locations (sample_tls age start) p"
  "newSocket (sample_tls age start) n = Inr ()"
  by (simp_all add: sample_tls_def dc_crypto.defs tls_crypto.defs)

lemma sample_context_accepts:
  "context_accepts (sample_tls 100 900) (ctc_inner sample_context)
     (Some (PeerDelegatedCredential () sample_peer))"
  by (simp add: context_accepts_def sample_tls_expiry sample_context_def sample_peer_def)

section \<open>Properties\<close>

text \<open>C10. \<open>connect\<close> yields a connection exactly when the socket converts, the blocking task is joined, the
  authority file loads, the socket object is made, and the handshake ends with a certificate the
  context accepts. The two excluded events do not come to a client: a version fallback, and an
  error without any text.\<close>

theorem connect_succeeds_iff:
  assumes "hs_event env \<noteq> Some (HandshakeError [])" and "hs_event env \<noteq> Some AttemptFallback"
  shows "(\<exists>c. to_value (connect K env h self hostname) = Returns (Inr c)) \<longleftrightarrow>
    (\<exists>raw cert. into_std env = Inr raw \<and> join_error env = None
      \<and> x509_store_new K \<and> x509_store_load_locations K (cx_caCertPath (ctc_inner self))
      \<and> newSocket K raw = Inr () \<and> hs_event env = Some (HandshakeSuccess cert)
      \<and> context_accepts K (ctc_inner self) cert)"
  using assms by (rule connect_ok_iff)

theorem connect_succeeds_iff_witness:
  "\<exists>c. to_value (connect (sample_tls 100 900)
      (sample_env (HandshakeSuccess (Some (PeerDelegatedCredential () sample_peer))))
      empty_slots sample_context ''host'') = Returns (Inr c)"
  by (subst connect_succeeds_iff) (simp_all add: sample_context_accepts)

text \<open>C12. The connection that \<open>connect\<close> returns can be read at once: the handshake is complete, the waker
  is installed in both halves, nothing is leaked, and with its store it is a state of the two-thread
  system from which no byte and no wake-up is lost.\<close>

theorem connect_result_is_ready:
  assumes "into_std env = Inr raw" and "join_error env = None"
    and "client_connect K (ctc_inner self) raw hostname = (Inr conn, owned)"
    and "hs_event env = Some (HandshakeSuccess cert)" and "context_accepts K (ctc_inner self) cert"
  shows "\<exists>c. to_value (connect K env h self hostname) = Returns (Inr c)
    \<and> to_leaked (connect K env h self hostname) = None
    \<and> readable (cl_inner c) \<and> slot_ok (to_store (connect K env h self hostname)) (cl_read_waker c)
    \<and> sys_reach ww Q t
        \<lparr>sy_conn = cl_inner c, sy_store = to_store (connect K env h self hostname),
         sy_handle = cl_read_waker c, sy_reader = Running, sy_scheduled = False,
         sy_loop = Waiting, sy_received = [], sy_sent = []\<rparr>"
proof -
  let ?e = "client_established (ctc_inner self) raw hostname" and ?rw = "\<lparr>rw_inner = slot_address env\<rparr>"
  note reach = installed_reach [OF client_established_ready, of ww Q t]
  have "readable (set_server_read_waker ?e ?rw)"
    using client_established_ready [of "ctc_inner self" raw hostname]
    by (simp add: readable_def) (simp add: set_server_read_waker_def)
  with reach show ?thesis
    by (simp add: connect_accepted [OF assms] slot_ok_def clone_for_cpp_def)
qed

theorem connect_result_is_ready_witness:
  "\<exists>c. to_value (connect (sample_tls 100 900)
      (sample_env (HandshakeSuccess (Some (PeerDelegatedCredential () sample_peer))))
      empty_slots sample_context ''host'') = Returns (Inr c) \<and> readable (cl_inner c)"
proof -
  obtain conn where "client_connect (sample_tls 100 900) (ctc_inner sample_context) 7 ''host'' = (Inr conn, True)"
    by (auto simp: client_connect_iff)
  from connect_result_is_ready [OF sample_env_fields(1,2) this sample_env_fields(3) sample_context_accepts,
      of empty_slots "(=)" block_queue 0] show ?thesis by blast
qed

text \<open>C13. The same for the server: an accepted stream whose handshake succeeds gives a connection that
  can be read at once and starts the two-thread system.\<close>

theorem accept_result_is_ready:
  assumes "into_std env = Inr raw" and "join_error env = None"
    and "server_accept_connection K (stc_inner self) raw = (Inr conn, owned)"
    and "hs_event env = Some (HandshakeSuccess cert)"
  shows "\<exists>c. to_value (accept K (Inr env) h self) = Returns (Inr c)
    \<and> readable (sv_inner c) \<and> slot_ok (to_store (accept K (Inr env) h self)) (sv_read_waker c)
    \<and> sys_reach ww Q t
        \<lparr>sy_conn = sv_inner c, sy_store = to_store (accept K (Inr env) h self),
         sy_handle = sv_read_waker c, sy_reader = Running, sy_scheduled = False,
         sy_loop = Waiting, sy_received = [], sy_sent = []\<rparr>"
proof -
  let ?e = "server_established raw" and ?rw = "\<lparr>rw_inner = slot_address env\<rparr>"
  note reach = installed_reach [OF server_established_ready, of ww Q t]
  have "readable (set_server_read_waker ?e ?rw)"
    using server_established_ready [of raw]
    by (simp add: readable_def) (simp add: set_server_read_waker_def)
  with reach show ?thesis
    by (simp add: accept_def accept_succeeded [OF assms] slot_ok_def clone_for_cpp_def)
qed

theorem accept_result_is_ready_witness:
  "\<exists>c. to_value (accept (sample_tls 100 900) (Inr (sample_env (HandshakeSuccess None))) empty_slots
      \<lparr>stc_inner = \<lparr>sx_ctx = tls13_config False, sx_certs = DefaultCertManager (), sx_alpnProtocols = []\<rparr>\<rparr>) =
      Returns (Inr c) \<and> readable (sv_inner c)"
proof -
  let ?self = "\<lparr>stc_inner = \<lparr>sx_ctx = tls13_config False, sx_certs = DefaultCertManager (), sx_alpnProtocols = []\<rparr>\<rparr>"
  obtain conn where "server_accept_connection (sample_tls 100 900) (stc_inner ?self) 7 = (Inr conn, True)"
    by (auto simp: server_accept_connection_iff)
  from accept_result_is_ready [OF sample_env_fields(1,2) this sample_env_fields(3),
      of None empty_slots "(=)" block_queue 0] show ?thesis by blast
qed

text \<open>C33. A handshake that fails, or whose certificate the context rejects, leaks: the caller of
  \<open>connect\<close> gets the error, and the connection object with its running event-base thread stays
  allocated without an owner.\<close>

theorem failed_connect_leaks_connection:
  assumes "into_std env = Inr raw" and "join_error env = None"
    and "client_connect K (ctc_inner self) raw hostname = (Inr conn, owned)"
    and "hs_event env = Some (HandshakeError e)" and "e \<noteq> []"
  shows "\<exists>c. to_value (connect K env h self hostname) = Returns (Inl (TlsHandshakeError e))
    \<and> to_leaked (connect K env h self hostname) = Some c \<and> evb_thread c \<and> fd c = raw"
  by (simp add: connect_failed [OF assms] client_started_def client_expectations_def blank_client_def
      blank_connection_def FizzServerConnection.defs FizzClientConnection.defs)

theorem failed_connect_leaks_connection_witness:
  "\<exists>c. to_value (connect (sample_tls 100 900) (sample_env (HandshakeError ''alert'')) empty_slots
      sample_context ''host'') = Returns (Inl (TlsHandshakeError ''alert''))
    \<and> to_leaked (connect (sample_tls 100 900) (sample_env (HandshakeError ''alert'')) empty_slots
      sample_context ''host'') = Some c \<and> evb_thread c"
proof -
  obtain conn where "client_connect (sample_tls 100 900) (ctc_inner sample_context) 7 ''host'' = (Inr conn, True)"
    by (auto simp: client_connect_iff)
  from failed_connect_leaks_connection [OF sample_env_fields(1,2) this sample_env_fields(3)]
  show ?thesis by auto
qed

text \<open>C34. When \<open>connect\<close> leaves the descriptor open without an owner: exactly when the socket gave its descriptor away but the
  blocking task was not joined, the authority store could not be made or loaded, or the socket object could not be
  made. The caller then has an error and no connection, so nothing ever closes the descriptor.\<close>

theorem descriptor_left_open_iff:
  "(to_fd_open (connect K env h self hostname) \<longleftrightarrow>
      (\<exists>raw. into_std env = Inr raw
        \<and> \<not> (join_error env = None \<and> x509_store_new K \<and> x509_store_load_locations K (cx_caCertPath (ctc_inner self))
             \<and> newSocket K raw = Inr ())))
   \<and> \<not> (to_fd_open (connect K env h self hostname)
        \<and> (\<nexists>e. to_value (connect K env h self hostname) = Returns (Inl e)))"
proof (cases "\<exists>raw. into_std env = Inr raw \<and> join_error env = None")
  case True
  then obtain raw where raw: "take_raw_fd env = Returns raw" "into_std env = Inr raw" "join_error env = None"
    by (auto simp: take_raw_fd_def)
  obtain r owned where c: "client_connect K (ctc_inner self) raw hostname = (r, owned)" by fastforce
  show ?thesis
  proof (cases r)
    case (Inl what)
    with c raw connect_error_not_owned(1) [of K "ctc_inner self" raw hostname what owned]
      client_connect_iff [of K "ctc_inner self" raw hostname] show ?thesis
      by (auto simp: connect_def give_up_def)
  next
    case (Inr conn)
    with c have "x509_store_new K \<and> x509_store_load_locations K (cx_caCertPath (ctc_inner self)) \<and> newSocket K raw = Inr ()"
      by (simp add: client_connect_iff)
    with Inr c raw show ?thesis
      by (auto simp: connect_def give_up_def Let_def split: prod.splits call.splits option.splits sum.splits)
  qed
next
  case False
  then show ?thesis
    by (cases "into_std env"; cases "join_error env") (auto simp: connect_def take_raw_fd_def give_up_def)
qed

end
