(* ===== verification/Fizz_Echo.thy ===== *)
theory Fizz_Echo
  imports Fizz_Tls
begin

text \<open>
  The workload of the benchmark \<open>src/crates/tls_bench_ablation/src/main.rs\<close>: the two echo loops, the
  tasks around them and the three Tokio runs. A task or a run may never end, so its result is an
  option with \<open>None\<close> for that; an \<open>anyhow::Error\<close> is the text it prints. What the network, the TLS
  libraries and Tokio's scheduler do is the environment of a run: the sockets that arrive, in order,
  and the tasks that end, in the order in which they do.
\<close>

section \<open>Streams\<close>

text \<open>
  What the peer sends, what happens after that, what was written so far, and the faults that a write
  or a flush runs into when that many bytes are written.
\<close>

datatype stream_end = PeerCloses | ReadFails string | PeerSilent

record stream =
  st_incoming :: "u8 list"
  st_end :: stream_end
  st_written :: "u8 list"
  st_write_fault :: "nat \<Rightarrow> string option"
  st_flush_fault :: "nat \<Rightarrow> string option"

definition read_exact :: "stream \<Rightarrow> nat \<Rightarrow> stream \<times> (string + u8 list) option" where
  "read_exact st n =
     (if n \<le> length (st_incoming st)
      then (st\<lparr>st_incoming := drop n (st_incoming st)\<rparr>, Some (Inr (take n (st_incoming st))))
      else (st\<lparr>st_incoming := []\<rparr>,
            case st_end st of
              PeerCloses \<Rightarrow> Some (Inl ''early eof'')
            | ReadFails e \<Rightarrow> Some (Inl e)
            | PeerSilent \<Rightarrow> None))"

definition write_all :: "stream \<Rightarrow> u8 list \<Rightarrow> stream \<times> (string + unit)" where
  "write_all st bs =
     (case st_write_fault st (length (st_written st)) of
        Some e \<Rightarrow> (st, Inl e)
      | None \<Rightarrow> (st\<lparr>st_written := st_written st @ bs\<rparr>, Inr ()))"

definition flush :: "stream \<Rightarrow> string + unit" where
  "flush st = (case st_flush_fault st (length (st_written st)) of Some e \<Rightarrow> Inl e | None \<Rightarrow> Inr ())"

section \<open>Echo loops\<close>

fun echo_serve :: "stream \<Rightarrow> nat \<Rightarrow> nat \<Rightarrow> stream \<times> (string + unit) option" where
  "echo_serve st batch_size 0 = (st, Some (Inr ()))"
| "echo_serve st batch_size (Suc rounds) =
     (case read_exact st batch_size of
        (st1, None) \<Rightarrow> (st1, None)
      | (st1, Some (Inl e)) \<Rightarrow> (st1, Some (Inl e))
      | (st1, Some (Inr buf)) \<Rightarrow>
          (case write_all st1 buf of
             (st2, Inl e) \<Rightarrow> (st2, Some (Inl e))
           | (st2, Inr _) \<Rightarrow>
               (case flush st2 of
                  Inl e \<Rightarrow> (st2, Some (Inl e))
                | Inr _ \<Rightarrow> echo_serve st2 batch_size rounds)))"

fun echo_client :: "stream \<Rightarrow> nat \<Rightarrow> nat \<Rightarrow> stream \<times> (string + unit) option" where
  "echo_client st batch_size 0 = (st, Some (Inr ()))"
| "echo_client st batch_size (Suc rounds) =
     (case write_all st (replicate batch_size 0x5A) of
        (st1, Inl e) \<Rightarrow> (st1, Some (Inl e))
      | (st1, Inr _) \<Rightarrow>
          (case flush st1 of
             Inl e \<Rightarrow> (st1, Some (Inl e))
           | Inr _ \<Rightarrow>
               (case read_exact st1 batch_size of
                  (st2, None) \<Rightarrow> (st2, None)
                | (st2, Some (Inl e)) \<Rightarrow> (st2, Some (Inl e))
                | (st2, Some (Inr read_back)) \<Rightarrow> echo_client st2 batch_size rounds)))"

section \<open>Tasks\<close>

text \<open>
  A task that never ends has no result; one that panics has a join error on the left. The client
  tasks make their socket first, and \<open>nodelay\<close> replaces the error by its context.
\<close>

type_synonym task_result = "(string + (string + unit)) option"

definition nodelay :: "string + unit \<Rightarrow> string + unit" where
  "nodelay set_nodelay = map_err (\<lambda>_. ''set TCP_NODELAY'') set_nodelay"

definition tcp_server_session :: "nat \<Rightarrow> nat \<Rightarrow> stream \<Rightarrow> task_result" where
  "tcp_server_session batch_size rounds stream =
     map_option Inr (snd (echo_serve stream batch_size rounds))"

record tcp_client =
  tc_connect :: "string + stream"
  tc_nodelay :: "string + unit"

definition tcp_client_session :: "nat \<Rightarrow> nat \<Rightarrow> tcp_client \<Rightarrow> task_result" where
  "tcp_client_session batch_size rounds c =
     (case and_then (tc_connect c) (\<lambda>stream. and_then (nodelay (tc_nodelay c)) (\<lambda>_. Inr stream)) of
        Inl e \<Rightarrow> Some (Inr (Inl e))
      | Inr stream \<Rightarrow> map_option Inr (snd (echo_client stream batch_size rounds)))"

text \<open>With rustls the acceptor and the connector turn the socket into a stream, or never answer.\<close>

definition rustls_server_session :: "nat \<Rightarrow> nat \<Rightarrow> (string + stream) option \<Rightarrow> task_result" where
  "rustls_server_session batch_size rounds accepted =
     (case accepted of
        None \<Rightarrow> None
      | Some (Inl e) \<Rightarrow> Some (Inr (Inl e))
      | Some (Inr tls) \<Rightarrow> map_option Inr (snd (echo_serve tls batch_size rounds)))"

record rustls_client =
  rc_connect :: "string + unit"
  rc_nodelay :: "string + unit"
  rc_tls :: "(string + stream) option"

definition rustls_client_session :: "nat \<Rightarrow> nat \<Rightarrow> rustls_client \<Rightarrow> task_result" where
  "rustls_client_session batch_size rounds c =
     (case and_then (rc_connect c) (\<lambda>_. nodelay (rc_nodelay c)) of
        Inl e \<Rightarrow> Some (Inr (Inl e))
      | Inr _ \<Rightarrow>
          (case rc_tls c of
             None \<Rightarrow> None
           | Some (Inl e) \<Rightarrow> Some (Inr (Inl e))
           | Some (Inr tls) \<Rightarrow> map_option Inr (snd (echo_client tls batch_size rounds))))"

text \<open>
  With fizz the stream is the connection that \<open>accept_from_stream\<close> or \<open>connect\<close> returns;
  \<open>fz_stream\<close> is how that connection then behaves as a stream.
\<close>

record 'x fizz_peer =
  fz_tcp :: "string + unit"
  fz_nodelay :: "string + unit"
  fz_env :: "'x tls_env"
  fz_store :: slot_store
  fz_stream :: stream

definition tls_step ::
  "(FizzError + 'r) call \<Rightarrow> (string + unit) option \<Rightarrow> task_result" where
  "tls_step answer echo =
     (case answer of
        Blocks \<Rightarrow> None
      | Throws e \<Rightarrow> Some (Inl e)
      | Returns (Inl e) \<Rightarrow> Some (Inr (Inl (error_display e)))
      | Returns (Inr _) \<Rightarrow> map_option Inr echo)"

definition fizz_server_session ::
  "('x, 'k, 't, 's, 'p, 'd) tls_crypto \<Rightarrow> ('s, 'd) ServerTlsContext \<Rightarrow> nat \<Rightarrow> nat \<Rightarrow> 'x fizz_peer
     \<Rightarrow> task_result" where
  "fizz_server_session K ctx batch_size rounds c =
     tls_step (to_value (accept_from_stream K (fz_env c) (fz_store c) ctx))
       (snd (echo_serve (fz_stream c) batch_size rounds))"

definition fizz_client_session ::
  "('x, 'k, 't, 's, 'p, 'd) tls_crypto \<Rightarrow> ClientTlsContext \<Rightarrow> nat \<Rightarrow> nat \<Rightarrow> 'x fizz_peer
     \<Rightarrow> task_result" where
  "fizz_client_session K ctx batch_size rounds c =
     (case and_then (fz_tcp c) (\<lambda>_. nodelay (fz_nodelay c)) of
        Inl e \<Rightarrow> Some (Inr (Inl e))
      | Inr _ \<Rightarrow>
          tls_step (to_value (connect K (fz_env c) (fz_store c) ctx ''localhost''))
            (snd (echo_client (fz_stream c) batch_size rounds)))"

text \<open>
  \<open>while let Some(r) = set.join_next().await { r??; }\<close> over a set of \<open>n\<close> tasks: \<open>ended\<close> lists the
  results of the tasks that end, in that order. An error returns at once; a set that is not
  empty and has no further task that ends is waited for without end.
\<close>

fun join_tasks :: "(string + (string + unit)) list \<Rightarrow> nat \<Rightarrow> (string + unit) option" where
  "join_tasks ended 0 = Some (Inr ())"
| "join_tasks [] (Suc n) = None"
| "join_tasks (r # ended) (Suc n) =
     (case and_then r (\<lambda>x. x) of Inl e \<Rightarrow> Some (Inl e) | Inr _ \<Rightarrow> join_tasks ended n)"

text \<open>The accept loop: each socket that arrives, or an error of \<open>accept\<close>, and what \<open>set_nodelay\<close> says.\<close>

fun accept_loop :: "(string + (string + unit)) list \<Rightarrow> nat \<Rightarrow> (string + unit) option" where
  "accept_loop arrivals 0 = Some (Inr ())"
| "accept_loop [] (Suc n) = None"
| "accept_loop (r # arrivals) (Suc n) =
     (case and_then r nodelay of Inl e \<Rightarrow> Some (Inl e) | Inr _ \<Rightarrow> accept_loop arrivals n)"

section \<open>Runs\<close>

text \<open>
  The environment of one run: what the listener's calls answer, the sockets that arrive at it, and the
  tasks of both sides in the order in which they end, which is the scheduler's choice; tasks that
  never end may stand anywhere. \<open>re_server_join\<close> is the join error of the server's own task.
\<close>

record ('s, 'c) run_env =
  re_bind :: "string + unit"
  re_set_nonblocking :: "string + unit"
  re_local_addr :: "string + unit"
  re_from_std :: "string + unit"
  re_arrivals :: "(string + (string + unit)) list"
  re_server_tasks :: "'s list"
  re_client_tasks :: "'c list"
  re_server_join :: "string option"

definition bind_listener :: "('s, 'c) run_env \<Rightarrow> string + unit" where
  "bind_listener env =
     and_then (re_bind env) (\<lambda>_. and_then (re_set_nonblocking env) (\<lambda>_. re_local_addr env))"

definition server_task ::
  "('s, 'c) run_env \<Rightarrow> ('s \<Rightarrow> task_result) \<Rightarrow> nat \<Rightarrow> (string + unit) option" where
  "server_task env session pairs =
     (case re_from_std env of
        Inl e \<Rightarrow> Some (Inl e)
      | Inr _ \<Rightarrow>
          (case accept_loop (re_arrivals env) pairs of
             None \<Rightarrow> None
           | Some (Inl e) \<Rightarrow> Some (Inl e)
           | Some (Inr _) \<Rightarrow>
               join_tasks (List.map_filter session (re_server_tasks env)) pairs))"

definition client_task ::
  "('s, 'c) run_env \<Rightarrow> ('c \<Rightarrow> task_result) \<Rightarrow> nat \<Rightarrow> (string + unit) option" where
  "client_task env session pairs =
     join_tasks (List.map_filter session (re_client_tasks env)) pairs"

text \<open>
  \<open>block_on\<close> of the client, then \<open>block_on\<close> of the server handle, and only then the two results:
  the end that the three runs share.
\<close>

definition run_pairs ::
  "('s, 'c) run_env \<Rightarrow> ('s \<Rightarrow> task_result) \<Rightarrow> ('c \<Rightarrow> task_result) \<Rightarrow> nat \<Rightarrow> (string + unit) option" where
  "run_pairs env server client pairs =
     (case client_task env client pairs of
        None \<Rightarrow> None
      | Some client_result \<Rightarrow>
          (case (case re_server_join env of
                   Some e \<Rightarrow> Some (Inl e)
                 | None \<Rightarrow> map_option Inr (server_task env server pairs)) of
             None \<Rightarrow> None
           | Some server_result \<Rightarrow>
               Some (and_then client_result (\<lambda>_.
                 and_then (map_err (\<lambda>_. ''server join'') server_result) (\<lambda>r. r)))))"

definition run_tcp ::
  "(stream, tcp_client) run_env \<Rightarrow> nat \<Rightarrow> nat \<Rightarrow> nat \<Rightarrow> (string + unit) option" where
  "run_tcp env pairs batch_size rounds =
     (case bind_listener env of
        Inl e \<Rightarrow> Some (Inl e)
      | Inr _ \<Rightarrow>
          run_pairs env (tcp_server_session batch_size rounds)
            (tcp_client_session batch_size rounds) pairs)"

definition run_rustls ::
  "((string + stream) option, rustls_client) run_env \<Rightarrow> string + unit \<Rightarrow> nat \<Rightarrow> nat \<Rightarrow> nat
     \<Rightarrow> (string + unit) option" where
  "run_rustls env server_name pairs batch_size rounds =
     (case bind_listener env of
        Inl e \<Rightarrow> Some (Inl e)
      | Inr _ \<Rightarrow>
          (case map_err (\<lambda>_. ''invalid ServerName'') server_name of
             Inl e \<Rightarrow> Some (Inl e)
           | Inr _ \<Rightarrow>
               run_pairs env (rustls_server_session batch_size rounds)
                 (rustls_client_session batch_size rounds) pairs))"

definition run_fizz ::
  "('x, 'k, 't, 's, 'p, 'd) tls_crypto \<Rightarrow> ('x fizz_peer, 'x fizz_peer) run_env
     \<Rightarrow> ('s, 'd) ServerTlsContext \<Rightarrow> ClientTlsContext \<Rightarrow> nat \<Rightarrow> nat \<Rightarrow> nat \<Rightarrow> (string + unit) option" where
  "run_fizz K env server_ctx client_ctx pairs batch_size rounds =
     (case bind_listener env of
        Inl e \<Rightarrow> Some (Inl e)
      | Inr _ \<Rightarrow>
          run_pairs env (fizz_server_session K server_ctx batch_size rounds)
            (fizz_client_session K client_ctx batch_size rounds) pairs)"

section \<open>Streams without faults\<close>

text \<open>
  What the echo loops do to any stream: the server has written back a whole number of batches of what it
  received, in order; the client a whole number of batches of its filler.
\<close>

definition clean :: "stream \<Rightarrow> bool" where
  "clean st \<longleftrightarrow> (\<forall>n. st_write_fault st n = None) \<and> (\<forall>n. st_flush_fault st n = None)"

lemma echo_serve_writes:
  "\<exists>k \<le> rounds. st_written (fst (echo_serve st b rounds)) = st_written st @ take (k * b) (st_incoming st)
     \<and> (snd (echo_serve st b rounds) = Some (Inr ()) \<longrightarrow>
          k = rounds \<and> rounds * b \<le> length (st_incoming st))"
proof (induction rounds arbitrary: st)
  case 0
  then show ?case by simp
next
  case (Suc rounds)
  show ?case
  proof (cases "b \<le> length (st_incoming st) \<and> st_write_fault st (length (st_written st)) = None")
    case True
    define st2 where "st2 = st\<lparr>st_incoming := drop b (st_incoming st),
      st_written := st_written st @ take b (st_incoming st)\<rparr>"
    from Suc [of st2] obtain k where k: "k \<le> rounds"
      "st_written (fst (echo_serve st2 b rounds)) = st_written st @ take (b + k * b) (st_incoming st)"
      "snd (echo_serve st2 b rounds) = Some (Inr ()) \<longrightarrow>
         k = rounds \<and> rounds * b \<le> length (st_incoming st) - b"
      by (auto simp: st2_def take_add)
    show ?thesis
    proof (cases "flush st2")
      case (Inl e)
      with True show ?thesis
        by (intro exI [of _ 1]) (simp add: read_exact_def write_all_def st2_def)
    next
      case (Inr u)
      with True k show ?thesis
        by (intro exI [of _ "Suc k"]) (auto simp: read_exact_def write_all_def st2_def)
    qed
  next
    case False
    then show ?thesis
      by (intro exI [of _ 0])
        (auto simp: read_exact_def write_all_def split: option.splits stream_end.splits)
  qed
qed

lemma clean_update [simp]:
  "clean (st\<lparr>st_incoming := xs\<rparr>) = clean st" "clean (st\<lparr>st_written := ys\<rparr>) = clean st"
  by (simp_all add: clean_def)

lemma clean_write_all: "clean st \<Longrightarrow> write_all st bs = (st\<lparr>st_written := st_written st @ bs\<rparr>, Inr ())"
  by (simp add: clean_def write_all_def)

lemma clean_flush: "clean st \<Longrightarrow> flush st = Inr ()"
  by (simp add: clean_def flush_def)

lemmas clean_ops = clean_write_all clean_flush read_exact_def

text \<open>The number of whole batches in the input decides how far both loops get.\<close>

lemma div_drop: "0 < b \<Longrightarrow> b \<le> length xs \<Longrightarrow> length xs div b = Suc (length (drop b xs) div b)"
  by (simp add: le_div_geq)

lemma echo_serve_clean:
  assumes "clean st" "0 < b"
  shows "st_written (fst (echo_serve st b rounds)) =
           st_written st @ take (min rounds (length (st_incoming st) div b) * b) (st_incoming st)
         \<and> (snd (echo_serve st b rounds) = Some (Inr ()) \<longleftrightarrow> rounds \<le> length (st_incoming st) div b)"
  using assms
proof (induction rounds arbitrary: st)
  case 0
  then show ?case by simp
next
  case (Suc rounds)
  show ?case
  proof (cases "b \<le> length (st_incoming st)")
    case True
    with Suc.IH [of "st\<lparr>st_incoming := drop b (st_incoming st),
        st_written := st_written st @ take b (st_incoming st)\<rparr>"] Suc.prems
    show ?thesis
      by (simp add: clean_ops div_drop take_add)
  next
    case False
    with Suc.prems show ?thesis
      by (auto simp: clean_ops split: stream_end.splits)
  qed
qed

lemma echo_client_clean:
  assumes "clean st" "0 < b"
  shows "st_written (fst (echo_client st b rounds)) =
           st_written st @ replicate (min rounds (Suc (length (st_incoming st) div b)) * b) 0x5A
         \<and> (snd (echo_client st b rounds) = Some (Inr ()) \<longleftrightarrow> rounds \<le> length (st_incoming st) div b)"
  using assms
proof (induction rounds arbitrary: st)
  case 0
  then show ?case by simp
next
  case (Suc rounds)
  show ?case
  proof (cases "b \<le> length (st_incoming st)")
    case True
    with Suc.IH [of "st\<lparr>st_written := st_written st @ replicate b 0x5A,
        st_incoming := drop b (st_incoming st)\<rparr>"] Suc.prems
    show ?thesis
      by (simp add: clean_ops div_drop replicate_add)
  next
    case False
    with Suc.prems show ?thesis
      by (auto simp: clean_ops split: stream_end.splits)
  qed
qed

section \<open>Joining\<close>

text \<open>
  \<open>all_ok n xs\<close>: there are at least \<open>n\<close> results and the first \<open>n\<close> are all success. Both loops over the
  tasks and over the sockets succeed exactly then.
\<close>

definition all_ok :: "nat \<Rightarrow> ('e + 'a) list \<Rightarrow> bool" where
  "all_ok n xs \<longleftrightarrow> n \<le> length xs \<and> (\<forall>r \<in> set (take n xs). is_ok r)"

lemma all_ok_simps [simp]:
  "all_ok 0 xs" "\<not> all_ok (Suc n) []" "all_ok (Suc n) (r # xs) \<longleftrightarrow> is_ok r \<and> all_ok n xs"
  by (auto simp: all_ok_def)

lemma join_tasks_ok_iff:
  "join_tasks ended n = Some (Inr ()) \<longleftrightarrow> all_ok n (map (\<lambda>r. and_then r (\<lambda>x. x)) ended)"
  by (induction ended n rule: join_tasks.induct) (auto simp: res_simps split: sum.splits)

lemma accept_loop_ok_iff:
  "accept_loop arrivals n = Some (Inr ()) \<longleftrightarrow> all_ok n (map (\<lambda>r. and_then r nodelay) arrivals)"
  by (induction arrivals n rule: accept_loop.induct) (auto simp: res_simps split: sum.splits)

text \<open>They wait without end exactly when all that comes is success, and too little of it.\<close>

lemma join_tasks_waits_iff:
  "join_tasks ended n = None \<longleftrightarrow>
     length ended < n \<and> all_ok (length ended) (map (\<lambda>r. and_then r (\<lambda>x. x)) ended)"
  by (induction ended n rule: join_tasks.induct) (auto simp: res_simps split: sum.splits)

lemma accept_loop_waits_iff:
  "accept_loop arrivals n = None \<longleftrightarrow>
     length arrivals < n \<and> all_ok (length arrivals) (map (\<lambda>r. and_then r nodelay) arrivals)"
  by (induction arrivals n rule: accept_loop.induct) (auto simp: res_simps split: sum.splits)

text \<open>A run, step by step.\<close>

lemma run_pairs_ok_iff:
  "run_pairs env server client pairs = Some (Inr ()) \<longleftrightarrow>
     client_task env client pairs = Some (Inr ()) \<and> re_server_join env = None
     \<and> server_task env server pairs = Some (Inr ())"
  by (cases "client_task env client pairs"; cases "server_task env server pairs")
    (auto simp: run_pairs_def res_simps split: option.splits)

lemma server_task_ok_iff:
  "server_task env session pairs = Some (Inr ()) \<longleftrightarrow>
     is_ok (re_from_std env)
     \<and> all_ok pairs (map (\<lambda>r. and_then r nodelay) (re_arrivals env))
     \<and> all_ok pairs (map (\<lambda>r. and_then r (\<lambda>x. x)) (List.map_filter session (re_server_tasks env)))"
  by (auto simp: server_task_def accept_loop_ok_iff [symmetric] join_tasks_ok_iff [symmetric]
      split: sum.splits option.splits)

lemma bind_listener_ok_iff:
  "is_ok (bind_listener env) \<longleftrightarrow>
     is_ok (re_bind env) \<and> is_ok (re_set_nonblocking env) \<and> is_ok (re_local_addr env)"
  by (auto simp: bind_listener_def res_simps)

section \<open>A concrete instance\<close>

definition sample_stream :: "u8 list \<Rightarrow> stream" where
  "sample_stream bs =
     \<lparr>st_incoming = bs, st_end = PeerCloses, st_written = [],
      st_write_fault = (\<lambda>_. None), st_flush_fault = (\<lambda>_. None)\<rparr>"

definition sample_refused :: "(stream, tcp_client) run_env" where
  "sample_refused =
     \<lparr>re_bind = Inr (), re_set_nonblocking = Inr (), re_local_addr = Inr (), re_from_std = Inr (),
      re_arrivals = [Inr (Inr ())],
      re_server_tasks = [sample_stream (replicate 4 0x5A)],
      re_client_tasks =
        [\<lparr>tc_connect = Inl ''Too many open files'', tc_nodelay = Inr ()\<rparr>,
         \<lparr>tc_connect = Inr (sample_stream (replicate 4 0x5A)), tc_nodelay = Inr ()\<rparr>],
      re_server_join = None\<rparr>"

lemma sample_stream_fields [simp]:
  "clean (sample_stream bs)" "st_incoming (sample_stream bs) = bs" "st_written (sample_stream bs) = []"
  by (simp_all add: clean_def sample_stream_def)

section \<open>Properties\<close>

text \<open>When the connection delivers to each side what the other wrote and nothing else, and
  writing does not fail, a client and a server that agree on the size and number of batches both
  finish: neither waits for bytes that the other only sends later, and exactly
  \<open>rounds * batch_size\<close> filler bytes go each way.\<close>

theorem echo_conversation_completes:
  assumes "clean c" "clean s" "st_written c = []" "st_written s = []"
    and "st_incoming s = st_written (fst (echo_client c batch_size rounds))"
    and "st_incoming c = st_written (fst (echo_serve s batch_size rounds))"
    and "0 < batch_size"
  shows "snd (echo_client c batch_size rounds) = Some (Inr ())
    \<and> snd (echo_serve s batch_size rounds) = Some (Inr ())
    \<and> st_written (fst (echo_client c batch_size rounds)) = replicate (rounds * batch_size) 0x5A
    \<and> st_written (fst (echo_serve s batch_size rounds)) = replicate (rounds * batch_size) 0x5A"
proof -
  define kc where "kc = min rounds (Suc (length (st_incoming c) div batch_size))"
  define ks where "ks = min rounds (length (st_incoming s) div batch_size)"
  have inc_s: "st_incoming s = replicate (kc * batch_size) 0x5A"
    using echo_client_clean [of c batch_size rounds] assms by (simp add: kc_def)
  have "ks = kc" using \<open>0 < batch_size\<close> unfolding ks_def inc_s by (simp add: kc_def)
  have "st_incoming c = take (ks * batch_size) (st_incoming s)"
    using echo_serve_clean [of s batch_size rounds] assms(2,4,6,7) by (simp add: ks_def)
  then have inc_c: "st_incoming c = replicate (kc * batch_size) 0x5A"
    unfolding \<open>ks = kc\<close> inc_s by simp
  have "length (st_incoming c) div batch_size = kc" using \<open>0 < batch_size\<close> by (simp add: inc_c)
  with kc_def have "kc = min rounds (Suc kc)" by simp
  then have "kc = rounds" by (auto simp: min_def split: if_splits)
  then show ?thesis
    using echo_client_clean [of c batch_size rounds] echo_serve_clean [of s batch_size rounds] assms
    by (simp add: inc_c inc_s)
qed

theorem echo_conversation_completes_witness:
  "snd (echo_client (sample_stream (replicate 6 0x5A)) 2 3) = Some (Inr ())
    \<and> snd (echo_serve (sample_stream (replicate 6 0x5A)) 2 3) = Some (Inr ())
    \<and> st_written (fst (echo_client (sample_stream (replicate 6 0x5A)) 2 3)) = replicate (3 * 2) 0x5A
    \<and> st_written (fst (echo_serve (sample_stream (replicate 6 0x5A)) 2 3)) = replicate (3 * 2) 0x5A"
proof (rule echo_conversation_completes)
  show "st_incoming (sample_stream (replicate 6 0x5A)) =
      st_written (fst (echo_client (sample_stream (replicate 6 0x5A)) 2 3))"
    using echo_client_clean [of "sample_stream (replicate 6 0x5A)" 2 3] by simp
  show "st_incoming (sample_stream (replicate 6 0x5A)) =
      st_written (fst (echo_serve (sample_stream (replicate 6 0x5A)) 2 3))"
    using echo_serve_clean [of "sample_stream (replicate 6 0x5A)" 2 3] by simp
qed simp_all

text \<open>A run of the fizz backend reports success exactly when the listener is bound, enough sockets
  arrive and take the option, and the first \<open>pairs\<close> tasks that end on each side all end well;
  a single failed session on either side is never reported as success.\<close>

theorem run_fizz_ok_iff:
  "run_fizz K env server_ctx client_ctx pairs batch_size rounds = Some (Inr ()) \<longleftrightarrow>
     is_ok (re_bind env) \<and> is_ok (re_set_nonblocking env) \<and> is_ok (re_local_addr env)
     \<and> is_ok (re_from_std env) \<and> re_server_join env = None
     \<and> all_ok pairs (map (\<lambda>r. and_then r nodelay) (re_arrivals env))
     \<and> all_ok pairs (map (\<lambda>r. and_then r (\<lambda>x. x))
         (List.map_filter (fizz_server_session K server_ctx batch_size rounds) (re_server_tasks env)))
     \<and> all_ok pairs (map (\<lambda>r. and_then r (\<lambda>x. x))
         (List.map_filter (fizz_client_session K client_ctx batch_size rounds) (re_client_tasks env)))"
proof (cases "bind_listener env")
  case (Inl e)
  then have "\<not> is_ok (bind_listener env)" by simp
  with Inl show ?thesis unfolding bind_listener_ok_iff by (auto simp: run_fizz_def)
next
  case (Inr u)
  then have "is_ok (bind_listener env)" by simp
  with Inr show ?thesis unfolding bind_listener_ok_iff
    by (auto simp: run_fizz_def run_pairs_ok_iff server_task_ok_iff client_task_def join_tasks_ok_iff)
qed

text \<open>C36. A client that fails leaves the run waiting: when the first task to end fails and fewer than
  \<open>pairs\<close> sockets ever arrive at the listener, the run does not report the error but never
  returns, because it waits for the server before it looks at the client's result.\<close>

theorem failed_client_hangs_run:
  assumes "is_ok (bind_listener env)" "is_ok (re_from_std env)" "re_server_join env = None"
    and "client_task env (tcp_client_session batch_size rounds) pairs = Some (Inl e)"
    and "length (re_arrivals env) < pairs"
    and "all_ok (length (re_arrivals env)) (map (\<lambda>r. and_then r nodelay) (re_arrivals env))"
  shows "run_tcp env pairs batch_size rounds = None"
proof -
  have "accept_loop (re_arrivals env) pairs = None"
    using assms by (simp add: accept_loop_waits_iff)
  then have "server_task env (tcp_server_session batch_size rounds) pairs = None"
    using assms by (auto simp: server_task_def is_ok_iff)
  with assms show ?thesis
    by (auto simp: run_tcp_def run_pairs_def is_ok_iff)
qed

theorem failed_client_hangs_run_witness:
  "run_tcp sample_refused 2 2 2 = None
   \<and> client_task sample_refused (tcp_client_session 2 2) 2 = Some (Inl ''Too many open files'')"
proof -
  have c: "client_task sample_refused (tcp_client_session 2 2) 2 = Some (Inl ''Too many open files'')"
    by (simp add: client_task_def sample_refused_def tcp_client_session_def List.map_filter_simps
        numeral_2_eq_2)
  have "run_tcp sample_refused 2 2 2 = None"
    by (rule failed_client_hangs_run [OF _ _ _ c])
      (simp_all add: sample_refused_def bind_listener_def nodelay_def)
  with c show ?thesis by simp
qed

end
