(* ===== verification/Fizz_Cpp_Session.thy ===== *)
theory Fizz_Cpp_Session
  imports Fizz_Tls
begin

text \<open>
  The two session classes of the C++ benchmark \<open>src/src/ffi/cpp_bench.cpp\<close>, \<open>EchoServerSession\<close> and
  \<open>EchoClientSession\<close>: objects driven by the callbacks of their transport on one event-base thread,
  which resolve a promise and destroy themselves when they are through. Every callback is a
  function on the session; the order in which fizz and folly make the calls is a step relation.
\<close>

unbundle bit_operations_syntax

section \<open>State\<close>

datatype es_call =
    EsAccept
  | EsConnect "string option"
  | EsSetReadCB bool
  | EsWriteChain "u8 list"
  | EsClose
  | EsCloseNow

text \<open>
  The fields of both classes. \<open>es_done\<close> is what the promise was resolved with so far,
  \<open>es_scheduled\<close> how many closures of \<open>runInLoop\<close> wait for their turn, \<open>es_destroyed\<close> whether one has
  run. The last three fields record the environment and no operation reads them: whether the
  handshake was reported, the bytes the transport handed over, and the write callbacks it made.
\<close>

record EchoSession =
  es_batchSize :: u64
  es_reads_remaining :: u64
  es_writes_in_flight :: u64
  es_stopped :: bool
  es_finished :: bool
  es_error_msg :: "string option"
  es_done :: "(string + unit) list"
  es_readQueue :: chain
  es_calls :: "es_call list"
  es_scheduled :: nat
  es_destroyed :: bool
  es_reported :: bool
  es_received :: "u8 list"
  es_callbacks :: nat

record EchoClientSession = EchoSession +
  cs_ctx :: FizzClientContext
  cs_sni :: string
  cs_sendBuf :: "u8 list"

definition es_call :: "es_call \<Rightarrow> 'a EchoSession_scheme \<Rightarrow> 'a EchoSession_scheme" where
  "es_call c s = s\<lparr>es_calls := es_calls s @ [c]\<rparr>"

definition EchoServerSession_new :: "u64 \<Rightarrow> u64 \<Rightarrow> EchoSession" where
  "EchoServerSession_new batchSize rounds =
     \<lparr>es_batchSize = batchSize, es_reads_remaining = rounds, es_writes_in_flight = 0,
      es_stopped = False, es_finished = False, es_error_msg = None, es_done = [],
      es_readQueue = [], es_calls = [], es_scheduled = 0, es_destroyed = False,
      es_reported = False, es_received = [], es_callbacks = 0\<rparr>"

definition EchoClientSession_new ::
  "FizzClientContext \<Rightarrow> string \<Rightarrow> u64 \<Rightarrow> u64 \<Rightarrow> EchoClientSession" where
  "EchoClientSession_new ctx sni batchSize rounds =
     EchoSession.extend (EchoServerSession_new batchSize rounds)
       (EchoClientSession.fields ctx sni (replicate (unat batchSize) 0x5A))"

definition ess_start :: "EchoSession \<Rightarrow> EchoSession" where
  "ess_start s = es_call EsAccept s"

definition ecs_start :: "EchoClientSession \<Rightarrow> EchoClientSession" where
  "ecs_start s = es_call (EsConnect (if cs_sni s = [] then None else Some (cs_sni s))) s"

section \<open>Finishing\<close>

text \<open>The private functions, the same in both classes.\<close>

definition maybeFinish :: "'a EchoSession_scheme \<Rightarrow> 'a EchoSession_scheme" where
  "maybeFinish s =
     (if es_finished s then s
      else if \<not> es_stopped s then s
      else if 0 < es_writes_in_flight s then s
      else s\<lparr>es_finished := True, es_scheduled := Suc (es_scheduled s)\<rparr>)"

definition setError :: "string \<Rightarrow> 'a EchoSession_scheme \<Rightarrow> 'a EchoSession_scheme" where
  "setError msg s =
     maybeFinish (s\<lparr>es_error_msg := (case es_error_msg s of None \<Rightarrow> Some msg | Some m \<Rightarrow> Some m),
                    es_stopped := True\<rparr>)"

text \<open>The closure given to \<open>runInLoop\<close>; \<open>good\<close> is the transport's answer after the calls so far.\<close>

definition es_finish_in_loop ::
  "(es_call list \<Rightarrow> bool) \<Rightarrow> 'a EchoSession_scheme \<Rightarrow> 'a EchoSession_scheme" where
  "es_finish_in_loop good s =
     (let s1 = es_call (EsSetReadCB False) s;
          s2 = (if good (es_calls s1) then es_call EsClose s1 else s1);
          r = (case es_error_msg s2 of Some m \<Rightarrow> Inl m | None \<Rightarrow> Inr ())
      in s2\<lparr>es_done := es_done s2 @ [r], es_scheduled := es_scheduled s2 - 1, es_destroyed := True\<rparr>)"

section \<open>Writing\<close>

definition es_writeSuccess :: "'a EchoSession_scheme \<Rightarrow> 'a EchoSession_scheme" where
  "es_writeSuccess s =
     maybeFinish (s\<lparr>es_writes_in_flight := es_writes_in_flight s - 1,
                    es_callbacks := Suc (es_callbacks s)\<rparr>)"

definition es_writeErr :: "string \<Rightarrow> string \<Rightarrow> 'a EchoSession_scheme \<Rightarrow> 'a EchoSession_scheme" where
  "es_writeErr side what s =
     setError (side @ '' write: '' @ what)
       (s\<lparr>es_writes_in_flight := es_writes_in_flight s - 1, es_callbacks := Suc (es_callbacks s)\<rparr>)"

text \<open>
  A transport may make the write callback before \<open>writeChain\<close> returns or later; which of them is a
  parameter, the answer to the calls made so far.
\<close>

datatype write_outcome = WriteLater | WriteDone | WriteFailed string

definition es_writeChain ::
  "(es_call list \<Rightarrow> write_outcome) \<Rightarrow> string \<Rightarrow> u8 list \<Rightarrow> 'a EchoSession_scheme
     \<Rightarrow> 'a EchoSession_scheme" where
  "es_writeChain io side bs s =
     (let s' = es_call (EsWriteChain bs) s
      in case io (es_calls s') of
           WriteLater \<Rightarrow> s'
         | WriteDone \<Rightarrow> es_writeSuccess s'
         | WriteFailed what \<Rightarrow> es_writeErr side what s')"

lemma reads_remaining_kept [simp]:
  "es_reads_remaining (maybeFinish s) = es_reads_remaining s"
  "es_reads_remaining (setError m s) = es_reads_remaining s"
  "es_reads_remaining (es_writeSuccess s) = es_reads_remaining s"
  "es_reads_remaining (es_writeErr side what s) = es_reads_remaining s"
  "es_reads_remaining (es_call c s) = es_reads_remaining s"
  "es_reads_remaining (es_writeChain io side bs s) = es_reads_remaining s"
  by (auto simp: maybeFinish_def setError_def es_writeSuccess_def es_writeErr_def es_call_def
      es_writeChain_def Let_def split: write_outcome.splits)

lemma unat_dec_less: "x \<noteq> 0 \<Longrightarrow> unat (x - 1) < unat (x :: u64)"
  by (metis Suc_pred' diff_Suc_1 lessI unat_minus_one unat_gt_0)

section \<open>Server callbacks\<close>

definition ess_fizzHandshakeSuccess :: "EchoSession \<Rightarrow> EchoSession" where
  "ess_fizzHandshakeSuccess s =
     (let s1 = es_call (EsSetReadCB True) s
      in if es_reads_remaining s1 = 0 then maybeFinish (s1\<lparr>es_stopped := True\<rparr>) else s1)"

definition ess_fizzHandshakeError :: "string \<Rightarrow> EchoSession \<Rightarrow> EchoSession" where
  "ess_fizzHandshakeError what s = setError (''server handshake: '' @ what) s"

definition ess_fizzHandshakeAttemptFallback :: "EchoSession \<Rightarrow> EchoSession" where
  "ess_fizzHandshakeAttemptFallback s = setError ''server handshake: fallback requested'' s"

text \<open>
  The echo loop. \<open>None\<close> is an exception of \<open>split\<close>, which ends the process because the callback is
  \<open>noexcept\<close>.
\<close>

function ess_echo_loop ::
  "iobq \<Rightarrow> (es_call list \<Rightarrow> write_outcome) \<Rightarrow> EchoSession \<Rightarrow> EchoSession option" where
  "ess_echo_loop Q io s =
     (if unat (es_batchSize s) \<le> length (concat (es_readQueue s)) \<and> es_reads_remaining s \<noteq> 0
      then (case split Q (unat (es_batchSize s)) (es_readQueue s) of
              Inl what \<Rightarrow> None
            | Inr (data, rest) \<Rightarrow>
                ess_echo_loop Q io (es_writeChain io ''server'' (concat data)
                  (s\<lparr>es_readQueue := rest,
                     es_writes_in_flight := es_writes_in_flight s + 1,
                     es_reads_remaining := es_reads_remaining s - 1\<rparr>)))
      else Some s)"
  by pat_completeness auto

termination
  by (relation "measure (\<lambda>(Q, io, s). unat (es_reads_remaining s))") (auto simp: unat_dec_less)

declare ess_echo_loop.simps [simp del]

definition ess_readDataAvailable ::
  "iobq \<Rightarrow> (es_call list \<Rightarrow> write_outcome) \<Rightarrow> EchoSession \<Rightarrow> u8 list \<Rightarrow> EchoSession option" where
  "ess_readDataAvailable Q io s bs =
     map_option
       (\<lambda>s'. if es_reads_remaining s' = 0 \<and> \<not> es_stopped s'
             then maybeFinish (s'\<lparr>es_stopped := True\<rparr>) else s')
       (ess_echo_loop Q io (s\<lparr>es_readQueue := postallocate Q (es_readQueue s) bs,
                              es_received := es_received s @ bs\<rparr>))"

text \<open>\<open>readEOF\<close> and \<open>readErr\<close> of both classes differ in the name of the side in the text.\<close>

definition es_readEOF :: "string \<Rightarrow> 'a EchoSession_scheme \<Rightarrow> 'a EchoSession_scheme" where
  "es_readEOF side s =
     (if 0 < es_reads_remaining s then setError (side @ '': peer closed mid-stream'') s
      else if \<not> es_stopped s then maybeFinish (s\<lparr>es_stopped := True\<rparr>)
      else s)"

definition es_readErr :: "string \<Rightarrow> string \<Rightarrow> 'a EchoSession_scheme \<Rightarrow> 'a EchoSession_scheme" where
  "es_readErr side what s = setError (side @ '' read: '' @ what) s"

section \<open>Client callbacks\<close>

text \<open>
  The hexadecimal encoder local to \<open>verify_peer_dc\<close>: a text of twice the length, filled in place digit by digit
  from a table.
\<close>

definition bench_lut :: string where
  "bench_lut = ''0123456789abcdef''"

definition bench_hex_put :: "u8 list \<Rightarrow> nat \<Rightarrow> string \<Rightarrow> string" where
  "bench_hex_put r i out =
     out[2 * i := bench_lut ! unat (drop_bit 4 (r ! i) AND 0xF), 2 * i + 1 := bench_lut ! unat (r ! i AND 0xF)]"

definition bench_bytes_to_hex :: "u8 list \<Rightarrow> string" where
  "bench_bytes_to_hex r = fold (bench_hex_put r) [0..<length r] (replicate (length r * 2) (CHR 0x00))"

text \<open>\<open>verify_peer_dc\<close>: the returned text, empty for a match, or an exception of the library.\<close>

definition verify_peer_dc ::
  "('x, 'k, 't, 's, 'p, 'd) tls_crypto \<Rightarrow> FizzClientContext \<Rightarrow> 'x \<Rightarrow> fizz_credential
     \<Rightarrow> string + string" where
  "verify_peer_dc K ctx leaf dc =
     (if bench_bytes_to_hex (fz_public_key dc) \<noteq> cx_publicKeyDer ctx
      then Inr ''DC public key does not match VerificationInfo''
      else if fz_valid_time dc \<noteq> cx_validTime ctx
      then Inr ''DC valid_time does not match VerificationInfo''
      else if fz_expected_verify_scheme dc \<noteq> cx_expectedVerifyScheme ctx
      then Inr ''DC verify scheme does not match VerificationInfo''
      else and_then (getCredentialExpiresTime K leaf dc) (\<lambda>expTp.
        if of_nat (ticks expTp div hz expTp) \<noteq> cx_expiresAt ctx
        then Inr ''DC expiry does not match VerificationInfo''
        else Inr []))"

text \<open>The local encoder writes what the library's encoder writes.\<close>

lemma bench_hex_put_digits:
  "bench_hex_put r i out = out[2 * i := hex_char (unat (r ! i) div 16), Suc (2 * i) := hex_char (unat (r ! i) mod 16)]"
proof -
  have "list_all (\<lambda>n. bench_lut ! n = hex_char n) [0..<16]" by code_simp
  then have digit: "bench_lut ! n = hex_char n" if "n < 16" for n
    using that by (simp add: list_all_iff)
  have mask: "x AND 0xF = take_bit 4 x" for x :: u8
    by (simp add: take_bit_eq_mask mask_eq_exp_minus_1)
  have "unat (drop_bit 4 b AND 0xF) = unat b div 16" for b :: u8
    by (simp add: mask take_bit_eq_mod drop_bit_eq_div unat_mod_distrib unat_div_distrib)
  moreover have "unat (b AND 0xF) = unat b mod 16" for b :: u8
    by (simp add: mask take_bit_eq_mod unat_mod_distrib)
  ultimately show ?thesis by (simp add: bench_hex_put_def digit)
qed

lemma bench_hex_fill:
  assumes "k \<le> length r" and "length out = 2 * length r"
  shows "fold (bench_hex_put r) [0..<k] out = bytes_to_hex_lower (take k r) @ drop (2 * k) out"
  using assms(1)
proof (induction k)
  case (Suc k)
  have hex_length: "length (bytes_to_hex_lower bs) = 2 * length bs" for bs
    by (induction bs) (simp_all add: hex2_def)
  have hex_snoc: "bytes_to_hex_lower (bs @ [b]) = bytes_to_hex_lower bs @ hex2 b" for bs b
    by (induction bs) simp_all
  have rest: "drop (2 * k) out = out ! (2 * k) # out ! Suc (2 * k) # drop (2 * Suc k) out"
    using Suc.prems assms(2) by (simp add: Cons_nth_drop_Suc)
  have "take (Suc k) r = take k r @ [r ! k]" using Suc.prems by (simp add: take_Suc_conv_app_nth)
  with Suc rest show ?case
    by (simp add: bench_hex_put_digits hex_snoc hex2_def list_update_append hex_length)
qed simp

lemma bench_bytes_to_hex_eq: "bench_bytes_to_hex r = bytes_to_hex_lower r"
  using bench_hex_fill [of "length r" r "replicate (length r * 2) (CHR 0x00)"]
  by (simp add: bench_bytes_to_hex_def)

definition ecs_sendOne ::
  "(es_call list \<Rightarrow> write_outcome) \<Rightarrow> EchoClientSession \<Rightarrow> EchoClientSession" where
  "ecs_sendOne io s =
     es_writeChain io ''client'' (cs_sendBuf s)
       (s\<lparr>es_writes_in_flight := es_writes_in_flight s + 1\<rparr>)"

definition ecs_fizzHandshakeSuccess ::
  "('x, 'k, 't, 's, 'p, 'd) tls_crypto \<Rightarrow> (es_call list \<Rightarrow> write_outcome) \<Rightarrow> EchoClientSession
     \<Rightarrow> 'x server_cert option \<Rightarrow> EchoClientSession" where
  "ecs_fizzHandshakeSuccess K io s serverCert =
     (case serverCert of
        Some (PeerDelegatedCredential leaf dc) \<Rightarrow>
          (case verify_peer_dc K (cs_ctx s) leaf dc of
             Inl what \<Rightarrow> setError (''client verify: '' @ what) s
           | Inr err \<Rightarrow>
               if err \<noteq> [] then setError err (es_call EsCloseNow s)
               else
                 (let s1 = es_call (EsSetReadCB True) s
                  in if es_reads_remaining s1 = 0 then maybeFinish (s1\<lparr>es_stopped := True\<rparr>)
                     else ecs_sendOne io s1))
      | _ \<Rightarrow> setError ''server did not present a delegated credential'' s)"

definition ecs_fizzHandshakeError :: "string \<Rightarrow> EchoClientSession \<Rightarrow> EchoClientSession" where
  "ecs_fizzHandshakeError what s = setError (''client handshake: '' @ what) s"

lemma reads_remaining_sendOne [simp]:
  "es_reads_remaining (ecs_sendOne io s) = es_reads_remaining s"
  by (simp add: ecs_sendOne_def)

function ecs_echo_loop ::
  "iobq \<Rightarrow> (es_call list \<Rightarrow> write_outcome) \<Rightarrow> EchoClientSession \<Rightarrow> EchoClientSession option" where
  "ecs_echo_loop Q io s =
     (if unat (es_batchSize s) \<le> length (concat (es_readQueue s)) \<and> es_reads_remaining s \<noteq> 0
      then (case split Q (unat (es_batchSize s)) (es_readQueue s) of
              Inl what \<Rightarrow> None
            | Inr (data, rest) \<Rightarrow>
                (let s1 = s\<lparr>es_readQueue := rest, es_reads_remaining := es_reads_remaining s - 1\<rparr>
                 in if es_reads_remaining s1 = 0 then Some (s1\<lparr>es_stopped := True\<rparr>)
                    else ecs_echo_loop Q io (ecs_sendOne io s1)))
      else Some s)"
  by pat_completeness auto

termination
  by (relation "measure (\<lambda>(Q, io, s). unat (es_reads_remaining s))") (auto simp: unat_dec_less)

declare ecs_echo_loop.simps [simp del]

definition ecs_readDataAvailable ::
  "iobq \<Rightarrow> (es_call list \<Rightarrow> write_outcome) \<Rightarrow> EchoClientSession \<Rightarrow> u8 list
     \<Rightarrow> EchoClientSession option" where
  "ecs_readDataAvailable Q io s bs =
     map_option (\<lambda>s'. if es_stopped s' then maybeFinish s' else s')
       (ecs_echo_loop Q io (s\<lparr>es_readQueue := postallocate Q (es_readQueue s) bs,
                              es_received := es_received s @ bs\<rparr>))"

section \<open>The bookkeeping both classes share\<close>

definition es_writes :: "'a EchoSession_scheme \<Rightarrow> u8 list list" where
  "es_writes s = List.map_filter (\<lambda>c. case c of EsWriteChain bs \<Rightarrow> Some bs | _ \<Rightarrow> None) (es_calls s)"

definition es_result :: "'a EchoSession_scheme \<Rightarrow> string + unit" where
  "es_result s = (case es_error_msg s of Some m \<Rightarrow> Inl m | None \<Rightarrow> Inr ())"

text \<open>
  The counter of writes is exact; the closure is scheduled once; a session that stops without an error
  has nothing left to read, and one that finishes without an error nothing left to write. \<open>settled\<close>
  adds what holds between callbacks: a session that is stopped and has no write in flight has
  finished.
\<close>

definition books :: "'a EchoSession_scheme \<Rightarrow> bool" where
  "books s \<longleftrightarrow>
     unat (es_writes_in_flight s) + es_callbacks s = length (es_writes s)
     \<and> es_finished s = (0 < es_scheduled s \<or> es_destroyed s)
     \<and> (0 < es_scheduled s \<longrightarrow> \<not> es_destroyed s) \<and> es_scheduled s \<le> 1
     \<and> es_done s = (if es_destroyed s then [es_result s] else [])
     \<and> (es_finished s \<longrightarrow> es_stopped s)
     \<and> (es_stopped s \<and> es_error_msg s = None \<longrightarrow> es_reads_remaining s = 0)
     \<and> (es_finished s \<and> es_error_msg s = None \<longrightarrow> es_writes_in_flight s = 0)"

definition settled :: "'a EchoSession_scheme \<Rightarrow> bool" where
  "settled s \<longleftrightarrow> books s \<and> (es_stopped s \<and> es_writes_in_flight s = 0 \<longrightarrow> es_finished s)"

lemma es_writes_call:
  "es_writes (es_call c s) = es_writes s @ (case c of EsWriteChain bs \<Rightarrow> [bs] | _ \<Rightarrow> [])"
  by (simp add: es_writes_def es_call_def List.map_filter_def split: es_call.splits)

lemma es_call_fields [simp]:
  "es_batchSize (es_call c s) = es_batchSize s"
  "es_writes_in_flight (es_call c s) = es_writes_in_flight s"
  "es_stopped (es_call c s) = es_stopped s" "es_finished (es_call c s) = es_finished s"
  "es_error_msg (es_call c s) = es_error_msg s" "es_done (es_call c s) = es_done s"
  "es_readQueue (es_call c s) = es_readQueue s" "es_scheduled (es_call c s) = es_scheduled s"
  "es_destroyed (es_call c s) = es_destroyed s" "es_reported (es_call c s) = es_reported s"
  "es_received (es_call c s) = es_received s" "es_callbacks (es_call c s) = es_callbacks s"
  "es_calls (es_call c s) = es_calls s @ [c]" "es_result (es_call c s) = es_result s"
  by (simp_all add: es_call_def es_result_def)

lemma es_writes_update [simp]:
  "es_writes (s\<lparr>es_batchSize := b\<rparr>) = es_writes s" "es_writes (s\<lparr>es_reads_remaining := r\<rparr>) = es_writes s"
  "es_writes (s\<lparr>es_writes_in_flight := r\<rparr>) = es_writes s" "es_writes (s\<lparr>es_stopped := st\<rparr>) = es_writes s"
  "es_writes (s\<lparr>es_finished := st\<rparr>) = es_writes s" "es_writes (s\<lparr>es_error_msg := m\<rparr>) = es_writes s"
  "es_writes (s\<lparr>es_done := d\<rparr>) = es_writes s" "es_writes (s\<lparr>es_readQueue := q\<rparr>) = es_writes s"
  "es_writes (s\<lparr>es_scheduled := n\<rparr>) = es_writes s" "es_writes (s\<lparr>es_destroyed := st\<rparr>) = es_writes s"
  "es_writes (s\<lparr>es_reported := st\<rparr>) = es_writes s" "es_writes (s\<lparr>es_received := bs\<rparr>) = es_writes s"
  "es_writes (s\<lparr>es_callbacks := n\<rparr>) = es_writes s"
  by (simp_all add: es_writes_def)

lemma maybeFinish_fields [simp]:
  "es_batchSize (maybeFinish s) = es_batchSize s" "es_readQueue (maybeFinish s) = es_readQueue s"
  "es_received (maybeFinish s) = es_received s" "es_reported (maybeFinish s) = es_reported s"
  "es_destroyed (maybeFinish s) = es_destroyed s" "es_calls (maybeFinish s) = es_calls s"
  "es_writes (maybeFinish s) = es_writes s" "es_stopped (maybeFinish s) = es_stopped s"
  "es_error_msg (maybeFinish s) = es_error_msg s" "es_callbacks (maybeFinish s) = es_callbacks s"
  by (simp_all add: maybeFinish_def)

lemma setError_fields [simp]:
  "es_batchSize (setError m s) = es_batchSize s" "es_readQueue (setError m s) = es_readQueue s"
  "es_received (setError m s) = es_received s" "es_reported (setError m s) = es_reported s"
  "es_destroyed (setError m s) = es_destroyed s" "es_calls (setError m s) = es_calls s"
  "es_writes (setError m s) = es_writes s" "es_stopped (setError m s)"
  "es_error_msg (setError m s) \<noteq> None"
  by (simp_all add: setError_def split: option.splits)

lemma write_callback_fields [simp]:
  "es_batchSize (es_writeSuccess s) = es_batchSize s" "es_readQueue (es_writeSuccess s) = es_readQueue s"
  "es_received (es_writeSuccess s) = es_received s" "es_reported (es_writeSuccess s) = es_reported s"
  "es_destroyed (es_writeSuccess s) = es_destroyed s" "es_calls (es_writeSuccess s) = es_calls s"
  "es_writes (es_writeSuccess s) = es_writes s" "es_stopped (es_writeSuccess s) = es_stopped s"
  "es_batchSize (es_writeErr d w s) = es_batchSize s" "es_readQueue (es_writeErr d w s) = es_readQueue s"
  "es_received (es_writeErr d w s) = es_received s" "es_reported (es_writeErr d w s) = es_reported s"
  "es_destroyed (es_writeErr d w s) = es_destroyed s" "es_calls (es_writeErr d w s) = es_calls s"
  "es_writes (es_writeErr d w s) = es_writes s" "es_stopped (es_writeErr d w s)"
  by (simp_all add: es_writeSuccess_def es_writeErr_def)

lemma writeChain_fields [simp]:
  "es_batchSize (es_writeChain io d bs s) = es_batchSize s"
  "es_readQueue (es_writeChain io d bs s) = es_readQueue s"
  "es_received (es_writeChain io d bs s) = es_received s"
  "es_reported (es_writeChain io d bs s) = es_reported s"
  "es_destroyed (es_writeChain io d bs s) = es_destroyed s"
  "es_calls (es_writeChain io d bs s) = es_calls s @ [EsWriteChain bs]"
  "es_writes (es_writeChain io d bs s) = es_writes s @ [bs]"
  by (simp_all add: es_writeChain_def Let_def es_writes_call split: write_outcome.splits)

lemma settled_maybeFinish: "books s \<Longrightarrow> \<not> es_destroyed s \<Longrightarrow> settled (maybeFinish s)"
  by (auto simp: settled_def books_def maybeFinish_def word_gt_0 es_result_def)

lemma settled_setError: "books s \<Longrightarrow> \<not> es_destroyed s \<Longrightarrow> settled (setError m s)"
  unfolding setError_def
  by (rule settled_maybeFinish) (auto simp: books_def split: option.splits)

lemma settled_stop:
  "books s \<Longrightarrow> \<not> es_destroyed s \<Longrightarrow> es_reads_remaining s = 0 \<Longrightarrow>
    settled (maybeFinish (s\<lparr>es_stopped := True\<rparr>))"
  by (rule settled_maybeFinish) (auto simp: books_def)

lemma callback_counts:
  assumes "books s" "es_callbacks s < length (es_writes s)"
  shows "unat (es_writes_in_flight s - 1) + Suc (es_callbacks s) = length (es_writes s)"
    "es_writes_in_flight s \<noteq> 0"
proof -
  have sum: "unat (es_writes_in_flight s) + es_callbacks s = length (es_writes s)"
    using assms(1) by (simp add: books_def)
  with assms(2) show nz: "es_writes_in_flight s \<noteq> 0" by auto
  then have "0 < unat (es_writes_in_flight s)" by (simp add: unat_gt_0)
  with sum nz show "unat (es_writes_in_flight s - 1) + Suc (es_callbacks s) = length (es_writes s)"
    by (simp add: unat_minus_one)
qed

lemma settled_writeSuccess:
  assumes "books s" "\<not> es_destroyed s" "es_callbacks s < length (es_writes s)"
  shows "settled (es_writeSuccess s)"
  unfolding es_writeSuccess_def
  using assms callback_counts [OF assms(1,3)]
  by (intro settled_maybeFinish) (auto simp: books_def)

lemma settled_writeErr:
  assumes "books s" "\<not> es_destroyed s" "es_callbacks s < length (es_writes s)"
  shows "settled (es_writeErr d w s)"
  unfolding es_writeErr_def
  using assms callback_counts [OF assms(1,3)]
  by (intro settled_setError) (auto simp: books_def)

text \<open>A write may be called back inside \<open>writeChain\<close>; the books are settled in every case.\<close>

lemma settled_writeChain:
  assumes "books (es_call (EsWriteChain bs) s)" "\<not> es_destroyed s" "es_writes_in_flight s \<noteq> 0"
  shows "settled (es_writeChain io d bs s)"
proof -
  have "es_callbacks (es_call (EsWriteChain bs) s) < length (es_writes (es_call (EsWriteChain bs) s))"
    using assms by (auto simp: books_def simp flip: unat_eq_zero)
  with assms show ?thesis
    by (auto simp: es_writeChain_def Let_def settled_def [of "es_call _ _"]
        intro: settled_writeSuccess settled_writeErr split: write_outcome.splits)
qed

text \<open>Starting a write from a session that still has something to read.\<close>

lemma settled_send:
  assumes "settled s" "\<not> es_destroyed s" "es_reads_remaining s \<noteq> 0"
    and "length (es_writes s) < 2 ^ 64 - 1"
  shows "settled (es_writeChain io d bs
    (s\<lparr>es_readQueue := q, es_writes_in_flight := es_writes_in_flight s + 1, es_reads_remaining := r\<rparr>))"
proof -
  have "unat (es_writes_in_flight s + 1) = Suc (unat (es_writes_in_flight s))"
    using assms by (auto simp: settled_def books_def unat_word_ariths)
  moreover from this have "es_writes_in_flight s + 1 \<noteq> 0" by auto
  ultimately show ?thesis
    using assms by (intro settled_writeChain) (auto simp: settled_def books_def es_writes_call es_result_def)
qed

end
