(* ===== verification/Fizz_Cpp_Bench.thy ===== *)
theory Fizz_Cpp_Bench
  imports Fizz_Cpp_Session
begin

text \<open>
  The C++ benchmark around its sessions, from \<open>src/src/ffi/cpp_bench.cpp\<close>: the counters by which the
  continuations of all sessions, each on its own thread, decide together what the benchmark's promise
  becomes, and the entry point \<open>run_fizz_cpp_bench\<close>, with its Rust wrapper \<open>src/src/cpp_bench.rs\<close>.
\<close>

section \<open>Counting the sessions\<close>

text \<open>
  How a connection ends: its session resolves its promise, or setting it up throws. Beside the
  connections, the listener may report errors of its own through \<open>acceptError\<close>. A continuation
  works on two atomics; its position is after the load of \<open>fired_\<close>, after the \<open>fetch_add\<close> that
  reached the expected number, or at its end, by one of three ways.
\<close>

datatype session_end = SessionDone | SessionFailed string | SetupFailed string | AcceptFailed string

datatype position = NotRun | Loaded | LastCounted | Counted | Skipped | Reported

fun is_connection :: "session_end \<Rightarrow> bool" where
  "is_connection (AcceptFailed e) \<longleftrightarrow> False"
| "is_connection _ \<longleftrightarrow> True"

fun has_session :: "session_end \<Rightarrow> bool" where
  "has_session SessionDone \<longleftrightarrow> True"
| "has_session (SessionFailed e) \<longleftrightarrow> True"
| "has_session _ \<longleftrightarrow> False"

record tally =
  completed :: nat
  fired :: bool
  resolved :: "(string + unit) list"
  position_of :: "nat \<Rightarrow> position"

definition tally_init :: tally where
  "tally_init = \<lparr>completed = 0, fired = False, resolved = [], position_of = (\<lambda>_. NotRun)\<rparr>"

text \<open>\<open>if (!fired_.exchange(true)) allDone_.setException(...)\<close>, or \<open>setValue()\<close>.\<close>

definition fire_once :: "string + unit \<Rightarrow> tally \<Rightarrow> tally" where
  "fire_once r t =
     (if fired t then t else t\<lparr>fired := True, resolved := resolved t @ [r]\<rparr>)"

definition move :: "nat \<Rightarrow> position \<Rightarrow> tally \<Rightarrow> tally" where
  "move i p t = t\<lparr>position_of := (position_of t)(i := p)\<rparr>"

inductive tally_step :: "session_end list \<Rightarrow> nat \<Rightarrow> tally \<Rightarrow> tally \<Rightarrow> bool"
  for ends expectedConns where
  tally_skip: "i < length ends \<Longrightarrow> position_of t i = NotRun \<Longrightarrow> has_session (ends ! i) \<Longrightarrow>
    fired t \<Longrightarrow> tally_step ends expectedConns t (move i Skipped t)"
| tally_load: "i < length ends \<Longrightarrow> position_of t i = NotRun \<Longrightarrow> has_session (ends ! i) \<Longrightarrow>
    \<not> fired t \<Longrightarrow> tally_step ends expectedConns t (move i Loaded t)"
| tally_failed: "i < length ends \<Longrightarrow> position_of t i = Loaded \<Longrightarrow> ends ! i = SessionFailed e \<Longrightarrow>
    tally_step ends expectedConns t (move i Reported (fire_once (Inl e) t))"
| tally_count: "i < length ends \<Longrightarrow> position_of t i = Loaded \<Longrightarrow> ends ! i = SessionDone \<Longrightarrow>
    tally_step ends expectedConns t
      (move i (if completed t + 1 = expectedConns then LastCounted else Counted)
        (t\<lparr>completed := completed t + 1\<rparr>))"
| tally_last: "i < length ends \<Longrightarrow> position_of t i = LastCounted \<Longrightarrow>
    tally_step ends expectedConns t (move i Counted (fire_once (Inr ()) t))"
| tally_setup: "i < length ends \<Longrightarrow> position_of t i = NotRun \<Longrightarrow> ends ! i = SetupFailed e \<Longrightarrow>
    tally_step ends expectedConns t (move i Reported (fire_once (Inl e) t))"
| tally_accept: "i < length ends \<Longrightarrow> position_of t i = NotRun \<Longrightarrow> ends ! i = AcceptFailed e \<Longrightarrow>
    tally_step ends expectedConns t (move i Reported (fire_once (Inl (''acceptError: '' @ e)) t))"

inductive tally_reach :: "session_end list \<Rightarrow> nat \<Rightarrow> tally \<Rightarrow> bool" for ends expectedConns where
  tally_start: "tally_reach ends expectedConns tally_init"
| tally_next: "tally_reach ends expectedConns t \<Longrightarrow> tally_step ends expectedConns t t'
    \<Longrightarrow> tally_reach ends expectedConns t'"

section \<open>The entry point\<close>

text \<open>
  \<open>std::terminate\<close> is an outcome of its own: leaving the function by an exception destroys threads
  that were not joined.
\<close>

datatype 'a bench_outcome = BenchReturns 'a | BenchThrows string | BenchTerminates | BenchHangs

definition create_verifier :: "('x, 'k, 't, 's, 'p, 'd) tls_crypto \<Rightarrow> string \<Rightarrow> string + unit" where
  "create_verifier K path =
     (if \<not> x509_store_new K \<or> \<not> x509_store_load_locations K path
      then Inl (''cpp_bench: failed to load CA from '' @ path)
      else Inr ())"

record tcp_try =
  tt_socket :: bool
  tt_connect :: bool
  tt_setsockopt :: bool

definition blocking_tcp_connect :: "tcp_try \<Rightarrow> string + unit" where
  "blocking_tcp_connect t =
     (if \<not> tt_socket t then Inl ''cpp_bench: socket()''
      else if \<not> tt_connect t then Inl ''cpp_bench: connect()''
      else if \<not> tt_setsockopt t then Inl ''cpp_bench: setsockopt(TCP_NODELAY)''
      else Inr ())"

fun connect_all :: "(nat \<Rightarrow> tcp_try) \<Rightarrow> nat \<Rightarrow> nat \<Rightarrow> string + unit" where
  "connect_all tries i 0 = Inr ()"
| "connect_all tries i (Suc n) =
     and_then (blocking_tcp_connect (tries i)) (\<lambda>_. connect_all tries (Suc i) n)"

text \<open>
  The environment of a run: whether the listener is set up, the attempts to connect, the tallies of
  both sides when their futures are waited for, and the measured microseconds.
\<close>

record bench_env =
  be_listen :: bool
  be_tries :: "nat \<Rightarrow> tcp_try"
  be_server :: tally
  be_client :: tally
  be_micros :: u64

text \<open>\<open>std::move(future).get()\<close>: the value, the exception, or no answer at all.\<close>

definition future_get :: "tally \<Rightarrow> (string + unit) option" where
  "future_get t = (case resolved t of [] \<Rightarrow> None | r # _ \<Rightarrow> Some r)"

definition run_fizz_cpp_bench ::
  "('x, 'k, 't, 's, 'p, 'd) tls_crypto \<Rightarrow> bench_env \<Rightarrow> FizzClientContext \<Rightarrow> u64 \<Rightarrow> u64 \<Rightarrow> u64
     \<Rightarrow> u64 bench_outcome" where
  "run_fizz_cpp_bench K env clientCtx pairs batchSize rounds =
     (if pairs = 0 \<or> rounds = 0 \<or> batchSize = 0 then BenchReturns 0
      else
        (case create_verifier K (cx_caCertPath clientCtx) of
           Inl what \<Rightarrow> BenchThrows what
         | Inr _ \<Rightarrow>
             if \<not> be_listen env then BenchTerminates
             else
               (case connect_all (be_tries env) 0 (unat pairs) of
                  Inl what \<Rightarrow> BenchTerminates
                | Inr _ \<Rightarrow>
                    (case future_get (be_server env) of
                       None \<Rightarrow> BenchHangs
                     | Some (Inl what) \<Rightarrow> BenchTerminates
                     | Some (Inr _) \<Rightarrow>
                         (case future_get (be_client env) of
                            None \<Rightarrow> BenchHangs
                          | Some (Inl what) \<Rightarrow> BenchTerminates
                          | Some (Inr _) \<Rightarrow> BenchReturns (be_micros env))))))"

text \<open>The Rust wrapper hands the text of an exception over as an I/O error.\<close>

definition cpp_bench_run :: "u64 bench_outcome \<Rightarrow> (FizzError + u64) bench_outcome" where
  "cpp_bench_run r =
     (case r of
        BenchReturns n \<Rightarrow> BenchReturns (Inr n)
      | BenchThrows e \<Rightarrow> BenchReturns (Inl (IoError (IoErr Other e)))
      | BenchTerminates \<Rightarrow> BenchTerminates
      | BenchHangs \<Rightarrow> BenchHangs)"

section \<open>What the counters keep\<close>

text \<open>\<open>fails x e\<close>: the end \<open>x\<close> is a failure that is reported with the text \<open>e\<close>.\<close>

fun fails :: "session_end \<Rightarrow> string \<Rightarrow> bool" where
  "fails SessionDone e \<longleftrightarrow> False"
| "fails (SessionFailed m) e \<longleftrightarrow> e = m"
| "fails (SetupFailed m) e \<longleftrightarrow> e = m"
| "fails (AcceptFailed m) e \<longleftrightarrow> e = ''acceptError: '' @ m"

definition connections :: "session_end list \<Rightarrow> nat" where
  "connections ends = length (filter is_connection ends)"

definition counted :: "session_end list \<Rightarrow> tally \<Rightarrow> nat set" where
  "counted ends t = {i. i < length ends \<and> position_of t i \<in> {LastCounted, Counted}}"

definition last_pending :: "session_end list \<Rightarrow> tally \<Rightarrow> bool" where
  "last_pending ends t \<longleftrightarrow> (\<exists>i < length ends. position_of t i = LastCounted)"

definition tally_inv :: "session_end list \<Rightarrow> nat \<Rightarrow> tally \<Rightarrow> bool" where
  "tally_inv ends expectedConns t \<longleftrightarrow>
     length (resolved t) \<le> 1 \<and> (fired t \<longleftrightarrow> resolved t \<noteq> [])
     \<and> completed t = card (counted ends t)
     \<and> (\<forall>i \<in> counted ends t. ends ! i = SessionDone)
     \<and> (\<forall>i. position_of t i \<in> {Skipped, Reported} \<longrightarrow> fired t)
     \<and> (\<forall>e. Inl e \<in> set (resolved t) \<longrightarrow> (\<exists>x \<in> set ends. fails x e))
     \<and> (last_pending ends t \<or> Inr () \<in> set (resolved t) \<longrightarrow> expectedConns \<le> completed t)
     \<and> (0 < expectedConns \<and> expectedConns \<le> completed t \<longrightarrow>
          fired t \<or> last_pending ends t)"

lemma counted_finite [simp]: "finite (counted ends t)"
  by (simp add: counted_def)

lemma counted_move:
  "i < length ends \<Longrightarrow> counted ends (move i p t) =
     (if p \<in> {LastCounted, Counted} then insert i (counted ends t) else counted ends t - {i})"
  by (auto simp: counted_def move_def)

lemma last_pending_move:
  "i < length ends \<Longrightarrow> position_of t i \<noteq> LastCounted \<Longrightarrow>
    last_pending ends (move i p t) \<longleftrightarrow> p = LastCounted \<or> last_pending ends t"
  by (auto simp: last_pending_def move_def)

lemma last_pending_other [simp]:
  "last_pending ends (fire_once r t) = last_pending ends t"
  "last_pending ends (t\<lparr>completed := n\<rparr>) = last_pending ends t"
  by (simp_all add: last_pending_def fire_once_def)

lemma counted_other [simp]:
  "counted ends (fire_once r t) = counted ends t"
  "counted ends (t\<lparr>completed := n\<rparr>) = counted ends t"
  by (simp_all add: counted_def fire_once_def)

lemma fire_once_fields [simp]:
  "completed (fire_once r t) = completed t" "position_of (fire_once r t) = position_of t"
  "fired (fire_once r t)" "resolved (fire_once r t) = (if fired t then resolved t else resolved t @ [r])"
  by (simp_all add: fire_once_def)

lemma move_fields [simp]:
  "completed (move i p t) = completed t" "fired (move i p t) = fired t"
  "resolved (move i p t) = resolved t" "position_of (move i p t) = (position_of t)(i := p)"
  by (simp_all add: move_def)

lemma tally_inv_init: "tally_inv ends expectedConns tally_init"
  by (auto simp: tally_inv_def tally_init_def counted_def last_pending_def)

lemma fails_nth: "i < length ends \<Longrightarrow> fails (ends ! i) e \<Longrightarrow> \<exists>x \<in> set ends. fails x e"
  using nth_mem by blast

lemma tally_inv_step:
  assumes "tally_step ends n t t'" "tally_inv ends n t"
  shows "tally_inv ends n t'"
  using assms
proof cases
  case (tally_skip i)
  have "i \<notin> counted ends t" using tally_skip by (simp add: counted_def)
  with tally_skip assms(2) show ?thesis
    by (auto simp: tally_inv_def counted_move last_pending_move)
next
  case (tally_load i)
  have "i \<notin> counted ends t" using tally_load by (simp add: counted_def)
  with tally_load assms(2) show ?thesis
    by (auto simp: tally_inv_def counted_move last_pending_move)
next
  case (tally_failed i e)
  have "i \<notin> counted ends t" using tally_failed by (simp add: counted_def)
  moreover have "\<exists>x \<in> set ends. fails x e" using tally_failed by (intro fails_nth [of i]) simp_all
  ultimately show ?thesis
    using tally_failed assms(2) by (auto simp: tally_inv_def counted_move last_pending_move)
next
  case (tally_count i)
  have "i \<notin> counted ends t" using tally_count by (simp add: counted_def)
  with tally_count assms(2) show ?thesis
    by (auto simp: tally_inv_def counted_move last_pending_move)
next
  case (tally_last i)
  have "i \<in> counted ends t" using tally_last by (simp add: counted_def)
  moreover have "last_pending ends t" using tally_last by (auto simp: last_pending_def)
  ultimately show ?thesis using tally_last assms(2)
    by (auto simp: tally_inv_def counted_move insert_absorb)
next
  case (tally_setup i e)
  have "i \<notin> counted ends t" using tally_setup by (simp add: counted_def)
  moreover have "\<exists>x \<in> set ends. fails x e" using tally_setup by (intro fails_nth [of i]) simp_all
  ultimately show ?thesis
    using tally_setup assms(2) by (auto simp: tally_inv_def counted_move last_pending_move)
next
  case (tally_accept i e)
  have "i \<notin> counted ends t" using tally_accept by (simp add: counted_def)
  moreover have "\<exists>x \<in> set ends. fails x (''acceptError: '' @ e)"
    using tally_accept by (intro fails_nth [of i]) simp_all
  ultimately show ?thesis
    using tally_accept assms(2) by (auto simp: tally_inv_def counted_move last_pending_move)
qed

lemma tally_reach_inv: "tally_reach ends n t \<Longrightarrow> tally_inv ends n t"
  by (induction rule: tally_reach.induct) (auto intro: tally_inv_init tally_inv_step)

text \<open>All continuations are through.\<close>

definition all_through :: "session_end list \<Rightarrow> tally \<Rightarrow> bool" where
  "all_through ends t \<longleftrightarrow> (\<forall>i < length ends. position_of t i \<in> {Counted, Skipped, Reported})"

lemma connections_card: "connections ends = card {i. i < length ends \<and> is_connection (ends ! i)}"
  by (simp add: connections_def length_filter_conv_card)

lemma counted_all:
  assumes "tally_inv ends n t" "n = connections ends" "n \<le> completed t"
  shows "\<forall>x \<in> set ends. is_connection x \<longrightarrow> x = SessionDone"
proof -
  have "counted ends t \<subseteq> {i. i < length ends \<and> is_connection (ends ! i)}"
    using assms(1) by (auto simp: tally_inv_def counted_def)
  then have "counted ends t = {i. i < length ends \<and> is_connection (ends ! i)}"
    using assms by (intro card_seteq) (auto simp: tally_inv_def connections_card)
  then show ?thesis using assms(1) by (auto simp: tally_inv_def in_set_conv_nth)
qed

lemma value_means_all:
  assumes "tally_inv ends (connections ends) t" "Inr () \<in> set (resolved t)"
  shows "\<forall>x \<in> set ends. is_connection x \<longrightarrow> x = SessionDone"
  using assms by (intro counted_all [OF assms(1)]) (auto simp: tally_inv_def)

lemma through_fired:
  assumes "tally_inv ends (connections ends) t" "all_through ends t" "0 < connections ends"
  shows "fired t"
proof (rule ccontr)
  assume "\<not> fired t"
  then have "\<forall>i < length ends. position_of t i = Counted"
    using assms(1,2) by (auto simp: tally_inv_def all_through_def)
  then have "counted ends t = {..<length ends}" "\<not> last_pending ends t"
    by (auto simp: counted_def last_pending_def)
  moreover have "connections ends \<le> length ends" by (simp add: connections_def)
  ultimately show False using assms(1,3) \<open>\<not> fired t\<close> by (auto simp: tally_inv_def)
qed

text \<open>The promise has one result, and what that is follows from the ends of the sessions.\<close>

lemma through_resolved:
  assumes "tally_inv ends (connections ends) t" "all_through ends t" "0 < connections ends"
  shows "resolved t = [Inr ()] \<and> (\<forall>x \<in> set ends. is_connection x \<longrightarrow> x = SessionDone)
    \<or> (\<exists>e. resolved t = [Inl e] \<and> (\<exists>x \<in> set ends. fails x e))"
proof -
  from through_fired [OF assms] assms(1) obtain r where r: "resolved t = [r]"
    by (cases "resolved t") (auto simp: tally_inv_def)
  show ?thesis
  proof (cases r)
    case (Inl e)
    with r assms(1) show ?thesis by (auto simp: tally_inv_def)
  next
    case (Inr u)
    with r value_means_all [OF assms(1)] show ?thesis by auto
  qed
qed

lemma all_done_resolved:
  assumes "tally_inv ends (connections ends) t" "all_through ends t" "0 < connections ends"
    and "\<forall>x \<in> set ends. x = SessionDone"
  shows "resolved t = [Inr ()]"
  using through_resolved [OF assms(1-3)] assms(4) by auto

lemma failure_resolved:
  assumes "tally_inv ends (connections ends) t" "all_through ends t"
    and "x \<in> set ends" "is_connection x" "x \<noteq> SessionDone"
  shows "\<exists>e. resolved t = [Inl e]"
proof -
  have "0 < connections ends" using assms(3,4) by (auto simp: connections_def filter_empty_conv)
  from through_resolved [OF assms(1,2) this] assms(3-5) show ?thesis by blast
qed

section \<open>A concrete instance\<close>

definition sample_failed :: tally where
  "sample_failed = move 0 Reported (fire_once (Inl ''server read: reset'') (move 0 Loaded tally_init))"

definition sample_succeeded :: tally where
  "sample_succeeded = move 0 Counted (fire_once (Inr ())
     (move 0 LastCounted ((move 0 Loaded tally_init)\<lparr>completed := 1\<rparr>)))"

lemma sample_loaded: "ends = [x] \<Longrightarrow> has_session x \<Longrightarrow> tally_reach ends 1 (move 0 Loaded tally_init)"
  by (rule tally_next [OF tally_start tally_load]) (simp_all add: tally_init_def)

lemma sample_failed_reach: "tally_reach [SessionFailed ''server read: reset''] 1 sample_failed"
  unfolding sample_failed_def
  by (rule tally_next [OF sample_loaded tally_failed]) auto

lemma sample_succeeded_reach: "tally_reach [SessionDone] 1 sample_succeeded"
proof -
  have "tally_step [SessionDone] 1 (move 0 Loaded tally_init)
      (move 0 LastCounted ((move 0 Loaded tally_init)\<lparr>completed := 1\<rparr>))"
    using tally_count [of 0 "[SessionDone]" "move 0 Loaded tally_init" 1] by (simp add: tally_init_def)
  with sample_loaded [of "[SessionDone]" SessionDone]
  have "tally_reach [SessionDone] 1 (move 0 LastCounted ((move 0 Loaded tally_init)\<lparr>completed := 1\<rparr>))"
    by (auto intro: tally_next)
  then show ?thesis unfolding sample_succeeded_def
    by (rule tally_next) (rule tally_last, simp_all)
qed

definition sample_bench :: bench_env where
  "sample_bench =
     \<lparr>be_listen = True, be_tries = (\<lambda>_. \<lparr>tt_socket = True, tt_connect = True, tt_setsockopt = True\<rparr>),
      be_server = sample_failed, be_client = sample_succeeded, be_micros = 1500\<rparr>"

lemma sample_through:
  "all_through [SessionFailed ''server read: reset''] sample_failed"
  "all_through [SessionDone] sample_succeeded"
  by (simp_all add: all_through_def sample_failed_def sample_succeeded_def)

section \<open>Properties\<close>

text \<open>C7. However the continuations of the sessions interleave on their threads, the promise of the
  whole benchmark is resolved at most once; with a value only when every connection's session was done;
  and once all continuations are through it is resolved, with a value when nothing failed and with
  an error when a connection failed.\<close>

theorem all_done_is_decided_once:
  assumes "tally_reach ends (connections ends) t" "0 < connections ends"
  shows "length (resolved t) \<le> 1
    \<and> (Inr () \<in> set (resolved t) \<longrightarrow> (\<forall>x \<in> set ends. is_connection x \<longrightarrow> x = SessionDone))
    \<and> (all_through ends t \<longrightarrow> resolved t \<noteq> []
         \<and> ((\<forall>x \<in> set ends. x = SessionDone) \<longrightarrow> resolved t = [Inr ()])
         \<and> ((\<exists>x \<in> set ends. is_connection x \<and> x \<noteq> SessionDone) \<longrightarrow> (\<exists>e. resolved t = [Inl e])))"
proof -
  have inv: "tally_inv ends (connections ends) t" by (rule tally_reach_inv [OF assms(1)])
  then have "length (resolved t) \<le> 1" by (simp add: tally_inv_def)
  moreover have "resolved t \<noteq> []" if "all_through ends t"
    using through_resolved [OF inv that assms(2)] by auto
  ultimately show ?thesis
    using value_means_all [OF inv] all_done_resolved [OF inv _ assms(2)] failure_resolved [OF inv]
    by blast
qed

theorem all_done_is_decided_once_witness:
  "length (resolved sample_failed) \<le> 1 \<and> (\<exists>e. resolved sample_failed = [Inl e])"
  using all_done_is_decided_once [of "[SessionFailed ''server read: reset'']" sample_failed]
    sample_failed_reach sample_through(1) by (simp add: connections_def)

text \<open>C37. When the benchmark got as far as its sessions and all continuations are through, it returns the
  measured time when nothing failed on either side; one failed connection ends the whole
  process, because the exception of the future leaves the function over threads that were not joined.\<close>

theorem failed_session_terminates_process:
  assumes "pairs \<noteq> 0" "rounds \<noteq> 0" "batchSize \<noteq> 0"
    and "create_verifier K (cx_caCertPath ctx) = Inr ()" "be_listen env"
    and "connect_all (be_tries env) 0 (unat pairs) = Inr ()"
    and "tally_reach sends (unat pairs) (be_server env)" "all_through sends (be_server env)"
    and "tally_reach cends (unat pairs) (be_client env)" "all_through cends (be_client env)"
    and "connections sends = unat pairs" "connections cends = unat pairs"
  shows "((\<forall>x \<in> set (sends @ cends). x = SessionDone) \<longrightarrow>
      run_fizz_cpp_bench K env ctx pairs batchSize rounds = BenchReturns (be_micros env))
    \<and> ((\<exists>x \<in> set (sends @ cends). is_connection x \<and> x \<noteq> SessionDone) \<longrightarrow>
      run_fizz_cpp_bench K env ctx pairs batchSize rounds = BenchTerminates)"
proof -
  have pos: "0 < connections sends" "0 < connections cends" using assms(1,11,12) by (simp_all add: unat_gt_0)
  have inv: "tally_inv sends (connections sends) (be_server env)"
    "tally_inv cends (connections cends) (be_client env)"
    using tally_reach_inv [OF assms(7)] tally_reach_inv [OF assms(9)] by (simp_all add: assms(11,12))
  have run: "run_fizz_cpp_bench K env ctx pairs batchSize rounds =
      (if Inl e \<in> set (resolved (be_server env)) then BenchTerminates
       else if resolved (be_client env) = [Inr ()] then BenchReturns (be_micros env) else BenchTerminates)"
    if "resolved (be_server env) = [Inl e] \<or> resolved (be_server env) = [Inr ()]" for e
    using assms(1-6) that through_resolved [OF inv(2) assms(10) pos(2)]
    by (auto simp: run_fizz_cpp_bench_def future_get_def)
  from through_resolved [OF inv(1) assms(8) pos(1)] show ?thesis
  proof (elim disjE conjE exE)
    assume "resolved (be_server env) = [Inr ()]"
      and "\<forall>x \<in> set sends. is_connection x \<longrightarrow> x = SessionDone"
    then show ?thesis
      using run [of "[]"] all_done_resolved [OF inv(2) assms(10) pos(2)] failure_resolved [OF inv(2) assms(10)]
      by fastforce
  next
    fix e
    assume "resolved (be_server env) = [Inl e]"
    then show ?thesis
      using run [of e] all_done_resolved [OF inv(1) assms(8) pos(1)] by fastforce
  qed
qed

theorem failed_session_terminates_process_witness:
  "run_fizz_cpp_bench (sample_tls 100 900) sample_bench (ctc_inner sample_context) 1 2 1 = BenchTerminates"
proof -
  have "(\<exists>x \<in> set ([SessionFailed ''server read: reset''] @ [SessionDone]). is_connection x \<and> x \<noteq> SessionDone) \<longrightarrow>
      run_fizz_cpp_bench (sample_tls 100 900) sample_bench (ctc_inner sample_context) 1 2 1 = BenchTerminates"
    by (rule failed_session_terminates_process [THEN conjunct2])
      (simp_all add: create_verifier_def sample_bench_def blocking_tcp_connect_def connections_def
        sample_failed_reach [simplified] sample_succeeded_reach [simplified] sample_through)
  then show ?thesis by simp
qed

text \<open>The Rust caller of the C++ benchmark sees an error in one case only, that the authority
  file does not load; every later failure is not an error value.\<close>

theorem cpp_bench_error_iff:
  "cpp_bench_run (run_fizz_cpp_bench K env ctx pairs batchSize rounds) = BenchReturns (Inl e) \<longleftrightarrow>
     pairs \<noteq> 0 \<and> rounds \<noteq> 0 \<and> batchSize \<noteq> 0
     \<and> \<not> (x509_store_new K \<and> x509_store_load_locations K (cx_caCertPath ctx))
     \<and> e = IoError (IoErr Other (''cpp_bench: failed to load CA from '' @ cx_caCertPath ctx))"
  by (auto simp: cpp_bench_run_def run_fizz_cpp_bench_def create_verifier_def
      split: sum.splits option.splits)

end
