(* ===== verification/Fizz_Bench.thy ===== *)
theory Fizz_Bench
  imports Fizz_Echo Fizz_Cpp_Bench "HOL-Library.Multiset"
begin

text \<open>
  The benchmark program \<open>src/crates/tls_bench_ablation/src/main.rs\<close> around its runs: arguments, the fizz
  fixtures, the dispatch over the backends, the statistics and the table that \<open>main\<close> prints, with what
  becomes of the program when a run never returns or ends the process. Floating-point numbers are
  a linearly ordered type, because \<open>total_cmp\<close> is a total order, with the operations the code uses
  as parameters.
\<close>

section \<open>Backends and arguments\<close>

datatype Backend = Tcp | Rustls | Fizz | FizzCpp

fun backend_csv :: "Backend \<Rightarrow> string" where
  "backend_csv Tcp = ''tcp''"
| "backend_csv Rustls = ''rustls''"
| "backend_csv Fizz = ''fizz''"
| "backend_csv FizzCpp = ''fizz_cpp''"

record Cli =
  cli_backend :: "Backend option"
  cli_all_backends :: bool
  cli_pairs :: u64
  cli_pairs_sweep :: "u64 list option"
  cli_batch_size :: u64
  cli_rounds :: u64
  cli_warmup :: nat
  cli_runs :: nat
  cli_csv_header :: bool

section \<open>Materials\<close>

text \<open>
  What rcgen and rustls answer: the self-signed certificate with its key, the server configuration
  made of it, and the certificate's place among the roots. The configurations themselves only go back
  to rustls, so here they are whether they could be made.
\<close>

record rustls_lib =
  rl_self_signed :: "string + unit"
  rl_single_cert :: "string + unit"
  rl_add_root :: "string + unit"

definition rustls_configs :: "rustls_lib \<Rightarrow> string + unit" where
  "rustls_configs L =
     and_then (map_err (\<lambda>e. ''rcgen: '' @ e) (rl_self_signed L)) (\<lambda>_.
     and_then (map_err (\<lambda>e. ''rustls server config: '' @ e) (rl_single_cert L)) (\<lambda>_.
     map_err (\<lambda>e. ''root store: '' @ e) (rl_add_root L)))"

text \<open>The certificate, the credential and the info for the fizz backends, from the fixture files.\<close>

definition load_fizz_materials ::
  "('x, 'k, 't, 's, 'p, 'd) tls_crypto \<Rightarrow> clock \<Rightarrow> string
     \<Rightarrow> FizzError + CertificatePublicHandle \<times> DelegatedCredentialData \<times> VerificationInfo \<times> string" where
  "load_fizz_materials K now dir =
     (let cert_path = dir @ ''/fizz.crt''; key_path = dir @ ''/fizz.key''
      in and_then (Certificate_load_from_files (crypto.truncate K) cert_path key_path) (\<lambda>cert.
         and_then (CertificatePublic_load_from_file (crypto.truncate K) cert_path) (\<lambda>cert_public.
         and_then (CredentialGenerator_new (dc_crypto.truncate K) cert) (\<lambda>generator.
         and_then (CredentialGenerator_generate (dc_crypto.truncate K) now generator
                     ''tls-bench-ablation'' 3600) (\<lambda>dc.
         Inr (cert_public, dc, DelegatedCredentialData_verification_info dc, cert_path))))))"

text \<open>Both contexts from the materials; a context that cannot be made is a panic.\<close>

definition bench_fizz_ctxs ::
  "('x, 'k, 't, 's, 'p, 'd) tls_crypto \<Rightarrow> clock \<Rightarrow> string
     \<Rightarrow> (('s, 'd) ServerTlsContext \<times> ClientTlsContext) option bench_outcome" where
  "bench_fizz_ctxs K now dir =
     (case load_fizz_materials K now dir of
        Inl _ \<Rightarrow> BenchReturns None
      | Inr (cp, dc, vi, ca_path) \<Rightarrow>
          (case ServerTlsContext_new K cp dc of
             Inl _ \<Rightarrow> BenchThrows ''fizz server ctx''
           | Inr server \<Rightarrow>
               (case ClientTlsContext_new vi ca_path of
                  Inl _ \<Rightarrow> BenchThrows ''fizz client ctx''
                | Inr client \<Rightarrow> BenchReturns (Some (server, client)))))"

section \<open>One run\<close>

record 'x run_envs =
  ev_tcp :: "(stream, tcp_client) run_env"
  ev_rustls :: "((string + stream) option, rustls_client) run_env"
  ev_server_name :: "string + unit"
  ev_fizz :: "('x fizz_peer, 'x fizz_peer) run_env"
  ev_cpp :: bench_env

fun awaited :: "'a option \<Rightarrow> 'a bench_outcome" where
  "awaited None = BenchHangs"
| "awaited (Some r) = BenchReturns r"

fun map_outcome :: "('a \<Rightarrow> 'b) \<Rightarrow> 'a bench_outcome \<Rightarrow> 'b bench_outcome" where
  "map_outcome f (BenchReturns x) = BenchReturns (f x)"
| "map_outcome f (BenchThrows e) = BenchThrows e"
| "map_outcome f BenchTerminates = BenchTerminates"
| "map_outcome f BenchHangs = BenchHangs"

definition run_backend ::
  "('x, 'k, 't, 's, 'p, 'd) tls_crypto \<Rightarrow> 'x run_envs \<Rightarrow> Backend \<Rightarrow> u64 \<Rightarrow> u64 \<Rightarrow> u64 \<Rightarrow> bool
     \<Rightarrow> (('s, 'd) ServerTlsContext \<times> ClientTlsContext) option \<Rightarrow> (string + unit) bench_outcome" where
  "run_backend K ev backend pairs batch_size rounds rustls fizz =
     (case backend of
        Tcp \<Rightarrow> awaited (run_tcp (ev_tcp ev) (unat pairs) (unat batch_size) (unat rounds))
      | Rustls \<Rightarrow>
          if rustls
          then awaited (run_rustls (ev_rustls ev) (ev_server_name ev) (unat pairs) (unat batch_size)
                 (unat rounds))
          else BenchReturns (Inl ''rustls configs missing'')
      | Fizz \<Rightarrow>
          (case fizz of
             None \<Rightarrow> BenchReturns (Inl ''fizz contexts missing'')
           | Some (s, c) \<Rightarrow>
               awaited (run_fizz K (ev_fizz ev) s c (unat pairs) (unat batch_size) (unat rounds)))
      | FizzCpp \<Rightarrow>
          (case fizz of
             None \<Rightarrow> BenchReturns (Inl ''fizz contexts missing'')
           | Some (s, c) \<Rightarrow>
               map_outcome (\<lambda>r. map_err (\<lambda>e. ''fizz_cpp: '' @ error_display e) (map_ok (\<lambda>_. ()) r))
                 (cpp_bench_run
                    (run_fizz_cpp_bench K (ev_cpp ev) (ctc_inner c) pairs batch_size rounds))))"

section \<open>Statistics\<close>

text \<open>
  \<open>fl_ms\<close> is \<open>as_secs_f64() * 1000.0\<close> of a duration, \<open>fl_half\<close> and \<open>fl_secs\<close> the divisions by two and by
  a thousand, \<open>fl_mb\<close> the conversion of a byte count to mebibytes.
\<close>

record 'f floats =
  fl_zero :: 'f
  fl_ms :: "nat \<Rightarrow> 'f"
  fl_add :: "'f \<Rightarrow> 'f \<Rightarrow> 'f"
  fl_half :: "'f \<Rightarrow> 'f"
  fl_secs :: "'f \<Rightarrow> 'f"
  fl_mb :: "u64 \<Rightarrow> 'f"
  fl_div :: "'f \<Rightarrow> 'f \<Rightarrow> 'f"
  fl_positive :: "'f \<Rightarrow> bool"
  fl_fmt3 :: "'f \<Rightarrow> string"

definition median_ms :: "'f :: linorder floats \<Rightarrow> nat list \<Rightarrow> 'f" where
  "median_ms N samples =
     (let ms = sort (map (fl_ms N) samples);
          mid = length ms div 2
      in if ms = [] then fl_zero N
         else if length ms mod 2 = 1 then ms ! mid
         else fl_half N (fl_add N (ms ! (mid - 1)) (ms ! mid)))"

definition saturating_mul :: "u64 \<Rightarrow> u64 \<Rightarrow> u64" where
  "saturating_mul a b = (if unat a * unat b < 2 ^ 64 then a * b else - 1)"

definition total_bytes :: "u64 \<Rightarrow> u64 \<Rightarrow> u64 \<Rightarrow> u64" where
  "total_bytes pairs rounds batch_size =
     saturating_mul (saturating_mul (saturating_mul 2 pairs) rounds) batch_size"

section \<open>The table\<close>

text \<open>A number is printed in decimal; \<open>row_head\<close> is the seven columns every row starts with.\<close>

definition show_u64 :: "u64 \<Rightarrow> string" where
  "show_u64 n = dec_of_nat (unat n)"

fun comma_join :: "string list \<Rightarrow> string" where
  "comma_join [] = []"
| "comma_join [x] = x"
| "comma_join (x # y # xs) = x @ '','' @ comma_join (y # xs)"

definition row_head :: "Cli \<Rightarrow> u64 \<Rightarrow> Backend \<Rightarrow> string list" where
  "row_head cli pairs backend =
     [backend_csv backend, show_u64 pairs, show_u64 pairs, show_u64 pairs, show_u64 (pairs + pairs),
      show_u64 (cli_batch_size cli), show_u64 (cli_rounds cli)]"

definition replace_commas :: "string \<Rightarrow> string" where
  "replace_commas s = map (\<lambda>c. if c = CHR '','' then CHR '';'' else c) s"

definition error_row :: "Cli \<Rightarrow> u64 \<Rightarrow> Backend \<Rightarrow> string \<Rightarrow> string" where
  "error_row cli pairs backend e = comma_join (row_head cli pairs backend @ [[], [], [], e])"

definition result_row ::
  "'f :: linorder floats \<Rightarrow> Cli \<Rightarrow> u64 \<Rightarrow> Backend \<Rightarrow> nat list \<Rightarrow> string" where
  "result_row N cli pairs backend samples =
     (let wall_ms = median_ms N samples;
          secs = fl_secs N wall_ms;
          total = total_bytes pairs (cli_rounds cli) (cli_batch_size cli);
          mb_per_s = (if fl_positive N secs then fl_div N (fl_mb N total) secs else fl_zero N)
      in comma_join (row_head cli pairs backend
           @ [fl_fmt3 N wall_ms, show_u64 total, fl_fmt3 N mb_per_s, []]))"

section \<open>The loops of main\<close>

text \<open>
  \<open>run i\<close> is what the \<open>i\<close>th call of \<open>run_backend\<close> for a backend and a number of pairs comes to, and how
  long it took. The warm-up throws its results away; the measured runs stop at the first error,
  whose text they give. A call that does not return stops the program there.
\<close>

fun warm_up :: "(nat \<Rightarrow> (string + unit) bench_outcome \<times> nat) \<Rightarrow> nat \<Rightarrow> nat \<Rightarrow> unit bench_outcome" where
  "warm_up run i 0 = BenchReturns ()"
| "warm_up run i (Suc warmup) =
     (case fst (run i) of
        BenchReturns _ \<Rightarrow> warm_up run (Suc i) warmup
      | BenchThrows e \<Rightarrow> BenchThrows e
      | BenchTerminates \<Rightarrow> BenchTerminates
      | BenchHangs \<Rightarrow> BenchHangs)"

fun measure_runs ::
  "(nat \<Rightarrow> (string + unit) bench_outcome \<times> nat) \<Rightarrow> nat \<Rightarrow> nat \<Rightarrow> (string + nat list) bench_outcome" where
  "measure_runs run i 0 = BenchReturns (Inr [])"
| "measure_runs run i (Suc runs) =
     (case run i of
        (BenchReturns (Inl e), _) \<Rightarrow> BenchReturns (Inl e)
      | (BenchReturns (Inr _), elapsed) \<Rightarrow>
          map_outcome (map_ok (\<lambda>samples. elapsed # samples)) (measure_runs run (Suc i) runs)
      | (BenchThrows e, _) \<Rightarrow> BenchThrows e
      | (BenchTerminates, _) \<Rightarrow> BenchTerminates
      | (BenchHangs, _) \<Rightarrow> BenchHangs)"

text \<open>What one backend prints for one number of pairs, and whether the program goes on.\<close>

definition backend_rows ::
  "'f :: linorder floats \<Rightarrow> (Backend \<Rightarrow> u64 \<Rightarrow> nat \<Rightarrow> (string + unit) bench_outcome \<times> nat) \<Rightarrow> bool \<Rightarrow> bool
     \<Rightarrow> Cli \<Rightarrow> u64 \<Rightarrow> Backend \<Rightarrow> string list \<times> unit bench_outcome" where
  "backend_rows N run rustls fizz cli pairs backend =
     (if backend = Rustls \<and> \<not> rustls
      then ([error_row cli pairs backend ''rustls_config_error''], BenchReturns ())
      else if (backend = Fizz \<or> backend = FizzCpp) \<and> \<not> fizz
      then ([error_row cli pairs backend ''fizz_fixtures_error''], BenchReturns ())
      else
        (case warm_up (run backend pairs) 0 (cli_warmup cli) of
           BenchReturns _ \<Rightarrow>
             (case measure_runs (run backend pairs) (cli_warmup cli) (cli_runs cli) of
                BenchReturns (Inl e) \<Rightarrow>
                  ([error_row cli pairs backend (replace_commas e)], BenchReturns ())
              | BenchReturns (Inr samples) \<Rightarrow>
                  (if samples = [] then [] else [result_row N cli pairs backend samples], BenchReturns ())
              | stuck \<Rightarrow> ([], map_outcome (\<lambda>_. ()) stuck))
         | stuck \<Rightarrow> ([], stuck)))"

fun rows_of_all ::
  "('a \<Rightarrow> string list \<times> unit bench_outcome) \<Rightarrow> 'a list \<Rightarrow> string list \<times> unit bench_outcome" where
  "rows_of_all rows [] = ([], BenchReturns ())"
| "rows_of_all rows (x # xs) =
     (case rows x of
        (out, BenchReturns _) \<Rightarrow> (case rows_of_all rows xs of (out', r) \<Rightarrow> (out @ out', r))
      | (out, stuck) \<Rightarrow> (out, stuck))"

text \<open>The loop over the numbers of pairs; each needs its two runtimes, whose failure ends \<open>main\<close>.\<close>

definition build_runtime :: "string \<Rightarrow> string + unit \<Rightarrow> string + unit" where
  "build_runtime name built = map_err (\<lambda>_. ''tokio runtime: '' @ name) built"

fun bench_loop ::
  "(u64 \<Rightarrow> (string + unit) \<times> (string + unit)) \<Rightarrow> (u64 \<Rightarrow> string list \<times> unit bench_outcome) \<Rightarrow> u64 list
     \<Rightarrow> string list \<times> (string + unit) bench_outcome" where
  "bench_loop rt rows [] = ([], BenchReturns (Inr ()))"
| "bench_loop rt rows (pairs # ps) =
     (case and_then (build_runtime ''ablation-client'' (fst (rt pairs)))
             (\<lambda>_. build_runtime ''ablation-server'' (snd (rt pairs))) of
        Inl e \<Rightarrow> ([], BenchReturns (Inl e))
      | Inr _ \<Rightarrow>
          (case rows pairs of
             (out, BenchReturns _) \<Rightarrow> (case bench_loop rt rows ps of (out', r) \<Rightarrow> (out @ out', r))
           | (out, stuck) \<Rightarrow> (out, map_outcome (\<lambda>_. Inr ()) stuck)))"

definition csv_header :: string where
  "csv_header =
     ''backend,pairs,client_workers,server_workers,max_blocking_threads,batch_size,rounds,wall_ms,total_bytes,mb_per_s,error''"

definition bench_backends :: "Cli \<Rightarrow> string + Backend list" where
  "bench_backends cli =
     (if cli_all_backends cli then Inr [Tcp, Rustls, Fizz, FizzCpp]
      else map_ok (\<lambda>b. [b]) (ok_or ''pass --backend or use --all-backends'' (cli_backend cli)))"

definition bench_pairs :: "Cli \<Rightarrow> u64 list" where
  "bench_pairs cli =
     (case cli_pairs_sweep cli of
        Some v \<Rightarrow> if v \<noteq> [] then map (\<lambda>n. max n 1) v else [max (cli_pairs cli) 1]
      | None \<Rightarrow> [max (cli_pairs cli) 1])"

definition bench_main ::
  "('x, 'k, 't, 's, 'p, 'd) tls_crypto \<Rightarrow> 'f :: linorder floats \<Rightarrow> clock \<Rightarrow> string
     \<Rightarrow> (u64 \<Rightarrow> (string + unit) \<times> (string + unit)) \<Rightarrow> (Backend \<Rightarrow> u64 \<Rightarrow> nat \<Rightarrow> 'x run_envs \<times> nat)
     \<Rightarrow> rustls_lib \<Rightarrow> Cli \<Rightarrow> string list \<times> (string + unit) bench_outcome" where
  "bench_main K N now dir rt ev L cli =
     (case bench_backends cli of
        Inl e \<Rightarrow> ([], BenchReturns (Inl e))
      | Inr backends \<Rightarrow>
          (case bench_fizz_ctxs K now dir of
             BenchReturns fizz \<Rightarrow>
               (let rustls = is_ok (rustls_configs L);
                    run = (\<lambda>backend pairs i.
                      (run_backend K (fst (ev backend pairs i)) backend pairs (cli_batch_size cli)
                         (cli_rounds cli) rustls fizz, snd (ev backend pairs i)));
                    (out, r) = bench_loop rt
                      (\<lambda>pairs. rows_of_all (backend_rows N run rustls (fizz \<noteq> None) cli pairs) backends)
                      (bench_pairs cli)
                in ((if cli_csv_header cli then [csv_header] else []) @ out, r))
           | stuck \<Rightarrow> ([], map_outcome (\<lambda>_. Inr ()) stuck)))"

section \<open>Arithmetic\<close>

lemma unat_saturating_mul: "unat (saturating_mul a b) = min (unat a * unat b) (2 ^ 64 - 1)"
proof (cases "unat a * unat b < 2 ^ 64")
  case True
  then have "unat (a * b) = unat a * unat b" by (simp add: unat_word_ariths)
  with True show ?thesis by (simp add: saturating_mul_def)
next
  case False
  moreover have "unat (- 1 :: u64) = 2 ^ 64 - 1" by (simp add: unsigned_minus_1_eq_mask mask_eq_exp_minus_1)
  ultimately show ?thesis by (simp add: saturating_mul_def)
qed

text \<open>Cutting a product off before the next factor does not change where it is cut off in the end.\<close>

lemma min_mult_min: "min (min n m * k) m = min (n * k) (m :: nat)"
  by (cases k) (auto simp: min_def)

section \<open>Counting columns\<close>

definition commas :: "string \<Rightarrow> nat" where
  "commas s = length (filter (\<lambda>c. c = CHR '','') s)"

lemma commas_append [simp]: "commas (s @ t) = commas s + commas t"
  by (simp add: commas_def)

lemma commas_Nil [simp]: "commas [] = 0"
  by (simp add: commas_def)

lemma commas_comma_join: "\<forall>x \<in> set xs. commas x = 0 \<Longrightarrow> commas (comma_join xs) = length xs - 1"
  by (induction xs rule: comma_join.induct) (auto simp: commas_def)

lemma commas_show_u64 [simp]: "commas (show_u64 n) = 0"
  using dec_of_nat_digits [of "CHR '',''" "unat n"]
  by (auto simp: commas_def show_u64_def is_dec_digit_def filter_empty_conv)

lemma commas_backend_csv [simp]: "commas (backend_csv b) = 0"
  by (cases b) (simp_all add: commas_def)

lemma commas_replace_commas [simp]: "commas (replace_commas s) = 0"
  by (auto simp: commas_def replace_commas_def filter_empty_conv)

lemma commas_reasons [simp]:
  "commas ''rustls_config_error'' = 0" "commas ''fizz_fixtures_error'' = 0"
  by (simp_all add: commas_def)

lemma commas_row_head: "\<forall>x \<in> set (row_head cli pairs backend). commas x = 0"
  by (simp add: row_head_def)

lemma length_row_head: "length (row_head cli pairs backend) = 7"
  by (simp add: row_head_def)

lemma commas_error_row: "commas e = 0 \<Longrightarrow> commas (error_row cli pairs backend e) = 10"
  unfolding error_row_def
  by (subst commas_comma_join) (use commas_row_head in \<open>auto simp: length_row_head\<close>)

lemma commas_result_row:
  "\<forall>x. commas (fl_fmt3 N x) = 0 \<Longrightarrow> commas (result_row N cli pairs backend samples) = 10"
  unfolding result_row_def Let_def
  by (subst commas_comma_join) (use commas_row_head in \<open>auto simp: length_row_head\<close>)

lemma backend_rows_columns:
  assumes "\<forall>x. commas (fl_fmt3 N x) = 0" "row \<in> set (fst (backend_rows N run rustls fizz cli pairs backend))"
  shows "commas row = 10"
  using assms
  by (auto simp: backend_rows_def commas_result_row commas_error_row
      split: if_splits bench_outcome.splits sum.splits)

lemma rows_of_all_columns:
  "\<forall>x \<in> set xs. \<forall>row \<in> set (fst (rows x)). P row \<Longrightarrow> \<forall>row \<in> set (fst (rows_of_all rows xs)). P row"
  by (induction rows xs rule: rows_of_all.induct) (auto split: prod.splits bench_outcome.splits)

lemma bench_loop_columns:
  assumes "\<And>n row. row \<in> set (fst (rows n)) \<Longrightarrow> P row"
  shows "row \<in> set (fst (bench_loop rt rows ps)) \<Longrightarrow> P row"
proof (induction ps)
  case Nil
  then show ?case by simp
next
  case (Cons p ps)
  then show ?case
    using assms [of row p]
    by (cases "rows p") (auto split: prod.splits bench_outcome.splits sum.splits)
qed

section \<open>Counting rows\<close>

lemma measure_runs_length:
  "measure_runs run i n = BenchReturns (Inr samples) \<Longrightarrow> length samples = n"
proof (induction n arbitrary: i samples)
  case 0
  then show ?case by simp
next
  case (Suc n)
  then obtain u elapsed r where "run i = (BenchReturns (Inr u), elapsed)"
    and "measure_runs run (Suc i) n = BenchReturns r" "map_ok (\<lambda>xs. elapsed # xs) r = Inr samples"
    by (auto split: prod.splits bench_outcome.splits sum.splits elim!: map_outcome.elims)
  with Suc.IH show ?case by (auto simp: res_simps)
qed

lemma backend_rows_one:
  assumes "0 < cli_runs cli" "backend_rows N run rustls fizz cli pairs backend = (out, BenchReturns u)"
  shows "length out = 1"
  using assms measure_runs_length [of "run backend pairs" "cli_warmup cli" "cli_runs cli"]
  by (auto simp: backend_rows_def split: if_splits bench_outcome.splits sum.splits)

lemma rows_of_all_length:
  assumes "\<And>x out u. x \<in> set xs \<Longrightarrow> rows x = (out, BenchReturns u) \<Longrightarrow> length out = n"
    and "rows_of_all rows xs = (out, BenchReturns u)"
  shows "length out = length xs * n"
  using assms
proof (induction xs arbitrary: out u)
  case Nil
  then show ?case by simp
next
  case (Cons x xs)
  from Cons.prems(2) obtain o1 o2 v where "rows x = (o1, BenchReturns v)"
    "rows_of_all rows xs = (o2, BenchReturns u)" "out = o1 @ o2"
    by (auto split: prod.splits bench_outcome.splits)
  moreover have "length o2 = length xs * n"
    by (rule Cons.IH [OF _ \<open>rows_of_all rows xs = (o2, BenchReturns u)\<close>])
      (rule Cons.prems(1), auto)
  ultimately show ?case using Cons.prems(1) [of x] by simp
qed

lemma bench_loop_length:
  assumes "\<And>p out u. rows p = (out, BenchReturns u) \<Longrightarrow> length out = n"
    and "bench_loop rt rows ps = (out, BenchReturns (Inr ()))"
  shows "length out = length ps * n"
  using assms(2)
proof (induction ps arbitrary: out)
  case Nil
  then show ?case by simp
next
  case (Cons p ps)
  from Cons.prems obtain o1 o2 v where "rows p = (o1, BenchReturns v)"
    "bench_loop rt rows ps = (o2, BenchReturns (Inr ()))" "out = o1 @ o2"
    by (auto split: prod.splits bench_outcome.splits sum.splits)
  with Cons.IH [of o2] show ?case by (simp add: assms(1))
qed

section \<open>The median\<close>

lemma length_filter_sort: "length (filter P (sort xs)) = length (filter P (xs :: 'a :: linorder list))"
  by (metis mset_filter mset_sort size_mset)

lemma sorted_below:
  assumes "sorted xs" "k < length xs"
  shows "length (filter (\<lambda>x. x < xs ! k) xs) \<le> k" "length (filter (\<lambda>x. xs ! k < x) xs) < length xs - k"
proof -
  have hi: "\<forall>x \<in> set (drop k xs). xs ! k \<le> x"
    using assms by (auto simp: in_set_conv_nth sorted_iff_nth_mono)
  have lo: "\<forall>x \<in> set (take (Suc k) xs). x \<le> xs ! k"
    using assms by (auto simp: in_set_conv_nth sorted_iff_nth_mono)
  have "filter (\<lambda>x. x < xs ! k) (drop k xs) = []" using hi by (auto simp: filter_empty_conv)
  then have "filter (\<lambda>x. x < xs ! k) xs = filter (\<lambda>x. x < xs ! k) (take k xs)"
    by (metis append_Nil2 append_take_drop_id filter_append)
  then show "length (filter (\<lambda>x. x < xs ! k) xs) \<le> k"
    by (metis length_filter_le length_take min.cobounded2 order_trans)
  have "filter (\<lambda>x. xs ! k < x) (take (Suc k) xs) = []" using lo by (auto simp: filter_empty_conv)
  then have "filter (\<lambda>x. xs ! k < x) xs = filter (\<lambda>x. xs ! k < x) (drop (Suc k) xs)"
    by (metis append_Nil append_take_drop_id filter_append)
  then have "length (filter (\<lambda>x. xs ! k < x) xs) \<le> length xs - Suc k"
    by (metis length_drop length_filter_le)
  with assms(2) show "length (filter (\<lambda>x. xs ! k < x) xs) < length xs - k" by simp
qed

section \<open>A concrete instance\<close>

definition sample_floats :: "nat floats" where
  "sample_floats =
     \<lparr>fl_zero = 0, fl_ms = (\<lambda>d. d), fl_add = (+), fl_half = (\<lambda>x. x div 2), fl_secs = (\<lambda>x. x div 1000),
      fl_mb = unat, fl_div = (div), fl_positive = (\<lambda>x. 0 < x), fl_fmt3 = (\<lambda>x. dec_of_nat x @ ''.000'')\<rparr>"

definition sample_cli :: Cli where
  "sample_cli =
     \<lparr>cli_backend = Some Rustls, cli_all_backends = False, cli_pairs = 1,
      cli_pairs_sweep = Some [1, 2], cli_batch_size = 16384, cli_rounds = 64, cli_warmup = 0,
      cli_runs = 3, cli_csv_header = True\<rparr>"

definition idle_env :: "('s, 'c) run_env" where
  "idle_env =
     \<lparr>re_bind = Inr (), re_set_nonblocking = Inr (), re_local_addr = Inr (), re_from_std = Inr (),
      re_arrivals = [], re_server_tasks = [], re_client_tasks = [], re_server_join = None\<rparr>"

definition sample_envs :: "unit run_envs" where
  "sample_envs =
     \<lparr>ev_tcp = sample_refused, ev_rustls = idle_env, ev_server_name = Inr (), ev_fizz = idle_env,
      ev_cpp = sample_bench\<rparr>"

lemma sample_floats_no_comma: "commas (fl_fmt3 sample_floats x) = 0"
  using dec_of_nat_digits [of "CHR '',''" x]
  by (auto simp: sample_floats_def commas_def is_dec_digit_def filter_empty_conv)

section \<open>Properties\<close>

text \<open>C31. The number of bytes in a row is the exact product of the four factors, cut off at the largest
  64-bit number: it never wraps around.\<close>

theorem total_bytes_saturates:
  "unat (total_bytes pairs rounds batch_size) =
     min (2 * unat pairs * unat rounds * unat batch_size) (2 ^ 64 - 1)"
  by (simp add: total_bytes_def unat_saturating_mul min_mult_min)

text \<open>The reported median does not depend on the order in which the samples were taken, and for an
  odd number of runs it is one of them, with fewer than half of them below it and fewer than half
  above it.\<close>

theorem median_is_middle:
  assumes "mset samples' = mset samples" "odd (length samples)"
  shows "median_ms N samples' = median_ms N samples
    \<and> median_ms N samples \<in> fl_ms N ` set samples
    \<and> 2 * length (filter (\<lambda>d. fl_ms N d < median_ms N samples) samples) < length samples
    \<and> 2 * length (filter (\<lambda>d. median_ms N samples < fl_ms N d) samples) < length samples"
proof -
  define ms where "ms = sort (map (fl_ms N) samples)"
  have same: "sort (map (fl_ms N) samples') = ms"
    unfolding ms_def using assms(1) by (intro properties_for_sort) (simp_all add: mset_map)
  have len: "length ms = length samples" by (simp add: ms_def)
  have mid: "length ms div 2 < length ms" "length ms = Suc (2 * (length ms div 2))"
    using assms(2) len by presburger+
  then have "ms \<noteq> []" by auto
  then have med: "median_ms N samples = ms ! (length ms div 2)"
    using assms(2) len by (simp add: median_ms_def Let_def ms_def [symmetric] odd_iff_mod_2_eq_one)
  have "ms ! (length ms div 2) \<in> set ms" using mid(1) by (rule nth_mem)
  then have "median_ms N samples \<in> fl_ms N ` set samples" by (simp add: med ms_def)
  moreover have "median_ms N samples' = median_ms N samples"
    by (simp add: median_ms_def Let_def same) (simp add: ms_def)
  moreover have count: "length (filter (\<lambda>d. P (fl_ms N d)) samples) = length (filter P ms)" for P
    by (simp add: ms_def length_filter_sort filter_map comp_def)
  moreover have "sorted ms" by (simp add: ms_def)
  note sorted_below [OF this mid(1)]
  ultimately show ?thesis
    using mid len count [of "\<lambda>x. x < ms ! (length ms div 2)"] count [of "\<lambda>x. ms ! (length ms div 2) < x"]
    unfolding med by linarith
qed

theorem median_is_middle_witness:
  "median_ms sample_floats [30, 10, 20] = median_ms sample_floats [10, 20, 30]
   \<and> 2 * length (filter (\<lambda>d. d < median_ms sample_floats [10, 20, 30]) [10, 20, 30]) < 3"
  using median_is_middle [of "[30, 10, 20]" "[10, 20, 30]" sample_floats]
  by (simp add: sample_floats_def)

text \<open>Every line the benchmark prints has exactly eleven columns, also when an error text or a
  missing configuration is reported; and a program that ends normally after at least one measured
  run has printed one row for each backend and each number of pairs, after the header.\<close>

theorem csv_table_shape:
  assumes "\<forall>x. commas (fl_fmt3 N x) = 0"
  shows "(\<forall>row \<in> set (fst (bench_main K N now dir rt ev L cli)). commas row = 10)
    \<and> (snd (bench_main K N now dir rt ev L cli) = BenchReturns (Inr ()) \<and> 0 < cli_runs cli \<longrightarrow>
         (\<exists>backends. bench_backends cli = Inr backends
            \<and> length (fst (bench_main K N now dir rt ev L cli)) =
                (if cli_csv_header cli then 1 else 0) + length (bench_pairs cli) * length backends))"
proof (cases "bench_backends cli")
  case (Inl e)
  then show ?thesis by (simp add: bench_main_def)
next
  case (Inr backends)
  show ?thesis
  proof (cases "bench_fizz_ctxs K now dir")
    case (BenchReturns fizz)
    define rustls where "rustls = is_ok (rustls_configs L)"
    define run where "run = (\<lambda>backend pairs i.
      (run_backend K (fst (ev backend pairs i)) backend pairs (cli_batch_size cli) (cli_rounds cli)
         rustls fizz, snd (ev backend pairs i)))"
    define rows where "rows = (\<lambda>pairs.
      rows_of_all (backend_rows N run rustls (fizz \<noteq> None) cli pairs) backends)"
    obtain out r where loop: "bench_loop rt rows (bench_pairs cli) = (out, r)" by fastforce
    have main: "bench_main K N now dir rt ev L cli =
        ((if cli_csv_header cli then [csv_header] else []) @ out, r)"
      using Inr BenchReturns loop by (simp add: bench_main_def run_def rows_def rustls_def Let_def)
    have "commas row = 10" if "row \<in> set (fst (rows n))" for n row
      using that rows_of_all_columns [of backends "backend_rows N run rustls (fizz \<noteq> None) cli n"
          "\<lambda>row. commas row = 10"] backend_rows_columns [OF assms]
      by (auto simp: rows_def)
    then have "commas row = 10" if "row \<in> set out" for row
      using bench_loop_columns [of rows "\<lambda>row. commas row = 10" row rt "bench_pairs cli"] that loop
      by auto
    moreover have "commas csv_header = 10" by (simp add: commas_def csv_header_def)
    moreover have "length out = length (bench_pairs cli) * length backends"
      if "r = BenchReturns (Inr ())" "0 < cli_runs cli"
    proof (rule bench_loop_length)
      show "bench_loop rt rows (bench_pairs cli) = (out, BenchReturns (Inr ()))" using loop that by simp
      show "length o1 = length backends" if "rows p = (o1, BenchReturns u)" for p o1 u
        using rows_of_all_length [OF backend_rows_one [OF \<open>0 < cli_runs cli\<close>] that [unfolded rows_def]]
        by simp
    qed
    ultimately show ?thesis using main Inr by simp
  qed (simp_all add: bench_main_def Inr)
qed

theorem csv_table_shape_witness:
  "list_all (\<lambda>row. commas row = 10)
     (fst (bench_main (sample_tls 100 900) sample_floats \<lparr>ticks = 1000, hz = 1\<rparr> ''fixtures''
        (\<lambda>_. (Inr (), Inr ())) (\<lambda>_ _ _. (sample_envs, 5))
        \<lparr>rl_self_signed = Inl ''no entropy'', rl_single_cert = Inr (), rl_add_root = Inr ()\<rparr> sample_cli))"
  using csv_table_shape [of sample_floats] sample_floats_no_comma unfolding list_all_iff by blast

end
