(* ===== verification/Fizz_Cpp_Steps.thy ===== *)
theory Fizz_Cpp_Steps
  imports Fizz_Cpp_Session
begin

text \<open>
  The sessions of the C++ benchmark under every order of callbacks: step relations for both classes and
  what holds in every state they reach. folly promises that a write is called back once, that data
  comes only to a read callback that is set, and that the handshake is reported once; these are the
  guards of the steps.
\<close>

section \<open>Steps of a server session\<close>

definition es_reading :: "'a EchoSession_scheme \<Rightarrow> bool" where
  "es_reading s \<longleftrightarrow> EsSetReadCB True \<in> set (es_calls s)"

inductive ess_step ::
  "iobq \<Rightarrow> (es_call list \<Rightarrow> write_outcome) \<Rightarrow> (es_call list \<Rightarrow> bool) \<Rightarrow> EchoSession \<Rightarrow> EchoSession \<Rightarrow> bool"
  for Q io good where
  ess_success: "\<not> es_destroyed s \<Longrightarrow> \<not> es_reported s \<Longrightarrow>
    ess_step Q io good s (ess_fizzHandshakeSuccess (s\<lparr>es_reported := True\<rparr>))"
| ess_error: "\<not> es_destroyed s \<Longrightarrow> \<not> es_reported s \<Longrightarrow>
    ess_step Q io good s (ess_fizzHandshakeError what (s\<lparr>es_reported := True\<rparr>))"
| ess_fallback: "\<not> es_destroyed s \<Longrightarrow> \<not> es_reported s \<Longrightarrow>
    ess_step Q io good s (ess_fizzHandshakeAttemptFallback (s\<lparr>es_reported := True\<rparr>))"
| ess_data: "\<not> es_destroyed s \<Longrightarrow> es_reading s \<Longrightarrow> ess_readDataAvailable Q io s bs = Some s' \<Longrightarrow>
    ess_step Q io good s s'"
| ess_eof: "\<not> es_destroyed s \<Longrightarrow> es_reading s \<Longrightarrow> ess_step Q io good s (es_readEOF ''server'' s)"
| ess_read_err: "\<not> es_destroyed s \<Longrightarrow> es_reading s \<Longrightarrow>
    ess_step Q io good s (es_readErr ''server'' what s)"
| ess_written: "\<not> es_destroyed s \<Longrightarrow> es_callbacks s < length (es_writes s) \<Longrightarrow>
    ess_step Q io good s (es_writeSuccess s)"
| ess_write_err: "\<not> es_destroyed s \<Longrightarrow> es_callbacks s < length (es_writes s) \<Longrightarrow>
    ess_step Q io good s (es_writeErr ''server'' what s)"
| ess_in_loop: "0 < es_scheduled s \<Longrightarrow>
    ess_step Q io good s (es_finish_in_loop good s)"

inductive ess_reach ::
  "iobq \<Rightarrow> (es_call list \<Rightarrow> write_outcome) \<Rightarrow> (es_call list \<Rightarrow> bool) \<Rightarrow> u64 \<Rightarrow> u64 \<Rightarrow> EchoSession \<Rightarrow> bool"
  for Q io good b r where
  ess_init: "ess_reach Q io good b r (ess_start (EchoServerSession_new b r))"
| ess_next: "ess_reach Q io good b r s \<Longrightarrow> ess_step Q io good s s' \<Longrightarrow> ess_reach Q io good b r s'"

section \<open>What a server session keeps\<close>

text \<open>
  The bytes written and the bytes queued are the bytes received; every write is one batch; writes made
  and reads left add up to the rounds.
\<close>

definition ess_data_inv :: "u64 \<Rightarrow> u64 \<Rightarrow> EchoSession \<Rightarrow> bool" where
  "ess_data_inv b r s \<longleftrightarrow>
     es_batchSize s = b
     \<and> concat (es_writes s) @ concat (es_readQueue s) = es_received s
     \<and> (\<forall>w \<in> set (es_writes s). length w = unat b)
     \<and> length (es_writes s) + unat (es_reads_remaining s) = unat r"

text \<open>Between callbacks no whole batch is left in the queue, and a session that read all has stopped.\<close>

definition ess_inv :: "u64 \<Rightarrow> u64 \<Rightarrow> EchoSession \<Rightarrow> bool" where
  "ess_inv b r s \<longleftrightarrow>
     settled s \<and> ess_data_inv b r s
     \<and> (es_reads_remaining s = 0 \<longrightarrow> es_stopped s)
     \<and> (es_reads_remaining s = 0 \<or> length (concat (es_readQueue s)) < unat b)"

lemma ess_data_inv_kept [simp]:
  "ess_data_inv b r (maybeFinish s) = ess_data_inv b r s"
  "ess_data_inv b r (setError m s) = ess_data_inv b r s"
  "ess_data_inv b r (es_writeSuccess s) = ess_data_inv b r s"
  "ess_data_inv b r (es_writeErr d w s) = ess_data_inv b r s"
  "ess_data_inv b r (s\<lparr>es_stopped := st\<rparr>) = ess_data_inv b r s"
  "ess_data_inv b r (s\<lparr>es_reported := st\<rparr>) = ess_data_inv b r s"
  by (simp_all add: ess_data_inv_def)

lemma settled_reported [simp]: "settled (s\<lparr>es_reported := st\<rparr>) = settled s"
  by (simp add: settled_def books_def es_result_def)

lemma books_reported [simp]: "books (s\<lparr>es_reported := st\<rparr>) = books s"
  by (simp add: books_def es_result_def)

lemma settled_call:
  "(\<And>bs. c \<noteq> EsWriteChain bs) \<Longrightarrow> settled (es_call c s) = settled s"
  by (cases c) (auto simp: settled_def books_def es_writes_call)

lemma settled_books: "settled s \<Longrightarrow> books s"
  by (simp add: settled_def)

lemma settled_finish_in_loop:
  assumes "settled s" "0 < es_scheduled s"
  shows "settled (es_finish_in_loop good s)"
  using assms
  by (auto simp: es_finish_in_loop_def settled_def books_def Let_def es_writes_call es_result_def
      split: option.splits)

lemma finish_in_loop_fields [simp]:
  "es_batchSize (es_finish_in_loop good s) = es_batchSize s"
  "es_reads_remaining (es_finish_in_loop good s) = es_reads_remaining s"
  "es_readQueue (es_finish_in_loop good s) = es_readQueue s"
  "es_received (es_finish_in_loop good s) = es_received s"
  "es_stopped (es_finish_in_loop good s) = es_stopped s"
  "es_writes (es_finish_in_loop good s) = es_writes s"
  "es_destroyed (es_finish_in_loop good s)"
  by (simp_all add: es_finish_in_loop_def Let_def es_writes_call)

lemma ess_inv_reported [simp]: "ess_inv b r (s\<lparr>es_reported := st\<rparr>) = ess_inv b r s"
  by (simp add: ess_inv_def)

lemma ess_inv_setError: "ess_inv b r s \<Longrightarrow> \<not> es_destroyed s \<Longrightarrow> ess_inv b r (setError m s)"
  by (simp add: ess_inv_def settled_setError settled_books)

lemma ess_inv_callback:
  assumes "ess_inv b r s" "\<not> es_destroyed s" "es_callbacks s < length (es_writes s)"
  shows "ess_inv b r (es_writeSuccess s)" "ess_inv b r (es_writeErr d w s)"
  using assms by (simp_all add: ess_inv_def settled_writeSuccess settled_writeErr settled_books)

lemma ess_inv_readEOF: "ess_inv b r s \<Longrightarrow> \<not> es_destroyed s \<Longrightarrow> ess_inv b r (es_readEOF d s)"
  by (auto simp: es_readEOF_def ess_inv_setError) (simp add: ess_inv_def word_gt_0)

lemma ess_inv_finish: "ess_inv b r s \<Longrightarrow> 0 < es_scheduled s \<Longrightarrow> ess_inv b r (es_finish_in_loop good s)"
  by (simp add: ess_inv_def settled_finish_in_loop ess_data_inv_def)

lemma stopped_writeChain: "es_stopped s \<Longrightarrow> es_stopped (es_writeChain io d bs s)"
  by (auto simp: es_writeChain_def Let_def split: write_outcome.splits)

context iobuf_queue
begin

lemma ess_echo_loop_keeps:
  assumes "settled s" "ess_data_inv b r s" "\<not> es_destroyed s"
  shows "\<exists>s'. ess_echo_loop Q io s = Some s' \<and> settled s' \<and> ess_data_inv b r s' \<and> \<not> es_destroyed s'
    \<and> es_received s' = es_received s \<and> (es_stopped s \<longrightarrow> es_stopped s')
    \<and> (es_reads_remaining s' = 0 \<or> length (concat (es_readQueue s')) < unat b)"
  using assms
proof (induction "unat (es_reads_remaining s)" arbitrary: s rule: less_induct)
  case less
  show ?case
  proof (cases "unat b \<le> length (concat (es_readQueue s)) \<and> es_reads_remaining s \<noteq> 0")
    case True
    have b: "es_batchSize s = b" using less.prems by (simp add: ess_data_inv_def)
    from True split_enough obtain data rest where sp: "split Q (unat b) (es_readQueue s) = Inr (data, rest)"
      and dr: "concat data = take (unat b) (concat (es_readQueue s))"
        "concat rest = drop (unat b) (concat (es_readQueue s))" by blast
    define s1 where "s1 = es_writeChain io ''server'' (concat data)
      (s\<lparr>es_readQueue := rest, es_writes_in_flight := es_writes_in_flight s + 1,
         es_reads_remaining := es_reads_remaining s - 1\<rparr>)"
    have loop: "ess_echo_loop Q io s = ess_echo_loop Q io s1"
      using True sp b by (subst ess_echo_loop.simps) (simp add: s1_def)
    have reads: "unat (es_reads_remaining s - 1) = unat (es_reads_remaining s) - 1"
        "0 < unat (es_reads_remaining s)"
      using True by (simp_all add: unat_minus_one unat_gt_0)
    have "settled s1"
      unfolding s1_def using less.prems True reads unat_u64_less [of r]
      by (intro settled_send) (auto simp: ess_data_inv_def)
    moreover have "ess_data_inv b r s1"
      using less.prems True reads dr
      by (auto simp: s1_def ess_data_inv_def simp flip: append_assoc [of "concat (es_writes s)"])
    moreover have "\<not> es_destroyed s1" using less.prems by (simp add: s1_def)
    moreover have "unat (es_reads_remaining s1) < unat (es_reads_remaining s)"
      using True by (simp add: s1_def unat_dec_less)
    moreover have "es_received s1 = es_received s" "es_stopped s \<longrightarrow> es_stopped s1"
      by (simp_all add: s1_def stopped_writeChain)
    ultimately show ?thesis using less.hyps [of s1] loop by auto
  next
    case False
    with less.prems show ?thesis
      by (subst ess_echo_loop.simps) (auto simp: ess_data_inv_def)
  qed
qed

lemma ess_inv_readDataAvailable:
  assumes "ess_inv b r s" "\<not> es_destroyed s"
  shows "\<exists>s'. ess_readDataAvailable Q io s bs = Some s' \<and> ess_inv b r s'"
proof -
  define s0 where "s0 = s\<lparr>es_readQueue := postallocate Q (es_readQueue s) bs,
    es_received := es_received s @ bs\<rparr>"
  have "settled s0" "ess_data_inv b r s0" "\<not> es_destroyed s0"
    using assms
    by (auto simp: s0_def ess_inv_def settled_def books_def es_result_def ess_data_inv_def
        postallocate_concat)
  then obtain s1 where s1: "ess_echo_loop Q io s0 = Some s1" "settled s1" "ess_data_inv b r s1"
      "\<not> es_destroyed s1" "es_reads_remaining s1 = 0 \<or> length (concat (es_readQueue s1)) < unat b"
    using ess_echo_loop_keeps [of s0 b r io] by blast
  then show ?thesis
    by (auto simp: ess_readDataAvailable_def s0_def [symmetric] ess_inv_def
        intro: settled_stop dest: settled_books)
qed

lemma ess_inv_step:
  assumes "ess_step Q io good s s'" "ess_inv b r s"
  shows "ess_inv b r s'"
  using assms
proof cases
  case (ess_data bs)
  with assms(2) ess_inv_readDataAvailable [of b r s io bs] show ?thesis by auto
next
  case ess_success
  with assms(2) show ?thesis
    by (auto simp: ess_fizzHandshakeSuccess_def Let_def ess_inv_def settled_call es_writes_call
        ess_data_inv_def intro!: settled_stop settled_books)
qed (simp_all add: ess_fizzHandshakeError_def ess_fizzHandshakeAttemptFallback_def es_readErr_def
    ess_inv_setError ess_inv_callback ess_inv_readEOF ess_inv_finish assms(2))

lemma ess_reach_inv:
  assumes "ess_reach Q io good b r s" "b \<noteq> 0" "r \<noteq> 0"
  shows "ess_inv b r s"
  using assms
proof induction
  case ess_init
  then show ?case
    by (simp add: ess_inv_def ess_start_def EchoServerSession_new_def settled_def books_def
        ess_data_inv_def es_writes_call es_writes_def es_call_def List.map_filter_simps unat_gt_0)
next
  case (ess_next s s')
  then show ?case by (blast intro: ess_inv_step)
qed

end

section \<open>Steps of a client session\<close>

inductive ecs_step ::
  "('x, 'k, 't, 's, 'p, 'd) tls_crypto \<Rightarrow> iobq \<Rightarrow> (es_call list \<Rightarrow> write_outcome)
     \<Rightarrow> (es_call list \<Rightarrow> bool) \<Rightarrow> EchoClientSession \<Rightarrow> EchoClientSession \<Rightarrow> bool"
  for K Q io good where
  ecs_success: "\<not> es_destroyed s \<Longrightarrow> \<not> es_reported s \<Longrightarrow>
    ecs_step K Q io good s (ecs_fizzHandshakeSuccess K io (s\<lparr>es_reported := True\<rparr>) cert)"
| ecs_error: "\<not> es_destroyed s \<Longrightarrow> \<not> es_reported s \<Longrightarrow>
    ecs_step K Q io good s (ecs_fizzHandshakeError what (s\<lparr>es_reported := True\<rparr>))"
| ecs_data: "\<not> es_destroyed s \<Longrightarrow> es_reading s \<Longrightarrow> ecs_readDataAvailable Q io s bs = Some s' \<Longrightarrow>
    ecs_step K Q io good s s'"
| ecs_eof: "\<not> es_destroyed s \<Longrightarrow> es_reading s \<Longrightarrow> ecs_step K Q io good s (es_readEOF ''client'' s)"
| ecs_read_err: "\<not> es_destroyed s \<Longrightarrow> es_reading s \<Longrightarrow>
    ecs_step K Q io good s (es_readErr ''client'' what s)"
| ecs_written: "\<not> es_destroyed s \<Longrightarrow> es_callbacks s < length (es_writes s) \<Longrightarrow>
    ecs_step K Q io good s (es_writeSuccess s)"
| ecs_write_err: "\<not> es_destroyed s \<Longrightarrow> es_callbacks s < length (es_writes s) \<Longrightarrow>
    ecs_step K Q io good s (es_writeErr ''client'' what s)"
| ecs_in_loop: "0 < es_scheduled s \<Longrightarrow>
    ecs_step K Q io good s (es_finish_in_loop good s)"

inductive ecs_reach ::
  "('x, 'k, 't, 's, 'p, 'd) tls_crypto \<Rightarrow> iobq \<Rightarrow> (es_call list \<Rightarrow> write_outcome)
     \<Rightarrow> (es_call list \<Rightarrow> bool) \<Rightarrow> FizzClientContext \<Rightarrow> string \<Rightarrow> u64 \<Rightarrow> u64 \<Rightarrow> EchoClientSession \<Rightarrow> bool"
  for K Q io good ctx sni b r where
  ecs_init: "ecs_reach K Q io good ctx sni b r (ecs_start (EchoClientSession_new ctx sni b r))"
| ecs_next: "ecs_reach K Q io good ctx sni b r s \<Longrightarrow> ecs_step K Q io good s s'
    \<Longrightarrow> ecs_reach K Q io good ctx sni b r s'"

section \<open>What a client session keeps\<close>

text \<open>
  The client has one batch more on its way than it got back, until the last one is sent: it never
  sends ahead of the echo.
\<close>

definition rounds_read :: "u64 \<Rightarrow> 'a EchoSession_scheme \<Rightarrow> nat" where
  "rounds_read r s = unat r - unat (es_reads_remaining s)"

definition ecs_data_inv :: "u64 \<Rightarrow> u64 \<Rightarrow> EchoClientSession \<Rightarrow> bool" where
  "ecs_data_inv b r s \<longleftrightarrow>
     es_batchSize s = b \<and> cs_sendBuf s = replicate (unat b) 0x5A
     \<and> (\<forall>w \<in> set (es_writes s). w = replicate (unat b) 0x5A)
     \<and> unat (es_reads_remaining s) \<le> unat r
     \<and> rounds_read r s * unat b \<le> length (es_received s)
     \<and> concat (es_readQueue s) = drop (rounds_read r s * unat b) (es_received s)
     \<and> length (es_writes s) = (if es_reading s then min (unat r) (Suc (rounds_read r s)) else 0)
     \<and> (es_reading s \<longrightarrow> es_reported s)
     \<and> (\<not> es_reading s \<longrightarrow> es_reads_remaining s = r)"

definition ecs_inv :: "u64 \<Rightarrow> u64 \<Rightarrow> EchoClientSession \<Rightarrow> bool" where
  "ecs_inv b r s \<longleftrightarrow>
     settled s \<and> ecs_data_inv b r s
     \<and> (es_reads_remaining s = 0 \<longrightarrow> es_stopped s)
     \<and> (es_reads_remaining s = 0 \<or> length (concat (es_readQueue s)) < unat b)"

lemma rounds_read_kept [simp]:
  "rounds_read r (maybeFinish s) = rounds_read r s" "rounds_read r (setError m s) = rounds_read r s"
  "rounds_read r (es_writeSuccess s) = rounds_read r s"
  "rounds_read r (es_writeErr d w s) = rounds_read r s"
  "rounds_read r (es_call c s) = rounds_read r s"
  "rounds_read r (es_writeChain io d bs s) = rounds_read r s"
  "rounds_read r (es_finish_in_loop good s) = rounds_read r s"
  by (simp_all add: rounds_read_def)

lemma es_reading_kept [simp]:
  "es_reading (maybeFinish s) = es_reading s" "es_reading (setError m s) = es_reading s"
  "es_reading (es_writeSuccess s) = es_reading s" "es_reading (es_writeErr d w s) = es_reading s"
  "es_reading (es_writeChain io d bs s) = es_reading s"
  "es_reading (es_finish_in_loop good s) = es_reading s"
  by (auto simp: es_reading_def es_finish_in_loop_def Let_def)

lemma sendBuf_kept [simp]:
  "cs_sendBuf (maybeFinish s) = cs_sendBuf s" "cs_sendBuf (setError m s) = cs_sendBuf s"
  "cs_sendBuf (es_writeSuccess s) = cs_sendBuf s" "cs_sendBuf (es_writeErr d w s) = cs_sendBuf s"
  "cs_sendBuf (es_call c s) = cs_sendBuf s" "cs_sendBuf (es_writeChain io d bs s) = cs_sendBuf s"
  "cs_sendBuf (es_finish_in_loop good s) = cs_sendBuf s"
  by (simp_all add: maybeFinish_def setError_def es_writeSuccess_def es_writeErr_def es_call_def
      es_writeChain_def es_finish_in_loop_def Let_def split: write_outcome.splits)

lemma ecs_data_inv_kept [simp]:
  "ecs_data_inv b r (maybeFinish s) = ecs_data_inv b r s"
  "ecs_data_inv b r (setError m s) = ecs_data_inv b r s"
  "ecs_data_inv b r (es_writeSuccess s) = ecs_data_inv b r s"
  "ecs_data_inv b r (es_writeErr d w s) = ecs_data_inv b r s"
  "ecs_data_inv b r (s\<lparr>es_stopped := st\<rparr>) = ecs_data_inv b r s"
  by (simp_all add: ecs_data_inv_def es_reading_def rounds_read_def)

lemma ecs_data_inv_closeNow [simp]: "ecs_data_inv b r (es_call EsCloseNow s) = ecs_data_inv b r s"
  by (simp add: ecs_data_inv_def es_writes_call es_reading_def)

lemma ecs_data_inv_finish [simp]:
  "ecs_data_inv b r (es_finish_in_loop good s) = ecs_data_inv b r s"
  by (simp add: ecs_data_inv_def) (simp add: es_finish_in_loop_def Let_def)

lemma ecs_inv_setError: "ecs_inv b r s \<Longrightarrow> \<not> es_destroyed s \<Longrightarrow> ecs_inv b r (setError m s)"
  by (simp add: ecs_inv_def settled_setError settled_books)

lemma ecs_inv_callback:
  assumes "ecs_inv b r s" "\<not> es_destroyed s" "es_callbacks s < length (es_writes s)"
  shows "ecs_inv b r (es_writeSuccess s)" "ecs_inv b r (es_writeErr d w s)"
  using assms by (simp_all add: ecs_inv_def settled_writeSuccess settled_writeErr settled_books)

lemma ecs_inv_readEOF: "ecs_inv b r s \<Longrightarrow> \<not> es_destroyed s \<Longrightarrow> ecs_inv b r (es_readEOF d s)"
  by (auto simp: es_readEOF_def ecs_inv_setError) (simp add: ecs_inv_def word_gt_0)

lemma ecs_inv_finish: "ecs_inv b r s \<Longrightarrow> 0 < es_scheduled s \<Longrightarrow> ecs_inv b r (es_finish_in_loop good s)"
  by (simp add: ecs_inv_def settled_finish_in_loop)

text \<open>Sending the next batch, from a session that waits for no more than it has sent.\<close>

lemma settled_sendOne:
  assumes "books s" "\<not> es_destroyed s" "es_reads_remaining s \<noteq> 0"
    and "length (es_writes s) < 2 ^ 64 - 1"
  shows "settled (ecs_sendOne io s)"
proof -
  have "unat (es_writes_in_flight s + 1) = Suc (unat (es_writes_in_flight s))"
    using assms by (auto simp: books_def unat_word_ariths)
  moreover from this have "es_writes_in_flight s + 1 \<noteq> 0" by auto
  ultimately show ?thesis
    using assms unfolding ecs_sendOne_def
    by (intro settled_writeChain) (auto simp: books_def es_writes_call es_result_def)
qed

lemma sendOne_fields [simp]:
  "es_batchSize (ecs_sendOne io s) = es_batchSize s" "es_readQueue (ecs_sendOne io s) = es_readQueue s"
  "es_received (ecs_sendOne io s) = es_received s" "es_reported (ecs_sendOne io s) = es_reported s"
  "es_destroyed (ecs_sendOne io s) = es_destroyed s" "cs_sendBuf (ecs_sendOne io s) = cs_sendBuf s"
  "es_writes (ecs_sendOne io s) = es_writes s @ [cs_sendBuf s]"
  "es_reading (ecs_sendOne io s) = es_reading s"
  "rounds_read r (ecs_sendOne io s) = rounds_read r s"
  by (simp_all add: ecs_sendOne_def es_reading_def rounds_read_def)

context iobuf_queue
begin

lemma ecs_echo_loop_keeps:
  assumes "books s" "ecs_data_inv b r s" "\<not> es_destroyed s" "es_reading s"
    "es_reads_remaining s = 0 \<longrightarrow> es_stopped s"
  shows "\<exists>s'. ecs_echo_loop Q io s = Some s' \<and> books s' \<and> ecs_data_inv b r s' \<and> \<not> es_destroyed s'
    \<and> (es_reads_remaining s' = 0 \<longrightarrow> es_stopped s')
    \<and> (es_reads_remaining s' = 0 \<or> length (concat (es_readQueue s')) < unat b)"
  using assms
proof (induction "unat (es_reads_remaining s)" arbitrary: s rule: less_induct)
  case less
  show ?case
  proof (cases "unat b \<le> length (concat (es_readQueue s)) \<and> es_reads_remaining s \<noteq> 0")
    case True
    have b: "es_batchSize s = b" using less.prems by (simp add: ecs_data_inv_def)
    from True split_enough obtain data rest where sp: "split Q (unat b) (es_readQueue s) = Inr (data, rest)"
      and dr: "concat rest = drop (unat b) (concat (es_readQueue s))" by blast
    define s1 where "s1 = s\<lparr>es_readQueue := rest, es_reads_remaining := es_reads_remaining s - 1\<rparr>"
    have loop: "ecs_echo_loop Q io s =
        (if es_reads_remaining s1 = 0 then Some (s1\<lparr>es_stopped := True\<rparr>)
         else ecs_echo_loop Q io (ecs_sendOne io s1))"
      using True sp b by (subst ecs_echo_loop.simps) (simp add: s1_def)
    have reads: "unat (es_reads_remaining s - 1) = unat (es_reads_remaining s) - 1"
        "0 < unat (es_reads_remaining s)"
      using True by (simp_all add: unat_minus_one unat_gt_0)
    have le: "unat (es_reads_remaining s) \<le> unat r" using less.prems by (simp add: ecs_data_inv_def)
    have rr: "rounds_read r s1 = Suc (rounds_read r s)" "Suc (rounds_read r s) \<le> unat r"
      using reads le by (simp_all add: rounds_read_def s1_def)
    have "books s1"
      using less.prems True by (auto simp: s1_def books_def es_result_def)
    have rec: "Suc (rounds_read r s) * unat b \<le> length (es_received s)"
      using less.prems True by (auto simp: ecs_data_inv_def)
    have q: "concat rest = drop (Suc (rounds_read r s) * unat b) (es_received s)"
      using less.prems dr by (simp add: ecs_data_inv_def add.commute)
    have fields: "es_writes s1 = es_writes s" "es_reading s1 = es_reading s"
        "es_destroyed s1 = es_destroyed s" "es_received s1 = es_received s"
        "es_batchSize s1 = es_batchSize s" "cs_sendBuf s1 = cs_sendBuf s"
        "es_reported s1 = es_reported s" "es_readQueue s1 = rest"
      by (simp_all add: s1_def es_reading_def)
    have s1_reads: "unat (es_reads_remaining s1) \<le> unat r" using reads le by (simp add: s1_def)
    show ?thesis
    proof (cases "es_reads_remaining s1 = 0")
      case True
      then have all: "rounds_read r s1 = unat r" by (simp add: rounds_read_def)
      have "length (es_writes s) = unat r"
        using less.prems(2,4) rr all by (simp add: ecs_data_inv_def)
      then have "ecs_data_inv b r s1"
        using less.prems(2,4) rec q rr all True by (simp add: ecs_data_inv_def fields)
      moreover have "books (s1\<lparr>es_stopped := True\<rparr>)"
        using \<open>books s1\<close> True by (simp add: books_def es_result_def)
      ultimately show ?thesis using loop True less.prems(3) by (simp add: fields)
    next
      case False
      define s2 where "s2 = ecs_sendOne io s1"
      have "rounds_read r s1 < unat r"
        using False rr s1_reads by (auto simp: rounds_read_def simp flip: unat_eq_zero)
      then have lenw: "length (es_writes s) = Suc (rounds_read r s)" "Suc (Suc (rounds_read r s)) \<le> unat r"
        using less.prems rr by (auto simp: ecs_data_inv_def)
      have "settled s2"
        unfolding s2_def using \<open>books s1\<close> less.prems(3) False lenw unat_u64_less [of r]
        by (intro settled_sendOne) (auto simp: fields)
      moreover have "ecs_data_inv b r s2"
        using less.prems(2,4) rec q rr lenw s1_reads by (simp add: ecs_data_inv_def s2_def fields)
      moreover have "unat (es_reads_remaining s2) < unat (es_reads_remaining s)"
        using True by (simp add: s2_def s1_def unat_dec_less)
      moreover have "\<not> es_destroyed s2" "es_reading s2" "es_reads_remaining s2 \<noteq> 0"
        using less.prems False by (simp_all add: s2_def fields)
      ultimately show ?thesis
        using less.hyps [of s2] loop False by (auto simp: settled_books s2_def)
    qed
  next
    case False
    with less.prems show ?thesis
      by (subst ecs_echo_loop.simps) (auto simp: ecs_data_inv_def)
  qed
qed

lemma ecs_inv_readDataAvailable:
  assumes "ecs_inv b r s" "\<not> es_destroyed s" "es_reading s"
  shows "\<exists>s'. ecs_readDataAvailable Q io s bs = Some s' \<and> ecs_inv b r s'"
proof -
  define s0 where "s0 = s\<lparr>es_readQueue := postallocate Q (es_readQueue s) bs,
    es_received := es_received s @ bs\<rparr>"
  have "books s0" "\<not> es_destroyed s0" "es_reading s0"
      "es_reads_remaining s0 = 0 \<longrightarrow> es_stopped s0"
    using assms
    by (auto simp: s0_def ecs_inv_def settled_def books_def es_result_def es_reading_def)
  moreover have "ecs_data_inv b r s0"
    using assms
    by (simp add: s0_def ecs_inv_def ecs_data_inv_def rounds_read_def es_reading_def postallocate_concat)
  ultimately obtain s1 where "ecs_echo_loop Q io s0 = Some s1" "books s1" "ecs_data_inv b r s1"
      "\<not> es_destroyed s1" "es_reads_remaining s1 = 0 \<longrightarrow> es_stopped s1"
      "es_reads_remaining s1 = 0 \<or> length (concat (es_readQueue s1)) < unat b"
    using ecs_echo_loop_keeps [of s0 b r io] by blast
  then show ?thesis
    by (auto simp: ecs_readDataAvailable_def s0_def [symmetric] ecs_inv_def settled_maybeFinish
        settled_def [of s1])
qed

lemma ecs_inv_success:
  assumes "ecs_inv b r s" "\<not> es_destroyed s" "\<not> es_reported s" "r \<noteq> 0"
  shows "ecs_inv b r (ecs_fizzHandshakeSuccess K io (s\<lparr>es_reported := True\<rparr>) cert)"
proof -
  define s0 where "s0 = s\<lparr>es_reported := True\<rparr>"
  have not_reading: "\<not> es_reading s" "es_reads_remaining s = r" "es_writes s = []"
    using assms(1,3) by (auto simp: ecs_inv_def ecs_data_inv_def)
  have inv0: "ecs_inv b r s0" "\<not> es_destroyed s0"
    using assms not_reading
    by (auto simp: s0_def ecs_inv_def ecs_data_inv_def es_reading_def rounds_read_def)
  have close: "ecs_inv b r (es_call EsCloseNow s0)"
    using inv0 by (simp add: ecs_inv_def settled_call)
  define s1 where "s1 = es_call (EsSetReadCB True) s0"
  have s1: "settled s1" "es_reading s1" "es_writes s1 = []" "es_reads_remaining s1 = r"
    using inv0 not_reading
    by (simp_all add: s1_def s0_def ecs_inv_def settled_call es_writes_call es_reading_def)
  have "settled (ecs_sendOne io s1)"
    using s1 inv0 assms(4) by (intro settled_sendOne) (simp_all add: settled_books s1_def)
  moreover have "ecs_data_inv b r (ecs_sendOne io s1)"
    using s1 inv0 not_reading assms(4)
    by (auto simp: ecs_inv_def ecs_data_inv_def s1_def s0_def rounds_read_def Suc_le_eq unat_gt_0)
  ultimately have "ecs_inv b r (ecs_sendOne io s1)"
    using s1 inv0 assms(4) by (simp add: ecs_inv_def) (simp add: s1_def)
  then show ?thesis
    using inv0 close s1(4) assms(4) ecs_inv_setError [of b r s0] ecs_inv_setError [OF close]
    by (simp add: ecs_fizzHandshakeSuccess_def s0_def [symmetric] Let_def s1_def
        split: option.splits server_cert.splits sum.splits)
qed

lemma ecs_inv_step:
  assumes "ecs_step K Q io good s s'" "ecs_inv b r s" "r \<noteq> 0"
  shows "ecs_inv b r s'"
  using assms(1)
proof cases
  case (ecs_data bs)
  with assms(2) ecs_inv_readDataAvailable [of b r s io bs] show ?thesis by auto
next
  case (ecs_success cert)
  with assms ecs_inv_success show ?thesis by blast
next
  case (ecs_error what)
  with assms(2) have "ecs_inv b r (s\<lparr>es_reported := True\<rparr>)"
    by (auto simp: ecs_inv_def ecs_data_inv_def es_reading_def rounds_read_def)
  with ecs_error show ?thesis by (simp add: ecs_fizzHandshakeError_def ecs_inv_setError)
qed (simp_all add: es_readErr_def ecs_inv_setError ecs_inv_callback ecs_inv_readEOF ecs_inv_finish
    assms(2))

lemma ecs_reach_inv:
  assumes "ecs_reach K Q io good ctx sni b r s" "b \<noteq> 0" "r \<noteq> 0"
  shows "ecs_inv b r s"
  using assms
proof induction
  case ecs_init
  then show ?case
    by (simp add: ecs_inv_def ecs_start_def EchoClientSession_new_def EchoServerSession_new_def
        EchoSession.defs EchoClientSession.defs settled_def books_def ecs_data_inv_def es_writes_def
        es_call_def List.map_filter_simps es_reading_def rounds_read_def unat_gt_0)
next
  case (ecs_next s s')
  then show ?case by (blast intro: ecs_inv_step)
qed

end

section \<open>Results\<close>

lemma length_concat_const: "\<forall>w \<in> set ws. length w = n \<Longrightarrow> length (concat ws) = length ws * n"
  by (induction ws) auto

lemma done_value:
  assumes "settled s" "es_done s = [Inr ()]"
  shows "es_error_msg s = None" "es_finished s" "es_writes_in_flight s = 0" "es_reads_remaining s = 0"
    "es_callbacks s = length (es_writes s)"
proof -
  show err: "es_error_msg s = None"
    using assms by (auto simp: settled_def books_def es_result_def split: if_splits option.splits)
  show fin: "es_finished s" using assms by (auto simp: settled_def books_def split: if_splits)
  with err assms(1) show fl: "es_writes_in_flight s = 0" by (simp add: settled_def books_def)
  with err fin assms(1) show "es_reads_remaining s = 0" "es_callbacks s = length (es_writes s)"
    by (simp_all add: settled_def books_def)
qed

lemma done_at_most_once: "settled s \<Longrightarrow> length (es_done s) \<le> 1"
  by (simp add: settled_def books_def)

lemma ess_written_prefix:
  assumes "ess_data_inv b r s"
  shows "concat (es_writes s) = take (length (es_writes s) * unat b) (es_received s)"
    "length (es_writes s) * unat b \<le> length (es_received s)"
    "length (es_received s) = length (es_writes s) * unat b + length (concat (es_readQueue s))"
proof -
  have "length (concat (es_writes s)) = length (es_writes s) * unat b"
    and rec: "es_received s = concat (es_writes s) @ concat (es_readQueue s)"
    using assms by (auto simp: ess_data_inv_def length_concat_const)
  then show "concat (es_writes s) = take (length (es_writes s) * unat b) (es_received s)"
    "length (es_writes s) * unat b \<le> length (es_received s)"
    "length (es_received s) = length (es_writes s) * unat b + length (concat (es_readQueue s))"
    by (simp_all add: rec)
qed

lemma ess_all_read:
  assumes "ess_inv b r s" "unat r * unat b \<le> length (es_received s)"
  shows "es_reads_remaining s = 0"
proof (rule ccontr)
  assume reads: "es_reads_remaining s \<noteq> 0"
  then have less: "length (es_writes s) < unat r" and q: "length (concat (es_readQueue s)) < unat b"
    and inv: "ess_data_inv b r s"
    using assms(1) by (auto simp: ess_inv_def ess_data_inv_def simp flip: unat_eq_zero)
  from less have "Suc (length (es_writes s)) * unat b \<le> unat r * unat b"
    by (intro mult_le_mono1) simp
  with q assms(2) ess_written_prefix(3) [OF inv] show False by simp
qed

section \<open>A concrete instance\<close>

text \<open>A server that echoes one batch of two bytes, its write called back at once.\<close>

definition sample_listening :: EchoSession where
  "sample_listening = ess_fizzHandshakeSuccess
     ((ess_start (EchoServerSession_new 2 1))\<lparr>es_reported := True\<rparr>)"

definition sample_echoed :: EchoSession where
  "sample_echoed = the (ess_readDataAvailable block_queue (\<lambda>_. WriteDone) sample_listening [7, 8, 9])"

lemma sample_echoed_eq:
  "ess_readDataAvailable block_queue (\<lambda>_. WriteDone) sample_listening [7, 8, 9] = Some sample_echoed"
  by (simp add: sample_echoed_def sample_listening_def ess_readDataAvailable_def ess_fizzHandshakeSuccess_def
      ess_start_def EchoServerSession_new_def es_call_def Let_def block_queue_def
      ess_echo_loop.simps es_writeChain_def es_writeSuccess_def maybeFinish_def)

lemmas sample_server_defs = sample_echoed_def sample_listening_def ess_readDataAvailable_def
  ess_fizzHandshakeSuccess_def ess_start_def EchoServerSession_new_def es_call_def Let_def
  block_queue_def ess_echo_loop.simps es_writeChain_def es_writeSuccess_def maybeFinish_def
  es_writes_def List.map_filter_simps

lemma sample_listening_reach:
  "ess_reach block_queue (\<lambda>_. WriteDone) (\<lambda>_. True) 2 1 sample_listening"
  unfolding sample_listening_def
  by (rule ess_next [OF ess_init ess_success])
    (simp_all add: ess_start_def EchoServerSession_new_def es_call_def)

lemma sample_echoed_reach:
  "ess_reach block_queue (\<lambda>_. WriteDone) (\<lambda>_. True) 2 1 sample_echoed"
  by (rule ess_next [OF sample_listening_reach ess_data [OF _ _ sample_echoed_eq]])
    (simp_all add: sample_server_defs es_reading_def)

lemma sample_echoed_fields:
  "es_done sample_echoed = []" "es_scheduled sample_echoed = 1" "\<not> es_destroyed sample_echoed"
  "es_error_msg sample_echoed = None" "es_received sample_echoed = [7, 8, 9]"
  "es_callbacks sample_echoed = 1" "es_writes sample_echoed = [[7, 8]]"
  by (simp_all add: sample_server_defs)

lemma sample_finished_reach:
  "ess_reach block_queue (\<lambda>_. WriteDone) (\<lambda>_. True) 2 1 (es_finish_in_loop (\<lambda>_. True) sample_echoed)"
  by (rule ess_next [OF sample_echoed_reach ess_in_loop]) (simp_all add: sample_echoed_fields)

lemma finish_in_loop_done:
  "es_done (es_finish_in_loop good s) = es_done s @ [es_result s]"
  "es_callbacks (es_finish_in_loop good s) = es_callbacks s"
  by (simp_all add: es_finish_in_loop_def es_result_def Let_def split: option.splits)

text \<open>A client that sends one batch of two bytes to a server with the expected credential.\<close>

definition sample_sending :: EchoClientSession where
  "sample_sending = ecs_fizzHandshakeSuccess (sample_tls 100 900) (\<lambda>_. WriteDone)
     ((ecs_start (EchoClientSession_new (ctc_inner sample_context) ''localhost'' 2 1))
       \<lparr>es_reported := True\<rparr>) (Some (PeerDelegatedCredential () sample_peer))"

definition sample_answered :: EchoClientSession where
  "sample_answered = the (ecs_readDataAvailable block_queue (\<lambda>_. WriteDone) sample_sending [90, 90])"

lemma sample_peer_verified:
  "verify_peer_dc (sample_tls 100 900) (ctc_inner sample_context) () sample_peer = Inr []"
  by (simp add: verify_peer_dc_def bench_bytes_to_hex_eq sample_tls_expiry sample_context_def sample_peer_def)

lemmas sample_client_defs = sample_answered_def sample_sending_def ecs_readDataAvailable_def
  ecs_fizzHandshakeSuccess_def ecs_start_def EchoClientSession_new_def EchoServerSession_new_def
  EchoSession.defs EchoClientSession.defs sample_peer_verified es_call_def Let_def block_queue_def
  ecs_echo_loop.simps ecs_sendOne_def es_writeChain_def es_writeSuccess_def maybeFinish_def
  es_writes_def List.map_filter_simps

lemma sample_answered_eq:
  "ecs_readDataAvailable block_queue (\<lambda>_. WriteDone) sample_sending [90, 90] = Some sample_answered"
  by (simp add: sample_client_defs)

abbreviation sample_client_reach :: "EchoClientSession \<Rightarrow> bool" where
  "sample_client_reach \<equiv> ecs_reach (sample_tls 100 900) block_queue (\<lambda>_. WriteDone) (\<lambda>_. True)
     (ctc_inner sample_context) ''localhost'' 2 1"

lemma sample_sending_reach: "sample_client_reach sample_sending"
  unfolding sample_sending_def
  by (rule ecs_next [OF ecs_init ecs_success])
    (simp_all add: ecs_start_def EchoClientSession_new_def EchoServerSession_new_def EchoSession.defs
      EchoClientSession.defs es_call_def)

lemma sample_answered_reach: "sample_client_reach sample_answered"
  by (rule ecs_next [OF sample_sending_reach ecs_data [OF _ _ sample_answered_eq]])
    (simp_all add: sample_client_defs es_reading_def)

lemma sample_answered_fields:
  "es_done sample_answered = []" "es_scheduled sample_answered = 1" "\<not> es_destroyed sample_answered"
  "es_error_msg sample_answered = None"
  by (simp_all add: sample_client_defs)

lemma sample_client_finished_reach:
  "sample_client_reach (es_finish_in_loop (\<lambda>_. True) sample_answered)"
  by (rule ecs_next [OF sample_answered_reach ecs_in_loop]) (simp_all add: sample_answered_fields)

section \<open>Properties\<close>

text \<open>C6. In every order of callbacks a server session resolves its promise at most once, and with
  a value only when it has written back exactly the first \<open>rounds * batchSize\<close> bytes it received, in order,
  and every one of those writes was called back.\<close>

theorem server_session_echoes:
  assumes "iobuf_queue Q" "ess_reach Q io good b r s" "b \<noteq> 0" "r \<noteq> 0"
  shows "length (es_done s) \<le> 1
    \<and> (es_done s = [Inr ()] \<longrightarrow>
         concat (es_writes s) = take (unat r * unat b) (es_received s)
         \<and> unat r * unat b \<le> length (es_received s) \<and> es_callbacks s = unat r)"
proof -
  have inv: "settled s" "ess_data_inv b r s"
    using iobuf_queue.ess_reach_inv [OF assms] by (simp_all add: ess_inv_def)
  then show ?thesis
    using done_at_most_once [of s] done_value [of s] ess_written_prefix [of b r s]
    by (auto simp: ess_data_inv_def)
qed

theorem server_session_echoes_witness:
  "length (es_done (es_finish_in_loop (\<lambda>_. True) sample_echoed)) \<le> 1
   \<and> concat (es_writes (es_finish_in_loop (\<lambda>_. True) sample_echoed)) = [7, 8]
   \<and> es_callbacks (es_finish_in_loop (\<lambda>_. True) sample_echoed) = 1"
  using server_session_echoes [OF block.iobuf_queue_axioms sample_finished_reach]
  by (simp add: finish_in_loop_done es_result_def sample_echoed_fields)

text \<open>C18. A server session that got its bytes completes: whatever the order of callbacks, data always
  finds the queue large enough, and once \<open>rounds * batchSize\<close> bytes have come, every write was called back
  and no error was recorded, the closure is scheduled and resolves the promise with a value.\<close>

theorem server_session_completes:
  assumes "iobuf_queue Q" "ess_reach Q io good b r s" "b \<noteq> 0" "r \<noteq> 0" "\<not> es_destroyed s"
  shows "(\<exists>s'. ess_readDataAvailable Q io s bs = Some s')
    \<and> (unat r * unat b \<le> length (es_received s) \<and> es_callbacks s = length (es_writes s)
         \<and> es_error_msg s = None \<longrightarrow>
         es_scheduled s = 1 \<and> es_done (es_finish_in_loop good s) = [Inr ()])"
proof -
  have inv: "ess_inv b r s" by (rule iobuf_queue.ess_reach_inv [OF assms(1-4)])
  have "\<exists>s'. ess_readDataAvailable Q io s bs = Some s'"
    using iobuf_queue.ess_inv_readDataAvailable [OF assms(1) inv assms(5)] by blast
  moreover have "es_scheduled s = 1 \<and> es_done (es_finish_in_loop good s) = [Inr ()]"
    if "unat r * unat b \<le> length (es_received s)" "es_callbacks s = length (es_writes s)"
      "es_error_msg s = None"
  proof -
    have "es_reads_remaining s = 0" by (rule ess_all_read [OF inv that(1)])
    then have "es_finished s"
      using inv that(2) by (auto simp: ess_inv_def settled_def books_def unat_eq_zero)
    then show ?thesis
      using inv assms(5) that(3)
      by (auto simp: ess_inv_def settled_def books_def finish_in_loop_done es_result_def)
  qed
  ultimately show ?thesis by blast
qed

theorem server_session_completes_witness:
  "(\<exists>s'. ess_readDataAvailable block_queue (\<lambda>_. WriteDone) sample_echoed [1] = Some s')
   \<and> es_scheduled sample_echoed = 1
   \<and> es_done (es_finish_in_loop (\<lambda>_. True) sample_echoed) = [Inr ()]"
  using server_session_completes [OF block.iobuf_queue_axioms sample_echoed_reach, of "[1]"]
  by (simp add: sample_echoed_fields)

text \<open>C19. A client session sends no batch before the echo of the one before it has come back: what it
  wrote never exceeds what it received by more than one batch. Its promise is resolved at most once, and
  with a value only when all rounds were sent as the filler batch, called back and echoed.\<close>

theorem client_session_stop_and_wait:
  assumes "iobuf_queue Q" "ecs_reach K Q io good ctx sni b r s" "b \<noteq> 0" "r \<noteq> 0"
  shows "length (concat (es_writes s)) \<le> length (es_received s) + unat b
    \<and> length (es_done s) \<le> 1
    \<and> (es_done s = [Inr ()] \<longrightarrow>
         es_writes s = replicate (unat r) (replicate (unat b) 0x5A)
         \<and> unat r * unat b \<le> length (es_received s) \<and> es_callbacks s = unat r)"
proof -
  have inv: "settled s" "ecs_data_inv b r s"
    using iobuf_queue.ecs_reach_inv [OF assms] by (simp_all add: ecs_inv_def)
  have "length (concat (es_writes s)) = length (es_writes s) * unat b"
    using inv(2) by (intro length_concat_const) (auto simp: ecs_data_inv_def)
  also have "\<dots> \<le> Suc (rounds_read r s) * unat b"
    using inv(2) by (intro mult_le_mono1) (simp add: ecs_data_inv_def)
  also have "\<dots> \<le> length (es_received s) + unat b"
    using inv(2) by (simp add: ecs_data_inv_def)
  finally have "length (concat (es_writes s)) \<le> length (es_received s) + unat b" .
  moreover have "es_writes s = replicate (unat r) (replicate (unat b) 0x5A)
      \<and> unat r * unat b \<le> length (es_received s) \<and> es_callbacks s = unat r"
    if "es_done s = [Inr ()]"
  proof -
    note fin = done_value [OF inv(1) that]
    then have all: "rounds_read r s = unat r" by (simp add: rounds_read_def)
    have "es_reading s" using inv(2) fin(4) assms(4) by (auto simp: ecs_data_inv_def)
    then have len: "length (es_writes s) = unat r" using inv(2) all by (simp add: ecs_data_inv_def)
    moreover have "es_writes s = replicate (length (es_writes s)) (replicate (unat b) 0x5A)"
      using inv(2) by (intro replicate_eqI) (auto simp: ecs_data_inv_def)
    ultimately show ?thesis using inv(2) fin(5) all by (simp add: ecs_data_inv_def)
  qed
  ultimately show ?thesis using done_at_most_once [OF inv(1)] by blast
qed

theorem client_session_stop_and_wait_witness:
  "let s = es_finish_in_loop (\<lambda>_. True) sample_answered
   in es_done s = [Inr ()] \<and> es_writes s = [replicate 2 90] \<and> 2 \<le> length (es_received s)
     \<and> es_callbacks s = 1"
proof -
  have "es_done (es_finish_in_loop (\<lambda>_. True) sample_answered) = [Inr ()]"
    by (simp add: finish_in_loop_done es_result_def sample_answered_fields)
  with client_session_stop_and_wait [OF block.iobuf_queue_axioms sample_client_finished_reach]
  show ?thesis by (simp add: Let_def)
qed

text \<open>C23. The benchmark's own check of the peer's credential accepts exactly what the library's check
  accepts on a connection made from the same context, and fails where that one fails.\<close>

theorem verify_peer_dc_agrees:
  assumes "cx_dcEnabled ctx"
  shows "(verify_peer_dc K ctx leaf dc = Inr [] \<longleftrightarrow>
       verifyVerificationInfoAgainstPeerDelegatedCredential K (client_expectations ctx conn) leaf dc = Inr [])
    \<and> (verify_peer_dc K ctx leaf dc = Inl what \<longleftrightarrow>
       verifyVerificationInfoAgainstPeerDelegatedCredential K (client_expectations ctx conn) leaf dc
         = Inl what)"
  using assms
  by (cases "getCredentialExpiresTime K leaf dc")
    (auto simp: verify_peer_dc_def bench_bytes_to_hex_eq verifyVerificationInfoAgainstPeerDelegatedCredential_def
      client_expectations_def Let_def)

theorem verify_peer_dc_agrees_witness:
  "verifyVerificationInfoAgainstPeerDelegatedCredential (sample_tls 100 900)
     (client_expectations (ctc_inner sample_context) (blank_client 7)) () sample_peer = Inr []"
  using verify_peer_dc_agrees [of "ctc_inner sample_context" "sample_tls 100 900" "()" sample_peer
      "blank_client 7"] sample_peer_verified
  by (simp add: sample_context_def)

end
