(* ===== verification/Fizz_Build.thy ===== *)
theory Fizz_Build
  imports Fizz_Prelude
begin

text \<open>
  The build script \<open>src/build.rs\<close>: patching the fizz sources, building fizz with its own tool, compiling the
  bridge and the lines printed for cargo. The file system, the programs \<open>patch\<close>, \<open>python3\<close> and
  \<open>brew\<close> and the compiler are parameters; the state is the files and the lines printed so far, and a
  panic is a text on the right of it. Whether the target is macOS decides the conditional parts.
\<close>

section \<open>State\<close>

record build =
  files :: "string \<Rightarrow> string option"
  printed :: "string list"

definition say :: "string \<Rightarrow> build \<Rightarrow> build" where
  "say line b = b\<lparr>printed := printed b @ [line]\<rparr>"

definition says :: "string list \<Rightarrow> build \<Rightarrow> build" where
  "says ls b = b\<lparr>printed := printed b @ ls\<rparr>"

text \<open>A step of the script: the state after it, and the text of the panic that ended it.\<close>

type_synonym step = "build \<times> string option"

definition and_next :: "step \<Rightarrow> (build \<Rightarrow> step) \<Rightarrow> step" where
  "and_next r f = (case r of (b, Some panic) \<Rightarrow> (b, Some panic) | (b, None) \<Rightarrow> f b)"

section \<open>Patches\<close>

datatype patch_status = PatchApplied | PatchRejected | PatchNotRun string

text \<open>What \<open>patch -p1 -i file\<close> in a directory does to the files, and how it ends.\<close>

type_synonym patch_program =
  "string \<Rightarrow> string \<Rightarrow> (string \<Rightarrow> string option) \<Rightarrow> (string \<Rightarrow> string option) \<times> patch_status"

definition apply_one_patch ::
  "patch_program \<Rightarrow> string \<Rightarrow> string \<Rightarrow> string \<Rightarrow> bool \<Rightarrow> build \<Rightarrow> step" where
  "apply_one_patch P fizz_rs_directory fizz_dir patch_name already_applied b =
     (if already_applied then (b, None)
      else
        (let patch_path = fizz_rs_directory @ ''/patches/'' @ patch_name
         in if files b patch_path = None
            then (say (''cargo:warning=fizz-rs patch not found at '' @ patch_path @
                    ''; see patches/README.md'') b, None)
            else
              (case P fizz_dir patch_path (files b) of
                 (files', PatchApplied) \<Rightarrow>
                   (say (''cargo:warning=Applied patches/'' @ patch_name @ '' to third_party/fizz'')
                      (b\<lparr>files := files'\<rparr>), None)
               | (files', PatchRejected) \<Rightarrow>
                   (b\<lparr>files := files'\<rparr>,
                    Some (''failed to apply '' @ patch_path @
                      ''; fix the patch or apply it manually under third_party/fizz''))
               | (files', PatchNotRun e) \<Rightarrow>
                   (say (''cargo:warning=could not run `patch` ('' @ e @ ''); apply '' @ patch_path @
                      '' manually if the build fails'') b, None))))"

definition map_or_false :: "(string \<Rightarrow> bool) \<Rightarrow> string option \<Rightarrow> bool" where
  "map_or_false f r = (case r of None \<Rightarrow> False | Some c \<Rightarrow> f c)"

definition builder_dir :: "string \<Rightarrow> string" where
  "builder_dir dir = dir @ ''/third_party/fizz/build/fbcode_builder''"

definition openssl_done :: "string \<Rightarrow> (string \<Rightarrow> string option) \<Rightarrow> bool" where
  "openssl_done dir fs =
     map_or_false (\<lambda>c. contains (''homebrew_package_prefix('' @ [CHR 0x22] @ ''openssl@3'' @ [CHR 0x22] @ '')'') c
         \<and> contains ''if candidate and os.path.exists(candidate)'' c)
       (fs (builder_dir dir @ ''/getdeps/buildopts.py''))"

definition pin_done :: "string \<Rightarrow> (string \<Rightarrow> string option) \<Rightarrow> bool" where
  "pin_done dir fs =
     map_or_false (contains ''rev = 034e4d3d3150bf1e245590cbc1e2988cca66eecd'')
       (fs (builder_dir dir @ ''/manifests/fizz''))"

definition xz_done :: "string \<Rightarrow> (string \<Rightarrow> string option) \<Rightarrow> bool" where
  "xz_done dir fs =
     map_or_false (contains (''[debs]'' @ [CHR 0x0A] @ ''liblzma-dev''))
       (fs (builder_dir dir @ ''/manifests/xz''))"

definition apply_fizz_patches :: "patch_program \<Rightarrow> string \<Rightarrow> build \<Rightarrow> step" where
  "apply_fizz_patches P dir b =
     (let fizz_dir = dir @ ''/third_party/fizz''
      in and_next (apply_one_patch P dir fizz_dir ''fizz-homebrew-openssl.patch''
                     (openssl_done dir (files b)) b) (\<lambda>b1.
         and_next (apply_one_patch P dir fizz_dir ''fizz-getdeps-pin-git-rev.patch''
                     (pin_done dir (files b1)) b1) (\<lambda>b2.
         apply_one_patch P dir fizz_dir ''fizz-xz-use-system-package.patch''
           (xz_done dir (files b2)) b2)))"

section \<open>Building fizz\<close>

datatype command_status = CommandSucceeded | CommandFailed | CommandNotRun

record build_env =
  env_manifest_dir :: "string option"
  env_scratch :: "string option"
  env_out_dir :: "string option"
  env_log_file :: bool
  env_log_clone :: bool
  env_getdeps :: command_status
  env_installed :: "string \<Rightarrow> (string + (string + string)) list option"
  env_brew :: "string \<Rightarrow> (bool \<times> string) option"
  env_macos :: bool
  env_deployment_target :: "string option"

text \<open>The result is the install directory, which only counts when there is no panic.\<close>

definition build_fizz :: "patch_program \<Rightarrow> build_env \<Rightarrow> build \<Rightarrow> step \<times> string" where
  "build_fizz P env b =
     (case env_manifest_dir env of
        None \<Rightarrow> ((b, Some ''CARGO_MANIFEST_DIR''), [])
      | Some dir \<Rightarrow>
          (case apply_fizz_patches P dir b of
             (b1, Some panic) \<Rightarrow> ((b1, Some panic), [])
           | (b1, None) \<Rightarrow>
               (let b2 = say ''cargo:rerun-if-env-changed=FIZZ_RS_SCRATCH'' b1
                in case (case env_scratch env of
                           Some d \<Rightarrow> Some d
                         | None \<Rightarrow> map_option (\<lambda>d. d @ ''/fizz-install'') (env_out_dir env)) of
                     None \<Rightarrow> ((b2, Some ''OUT_DIR''), [])
                   | Some install_dir \<Rightarrow>
                       (let b3 = say (''cargo:warning=Building and installing fizz into '' @ install_dir) b2
                        in if \<not> env_log_file env
                           then ((b3, Some ''failed to create /tmp/fizz.log''), [])
                           else if \<not> env_log_clone env
                           then ((b3, Some ''could not clone /tmp/fizz.log''), [])
                           else
                             (case env_getdeps env of
                                CommandNotRun \<Rightarrow> ((b3, Some ''Error executing build fizz command!''), [])
                              | CommandFailed \<Rightarrow>
                                  ((say ''cargo::error=Could not build fizz, logs available at /tmp/fizz.log'' b3,
                                    Some ''Could not build fizz, logs available at /tmp/fizz.log. Make sure you installed system-wide dependencies first (check README file)''),
                                   [])
                              | CommandSucceeded \<Rightarrow> ((b3, None), install_dir))))))"

section \<open>Dependencies and bridge\<close>

definition is_whitespace :: "char \<Rightarrow> bool" where
  "is_whitespace c \<longleftrightarrow> (of_char c :: nat) \<in> {9, 10, 11, 12, 13, 32}"

definition trim :: "string \<Rightarrow> string" where
  "trim s = rev (dropWhile is_whitespace (rev (dropWhile is_whitespace s)))"

definition homebrew_prefix :: "build_env \<Rightarrow> string \<Rightarrow> string option" where
  "homebrew_prefix env package =
     (case env_brew env package of
        None \<Rightarrow> None
      | Some (success, stdout) \<Rightarrow>
          if \<not> success then None
          else (let s = trim stdout in if s = [] then None else Some s))"

text \<open>
  The entries of the directory: an error for the entry, or its canonical path or the error of
  \<open>canonicalize\<close>.
\<close>

fun dependency_loop :: "(string + (string + string)) list \<Rightarrow> build \<Rightarrow> step \<times> string list" where
  "dependency_loop [] b = ((b, None), [])"
| "dependency_loop (e # es) b =
     (case and_then e (\<lambda>x. x) of
        Inl panic \<Rightarrow> ((b, Some panic), [])
      | Inr path \<Rightarrow>
          (case dependency_loop es (say (''cargo:warning='' @ path) b) of
             (r, deps) \<Rightarrow> (r, path # deps)))"

definition get_all_fizz_dependencies :: "build_env \<Rightarrow> string \<Rightarrow> build \<Rightarrow> step \<times> string list" where
  "get_all_fizz_dependencies env fizz_install_dir b =
     (case env_installed env (fizz_install_dir @ ''/installed'') of
        None \<Rightarrow> ((b, Some ''read_dir''), [])
      | Some entries \<Rightarrow> dependency_loop entries b)"

record cxx_build =
  cxx_files :: "string list"
  cxx_flags_if_supported :: "string list"
  cxx_includes :: "string list"

definition homebrew_packages :: "string list" where
  "homebrew_packages =
     [''glog'', ''gflags'', ''boost'', ''openssl@3'', ''fmt'', ''double-conversion'', ''libevent'']"

definition build_bridge :: "build_env \<Rightarrow> string list \<Rightarrow> cxx_build" where
  "build_bridge env fizz_dependencies =
     \<lparr>cxx_files =
        [''src/ffi/certificates_ffi.cpp'', ''src/ffi/util.cpp'', ''src/ffi/credentials_ffi.cpp'',
         ''src/ffi/server_tls_ffi.cpp'', ''src/ffi/client_tls_ffi.cpp'', ''src/ffi/cpp_bench.cpp''],
      cxx_flags_if_supported = [''-std=c++17'', ''/std:c++17''],
      cxx_includes =
        [''src''] @ map (\<lambda>path. path @ ''/include'') fizz_dependencies
        @ (if env_macos env
           then map (\<lambda>prefix. prefix @ ''/include'')
                  (List.map_filter (homebrew_prefix env) homebrew_packages)
           else [])\<rparr>"

section \<open>What main prints\<close>

definition link_lib :: "string \<Rightarrow> string" where
  "link_lib l = ''cargo:rustc-link-lib='' @ l"

definition link_lines :: "build_env \<Rightarrow> string list" where
  "link_lines env =
     map link_lib ([''fizz'', ''folly''] @ (if env_macos env then [] else [''unwind'']) @
       [''lzma'', ''oqs'', ''fmt'', ''event'', ''double-conversion'', ''ssl'', ''crypto'', ''glog'', ''gflags'',
        ''sodium'', ''pthread''] @ (if env_macos env then [''c++'', ''c++abi''] else []))
     @ (if env_macos env
        then (let target = (case env_deployment_target env of Some t \<Rightarrow> t | None \<Rightarrow> ''13.0'')
              in [''cargo:rustc-env=MACOSX_DEPLOYMENT_TARGET='' @ target,
                  ''cargo::rustc-link-arg=-mmacosx-version-min='' @ target])
        else [link_lib ''stdc++''])
     @ [link_lib ''boost_context'',
        ''cargo:rustc-link-search=native=/usr/local/lib'', ''cargo:rustc-link-search=native=/usr/lib'']
     @ (if env_macos env then [''cargo:rustc-link-search=native=/opt/homebrew/lib''] else [])"

definition dependency_lines :: "string list \<Rightarrow> string list" where
  "dependency_lines fizz_dependencies =
     concat (map (\<lambda>path.
       [''cargo:rustc-link-search=native='' @ path @ ''/lib'',
        ''cargo::rustc-link-arg=-Wl,-rpath,'' @ path @ ''/lib'']) fizz_dependencies)"

definition rerun_if_changed :: "string \<Rightarrow> string" where
  "rerun_if_changed f = ''cargo:rerun-if-changed='' @ f"

definition rerun_lines :: "string list" where
  "rerun_lines = map rerun_if_changed
     [''src/bridge.rs'', ''src/ffi/certificates_ffi.cpp'', ''src/ffi/util.cpp'', ''src/ffi/util.h'',
      ''src/ffi/credentials_ffi.cpp'', ''src/ffi/server_tls_ffi.cpp'', ''src/ffi/client_tls_ffi.cpp'',
      ''src/ffi/cpp_bench.cpp'', ''src/ffi/cpp_bench.h'', ''patches/fizz-homebrew-openssl.patch'',
      ''patches/fizz-getdeps-pin-git-rev.patch'']"

text \<open>\<open>compiled\<close> says whether the compiler accepts the bridge; it panics otherwise.\<close>

definition build_main ::
  "patch_program \<Rightarrow> build_env \<Rightarrow> (cxx_build \<Rightarrow> string option) \<Rightarrow> build \<Rightarrow> step" where
  "build_main P env compile b =
     (case build_fizz P env b of
        (r, fizz_install_dir) \<Rightarrow>
          and_next r (\<lambda>b1.
            (case get_all_fizz_dependencies env fizz_install_dir b1 of
               (r2, fizz_dependencies) \<Rightarrow>
                 and_next r2 (\<lambda>b2.
                   (case compile (build_bridge env fizz_dependencies) of
                      Some panic \<Rightarrow> (b2, Some panic)
                    | None \<Rightarrow>
                        (says (link_lines env @ dependency_lines fizz_dependencies @ rerun_lines) b2,
                         None))))))"

section \<open>Lemmas\<close>

lemma and_next_None: "and_next r f = (b', None) \<longleftrightarrow> (\<exists>b. r = (b, None) \<and> f b = (b', None))"
  by (cases r) (auto simp: and_next_def split: option.splits)

definition all_done :: "string \<Rightarrow> (string \<Rightarrow> string option) \<Rightarrow> bool" where
  "all_done dir fs \<longleftrightarrow> openssl_done dir fs \<and> pin_done dir fs \<and> xz_done dir fs"

lemma all_done_no_patch: "all_done dir (files b) \<Longrightarrow> apply_fizz_patches P dir b = (b, None)"
  by (simp add: apply_fizz_patches_def apply_one_patch_def all_done_def and_next_def)

section \<open>The patch files\<close>

text \<open>The three files of \<open>src/patches\<close>, line by line.\<close>

definition openssl_patch :: "string list" where
  "openssl_patch =
    [''--- a/build/fbcode_builder/getdeps/buildopts.py'',
     ''+++ b/build/fbcode_builder/getdeps/buildopts.py'',
     ''@@ -291,8 +291,11 @@'',
     ''             for p in brew_packages:'',
     ''                 found = self.add_homebrew_package_to_env(p, env)'',
     ''                 # Try extra hard to find openssl, needed with homebrew on macOS'',
     ''                 if found and p.startswith('' @ [CHR 0x22] @ ''openssl'' @ [CHR 0x22] @ ''):'',
     ''-                    candidate = homebrew_package_prefix('' @ [CHR 0x22] @ ''openssl@1.1'' @ [CHR 0x22] @ '')'',
     ''-                    if os.path.exists(candidate):'',
     ''+                    # openssl@1.1 removed from Homebrew on many macOS setups; use @3 first.'',
     ''+                    candidate = homebrew_package_prefix('' @ [CHR 0x22] @ ''openssl@3'' @ [CHR 0x22] @ '')'',
     ''+                    if candidate is None:'',
     ''+                        candidate = homebrew_package_prefix('' @ [CHR 0x22] @ ''openssl@1.1'' @ [CHR 0x22] @ '')'',
     ''+                    if candidate and os.path.exists(candidate):'',
     ''                         os.environ['' @ [CHR 0x22] @ ''OPENSSL_ROOT_DIR'' @ [CHR 0x22] @ ''] = candidate'',
     ''                         env['' @ [CHR 0x22] @ ''OPENSSL_ROOT_DIR'' @ [CHR 0x22] @ ''] = os.environ['' @ [CHR 0x22] @
       ''OPENSSL_ROOT_DIR'' @ [CHR 0x22] @ '']'']"

definition pin_patch :: "string list" where
  "pin_patch =
    [''--- a/build/fbcode_builder/manifests/fizz'',
     ''+++ b/build/fbcode_builder/manifests/fizz'',
     ''@@ -5,6 +5,8 @@ shipit_fbcode_builder = true'',
     '' '',
     '' [git]'',
     '' repo_url = https://github.com/facebookincubator/fizz.git'',
     ''+# Pin to the same commit as third_party/fizz submodule so getdeps does not fetch main (API skew vs folly-rev.txt).'',
     ''+rev = 034e4d3d3150bf1e245590cbc1e2988cca66eecd'',
     '' '',
     '' [build]'',
     '' builder = cmake'']"

definition xz_patch :: "string list" where
  "xz_patch =
    [''Upstream excludes ubuntu's liblzma-dev because it hangs watchman's'',
     ''tests. We never build watchman, and the exclusion forces getdeps to'',
     ''build xz from source, downloading xz-5.2.5.tar.gz from tukaani.org --'',
     ''a host that times out from CI runners often enough to fail whole jobs'',
     ''even through retries. Use the system package on every distro.'',
     [],
     ''--- a/build/fbcode_builder/manifests/xz'',
     ''+++ b/build/fbcode_builder/manifests/xz'',
     ''@@ -1,8 +1,7 @@'',
     '' [manifest]'',
     '' name = xz'',
     '' '',
     ''-# ubuntu's package causes watchman's tests to hang'',
     ''-[debs.not(distro=ubuntu)]'',
     ''+[debs]'',
     '' liblzma-dev'',
     '' '',
     '' [homebrew]'']"

abbreviation newline :: char where
  "newline \<equiv> CHR 0x0A"

definition file_text :: "string list \<Rightarrow> string" where
  "file_text ls = concat (map (\<lambda>l. l @ [newline]) ls)"

fun text_lines :: "string \<Rightarrow> string list" where
  "text_lines [] = []"
| "text_lines (c # cs) =
     (if c = newline then [] # text_lines cs
      else case text_lines cs of [] \<Rightarrow> [[c]] | l # ls \<Rightarrow> (c # l) # ls)"

section \<open>What patch does\<close>

text \<open>The file a patch is for, with \<open>-p1\<close>, and its hunks.\<close>

fun patch_target :: "string list \<Rightarrow> string" where
  "patch_target [] = []"
| "patch_target (l # ls) = (if prefix ''+++ b/'' l then drop 6 l else patch_target ls)"

fun hunks :: "string list \<Rightarrow> string list list" where
  "hunks [] = []"
| "hunks (l # ls) =
     (if prefix ''@@'' l then takeWhile (\<lambda>l. \<not> prefix ''@@'' l) ls # hunks ls else hunks ls)"

definition is_context :: "string \<Rightarrow> bool" where
  "is_context l \<longleftrightarrow> prefix '' '' l"

text \<open>
  The lines of a hunk after it was applied. \<open>patch\<close> may ignore up to two of the outer context lines at either end when
  it looks for the place (its fuzz factor), so only the others are sure to be there.
\<close>

definition drop_fuzz :: "string list \<Rightarrow> string list" where
  "drop_fuzz ls = drop (min 2 (length (takeWhile is_context ls))) ls"

definition hunk_after :: "string list \<Rightarrow> string list" where
  "hunk_after h = map tl (filter (\<lambda>l. prefix '' '' l \<or> prefix ''+'' l) (rev (drop_fuzz (rev (drop_fuzz h)))))"

fun join_lines :: "string list \<Rightarrow> string" where
  "join_lines [] = []"
| "join_lines [l] = l"
| "join_lines (l # ls) = l @ newline # join_lines ls"

text \<open>
  What the manual of \<open>patch\<close> says of a run that succeeds: every hunk is in the file it is for, and no other file is
  changed but the backup and the rejects beside it.
\<close>

definition patch_works :: "patch_program \<Rightarrow> bool" where
  "patch_works P \<longleftrightarrow>
     (\<forall>d p fs fs' text. P d p fs = (fs', PatchApplied) \<longrightarrow> fs p = Some text \<longrightarrow>
        (let f = d @ ''/'' @ patch_target (text_lines text)
         in (\<forall>h \<in> set (hunks (text_lines text)). \<exists>c. fs' f = Some c \<and> contains (join_lines (hunk_after h)) c)
            \<and> (\<forall>g. g \<noteq> f \<longrightarrow> g \<noteq> f @ ''.orig'' \<longrightarrow> g \<noteq> f @ ''.rej'' \<longrightarrow> fs' g = fs g)))"

definition patch_runs :: "patch_program \<Rightarrow> bool" where
  "patch_runs P \<longleftrightarrow> (\<forall>d p fs e. snd (P d p fs) \<noteq> PatchNotRun e)"

text \<open>The checkout has the patch files of the repository.\<close>

definition patches_present :: "string \<Rightarrow> (string \<Rightarrow> string option) \<Rightarrow> bool" where
  "patches_present dir fs \<longleftrightarrow>
     fs (dir @ ''/patches/fizz-homebrew-openssl.patch'') = Some (file_text openssl_patch)
     \<and> fs (dir @ ''/patches/fizz-getdeps-pin-git-rev.patch'') = Some (file_text pin_patch)
     \<and> fs (dir @ ''/patches/fizz-xz-use-system-package.patch'') = Some (file_text xz_patch)"

lemma text_lines_file_text: "list_all (\<lambda>l. newline \<notin> set l) ls \<Longrightarrow> text_lines (file_text ls) = ls"
proof (induction ls)
  case Nil
  show ?case by (simp add: file_text_def)
next
  case (Cons l ls)
  have "text_lines (l @ newline # rest) = l # text_lines rest" if "newline \<notin> set l" for rest
    using that by (induction l) auto
  with Cons show ?case by (simp add: file_text_def)
qed

lemma patch_lines:
  "text_lines (file_text openssl_patch) = openssl_patch" "text_lines (file_text pin_patch) = pin_patch"
  "text_lines (file_text xz_patch) = xz_patch"
  by (rule text_lines_file_text, code_simp)+

text \<open>Each patch puts the text its marker looks for into the file the marker reads.\<close>

lemma patch_targets:
  "patch_target openssl_patch = ''build/fbcode_builder/getdeps/buildopts.py''"
  "patch_target pin_patch = ''build/fbcode_builder/manifests/fizz''"
  "patch_target xz_patch = ''build/fbcode_builder/manifests/xz''"
  by code_simp+

definition shows_mark :: "string list \<Rightarrow> string \<Rightarrow> bool" where
  "shows_mark ls m \<longleftrightarrow> list_ex (\<lambda>h. contains m (join_lines (hunk_after h))) (hunks ls)"

lemma patch_marks:
  "shows_mark openssl_patch (''homebrew_package_prefix('' @ [CHR 0x22] @ ''openssl@3'' @ [CHR 0x22] @ '')'')"
  "shows_mark openssl_patch ''if candidate and os.path.exists(candidate)''"
  "shows_mark pin_patch ''rev = 034e4d3d3150bf1e245590cbc1e2988cca66eecd''"
  "shows_mark xz_patch (''[debs]'' @ [newline] @ ''liblzma-dev'')"
  by code_simp+

lemma applied_patch:
  assumes "patch_works P" and "P d p fs = (fs', PatchApplied)" and "fs p = Some (file_text ls)"
    and "text_lines (file_text ls) = ls"
  shows "shows_mark ls m \<Longrightarrow> \<exists>c. fs' (d @ ''/'' @ patch_target ls) = Some c \<and> contains m c"
    and "g \<notin> {d @ ''/'' @ patch_target ls, d @ ''/'' @ patch_target ls @ ''.orig'', d @ ''/'' @ patch_target ls @ ''.rej''}
      \<Longrightarrow> fs' g = fs g"
proof -
  let ?f = "d @ ''/'' @ patch_target ls"
  have law: "(\<forall>h \<in> set (hunks ls). \<exists>c. fs' ?f = Some c \<and> contains (join_lines (hunk_after h)) c)
      \<and> (\<forall>g. g \<noteq> ?f \<longrightarrow> g \<noteq> ?f @ ''.orig'' \<longrightarrow> g \<noteq> ?f @ ''.rej'' \<longrightarrow> fs' g = fs g)"
    using assms unfolding patch_works_def Let_def by metis
  show "\<exists>c. fs' ?f = Some c \<and> contains m c" if "shows_mark ls m"
  proof -
    from that obtain h where h: "h \<in> set (hunks ls)" "contains m (join_lines (hunk_after h))"
      by (auto simp: shows_mark_def list_ex_iff)
    with law obtain c where "fs' ?f = Some c" "contains (join_lines (hunk_after h)) c" by blast
    with h(2) show ?thesis unfolding contains_iff_sublist by (blast intro: sublist_order.order.trans)
  qed
  show "fs' g = fs g" if "g \<notin> {?f, d @ ''/'' @ patch_target ls @ ''.orig'', d @ ''/'' @ patch_target ls @ ''.rej''}"
    using law that by simp
qed

lemma apply_one_patch_ok:
  assumes "apply_one_patch P dir d name applied b = (b', None)" and "patch_runs P"
    and "files b (dir @ ''/patches/'' @ name) \<noteq> None"
  shows "applied \<and> b' = b \<or> P d (dir @ ''/patches/'' @ name) (files b) = (files b', PatchApplied)"
proof (cases applied)
  case True
  with assms(1) show ?thesis by (simp add: apply_one_patch_def)
next
  case False
  obtain fs' st where P: "P d (dir @ ''/patches/'' @ name) (files b) = (fs', st)" by fastforce
  have "st \<noteq> PatchNotRun e" for e using assms(2) P unfolding patch_runs_def by (metis snd_conv)
  with False assms(1,3) P show ?thesis
    by (cases st) (auto simp: apply_one_patch_def say_def split: option.splits)
qed

text \<open>What the three patches leave behind: their own mark, and everything the others read.\<close>

lemma patch_effects:
  assumes "patch_works P" and "patches_present dir fs"
  shows "P (dir @ ''/third_party/fizz'') (dir @ ''/patches/fizz-homebrew-openssl.patch'') fs = (fs', PatchApplied) \<Longrightarrow>
      openssl_done dir fs' \<and> patches_present dir fs'"
    and "P (dir @ ''/third_party/fizz'') (dir @ ''/patches/fizz-getdeps-pin-git-rev.patch'') fs = (fs', PatchApplied) \<Longrightarrow>
      pin_done dir fs' \<and> patches_present dir fs' \<and> openssl_done dir fs' = openssl_done dir fs"
    and "P (dir @ ''/third_party/fizz'') (dir @ ''/patches/fizz-xz-use-system-package.patch'') fs = (fs', PatchApplied) \<Longrightarrow>
      xz_done dir fs' \<and> patches_present dir fs' \<and> openssl_done dir fs' = openssl_done dir fs \<and> pin_done dir fs' = pin_done dir fs"
proof -
  note present = assms(2) [unfolded patches_present_def]
  show "openssl_done dir fs' \<and> patches_present dir fs'"
    if "P (dir @ ''/third_party/fizz'') (dir @ ''/patches/fizz-homebrew-openssl.patch'') fs = (fs', PatchApplied)"
    using applied_patch(1) [OF assms(1) that conjunct1 [OF present] patch_lines(1) patch_marks(1)]
      applied_patch(1) [OF assms(1) that conjunct1 [OF present] patch_lines(1) patch_marks(2)]
      applied_patch(2) [OF assms(1) that conjunct1 [OF present] patch_lines(1)] present
    by (auto simp: openssl_done_def patches_present_def builder_dir_def map_or_false_def patch_targets)
  show "pin_done dir fs' \<and> patches_present dir fs' \<and> openssl_done dir fs' = openssl_done dir fs"
    if "P (dir @ ''/third_party/fizz'') (dir @ ''/patches/fizz-getdeps-pin-git-rev.patch'') fs = (fs', PatchApplied)"
    using applied_patch(1) [OF assms(1) that conjunct1 [OF conjunct2 [OF present]] patch_lines(2) patch_marks(3)]
      applied_patch(2) [OF assms(1) that conjunct1 [OF conjunct2 [OF present]] patch_lines(2)] present
    by (auto simp: openssl_done_def pin_done_def patches_present_def builder_dir_def map_or_false_def patch_targets)
  show "xz_done dir fs' \<and> patches_present dir fs' \<and> openssl_done dir fs' = openssl_done dir fs
      \<and> pin_done dir fs' = pin_done dir fs"
    if "P (dir @ ''/third_party/fizz'') (dir @ ''/patches/fizz-xz-use-system-package.patch'') fs = (fs', PatchApplied)"
    using applied_patch(1) [OF assms(1) that conjunct2 [OF conjunct2 [OF present]] patch_lines(3) patch_marks(4)]
      applied_patch(2) [OF assms(1) that conjunct2 [OF conjunct2 [OF present]] patch_lines(3)] present
    by (auto simp: openssl_done_def pin_done_def xz_done_def patches_present_def builder_dir_def map_or_false_def
        patch_targets)
qed

lemma apply_fizz_patches_marks:
  assumes "apply_fizz_patches P dir b = (b', None)" "patch_works P" "patch_runs P"
    and "patches_present dir (files b)"
  shows "all_done dir (files b')"
proof -
  let ?f = "dir @ ''/third_party/fizz''"
  from assms(1) obtain b1 b2 where
    1: "apply_one_patch P dir ?f ''fizz-homebrew-openssl.patch'' (openssl_done dir (files b)) b = (b1, None)" and
    2: "apply_one_patch P dir ?f ''fizz-getdeps-pin-git-rev.patch'' (pin_done dir (files b1)) b1 = (b2, None)" and
    3: "apply_one_patch P dir ?f ''fizz-xz-use-system-package.patch'' (xz_done dir (files b2)) b2 = (b', None)"
    by (auto simp: apply_fizz_patches_def Let_def and_next_None)
  have m1: "openssl_done dir (files b1) \<and> patches_present dir (files b1)"
    using apply_one_patch_ok [OF 1 assms(3)] patch_effects(1) [OF assms(2,4), of "files b1"] assms(4)
    by (auto simp: patches_present_def)
  then have m2: "pin_done dir (files b2) \<and> patches_present dir (files b2) \<and> openssl_done dir (files b2)"
    using apply_one_patch_ok [OF 2 assms(3)] patch_effects(2) [OF assms(2), of dir "files b1" "files b2"]
    by (auto simp: patches_present_def)
  then show ?thesis
    using apply_one_patch_ok [OF 3 assms(3)] patch_effects(3) [OF assms(2), of dir "files b2" "files b'"]
    by (auto simp: patches_present_def all_done_def)
qed

text \<open>Which lines ask cargo to watch a file: the other lines start differently.\<close>

abbreviation watch_prefix :: string where
  "watch_prefix \<equiv> ''cargo:rerun-if-changed=''"

definition watched :: "build \<Rightarrow> string list" where
  "watched b = filter (prefix watch_prefix) (printed b)"

lemma watched_says [simp]: "watched (says ls b) = watched b @ filter (prefix watch_prefix) ls"
  by (simp add: watched_def says_def)

lemma watched_say [simp]: "watched (say l b) = watched b @ (if prefix watch_prefix l then [l] else [])"
  by (simp add: watched_def say_def)

lemma watched_files [simp]: "watched (b\<lparr>files := fs\<rparr>) = watched b"
  by (simp add: watched_def)

lemma watched_apply_one_patch: "watched (fst (apply_one_patch P dir d name done b)) = watched b"
  by (auto simp: apply_one_patch_def Let_def split: option.splits prod.splits patch_status.splits)

lemma watched_and_next:
  assumes "watched (fst r) = w" "\<And>b. r = (b, None) \<Longrightarrow> watched b = w \<Longrightarrow> watched (fst (f b)) = w"
  shows "watched (fst (and_next r f)) = w"
  using assms by (cases r) (auto simp: and_next_def split: option.splits)

lemma watched_apply_fizz_patches: "watched (fst (apply_fizz_patches P dir b)) = watched b"
  unfolding apply_fizz_patches_def Let_def
  by (intro watched_and_next) (simp_all add: watched_apply_one_patch)

lemma watched_build_fizz: "watched (fst (fst (build_fizz P env b))) = watched b"
  using watched_apply_fizz_patches [of P _ b]
  by (auto simp: build_fizz_def Let_def split: option.splits prod.splits command_status.splits)
    (metis fst_conv)+

lemma watched_dependency_loop: "watched (fst (fst (dependency_loop es b))) = watched b"
  by (induction es b rule: dependency_loop.induct) (auto split: sum.splits prod.splits)

lemma watched_dependencies: "watched (fst (fst (get_all_fizz_dependencies env dir b))) = watched b"
  by (auto simp: get_all_fizz_dependencies_def watched_dependency_loop split: option.splits)

lemma no_watch_in_link_lines: "filter (prefix watch_prefix) (link_lines env) = []"
  by (simp add: link_lines_def link_lib_def Let_def)

lemma no_watch_in_dependency_lines: "filter (prefix watch_prefix) (dependency_lines deps) = []"
  by (induction deps) (simp_all add: dependency_lines_def)

lemma watch_in_rerun_lines: "filter (prefix watch_prefix) rerun_lines = rerun_lines"
  by (simp add: rerun_lines_def rerun_if_changed_def)

lemma build_main_ok:
  "build_main P env compile b = (b', None) \<longleftrightarrow>
     (\<exists>b1 b2 dir deps. build_fizz P env b = ((b1, None), dir)
        \<and> get_all_fizz_dependencies env dir b1 = ((b2, None), deps)
        \<and> compile (build_bridge env deps) = None
        \<and> b' = says (link_lines env @ dependency_lines deps @ rerun_lines) b2)"
  by (auto simp: build_main_def and_next_None split: prod.splits option.splits)

lemma dependency_loop_ok: "dependency_loop es b = ((b', None), deps) \<Longrightarrow> es = map (\<lambda>d. Inr (Inr d)) deps"
proof (induction es b arbitrary: deps rule: dependency_loop.induct)
  case (2 e es b)
  then obtain path where e: "e = Inr (Inr path)" by (cases e; cases "projr e") auto
  with 2 show ?case by (cases deps) (auto split: prod.splits)
qed simp

section \<open>A concrete instance\<close>

text \<open>A program that writes the new side of every hunk into the file the patch is for.\<close>

definition sample_patch :: patch_program where
  "sample_patch d p fs =
     (case fs p of
        None \<Rightarrow> (fs, PatchRejected)
      | Some text \<Rightarrow>
          (fs(d @ ''/'' @ patch_target (text_lines text) \<mapsto>
                concat (map (\<lambda>h. join_lines (hunk_after h)) (hunks (text_lines text)))),
           PatchApplied))"

definition sample_build :: build where
  "sample_build =
     \<lparr>files = [''/repo/patches/fizz-homebrew-openssl.patch'' \<mapsto> file_text openssl_patch,
        ''/repo/patches/fizz-getdeps-pin-git-rev.patch'' \<mapsto> file_text pin_patch,
        ''/repo/patches/fizz-xz-use-system-package.patch'' \<mapsto> file_text xz_patch], printed = []\<rparr>"

definition sample_build_env :: build_env where
  "sample_build_env =
     \<lparr>env_manifest_dir = Some ''/repo'', env_scratch = None, env_out_dir = Some ''/out'',
      env_log_file = True, env_log_clone = True, env_getdeps = CommandSucceeded,
      env_installed = [''/out/fizz-install/installed'' \<mapsto> [Inr (Inr ''/out/folly''), Inr (Inr ''/out/fizz'')]],
      env_brew = (\<lambda>_. None), env_macos = False, env_deployment_target = None\<rparr>"

lemma contains_concat: "x \<in> set xs \<Longrightarrow> contains x (concat xs)"
  unfolding contains_iff_sublist by (metis split_list concat.simps(2) concat_append sublist_appendI)

lemma sample_patch_ok: "patch_works sample_patch" "patch_runs sample_patch"
  by (auto simp: patch_works_def patch_runs_def sample_patch_def Let_def intro: contains_concat split: option.splits)

lemma sample_present: "patches_present ''/repo'' (files sample_build)"
  by (simp add: patches_present_def sample_build_def)

lemma sample_patches_run: "\<exists>b'. apply_fizz_patches sample_patch ''/repo'' sample_build = (b', None)"
proof -
  let ?f = "''/repo'' @ ''/third_party/fizz''"
  have one: "\<exists>b'. apply_one_patch sample_patch ''/repo'' ?f name applied b = (b', None)"
    if "files b (''/repo'' @ ''/patches/'' @ name) \<noteq> None" for name applied b
    using that by (auto simp: apply_one_patch_def sample_patch_def Let_def)
  have kept: "patches_present ''/repo'' (files b')"
    if "apply_one_patch sample_patch ''/repo'' ?f name applied b = (b', None)" "patches_present ''/repo'' (files b)"
      "name \<in> {''fizz-homebrew-openssl.patch'', ''fizz-getdeps-pin-git-rev.patch'', ''fizz-xz-use-system-package.patch''}"
    for name applied b b'
    using apply_one_patch_ok [OF that(1) sample_patch_ok(2)] patch_effects [OF sample_patch_ok(1) that(2), of "files b'"] that(2,3)
    by (auto simp: patches_present_def)
  obtain b1 where 1: "apply_one_patch sample_patch ''/repo'' ?f ''fizz-homebrew-openssl.patch''
      (openssl_done ''/repo'' (files sample_build)) sample_build = (b1, None)"
    using one [of sample_build "''fizz-homebrew-openssl.patch''"] sample_present by (auto simp: patches_present_def)
  note p1 = kept [OF 1 sample_present]
  then obtain b2 where 2: "apply_one_patch sample_patch ''/repo'' ?f ''fizz-getdeps-pin-git-rev.patch''
      (pin_done ''/repo'' (files b1)) b1 = (b2, None)"
    using one [of b1 "''fizz-getdeps-pin-git-rev.patch''"] by (auto simp: patches_present_def)
  from kept [OF 2] p1 obtain b3 where "apply_one_patch sample_patch ''/repo'' ?f ''fizz-xz-use-system-package.patch''
      (xz_done ''/repo'' (files b2)) b2 = (b3, None)"
    using one [of b2 "''fizz-xz-use-system-package.patch''"] by (auto simp: patches_present_def)
  with 1 2 show ?thesis by (auto simp: apply_fizz_patches_def Let_def and_next_None)
qed

section \<open>Properties\<close>

text \<open>C22. Patching is done once: when the checkout has the three patch files of the repository and \<open>patch\<close> runs and does
  what its manual says, a build that got past the patches leaves the sources so that the next build finds the three texts it
  looks for, prints nothing, runs no patch and changes no file, whatever \<open>patch\<close> would do then.\<close>

theorem second_build_applies_no_patch:
  assumes "apply_fizz_patches P dir b = (b', None)" "patch_works P" "patch_runs P"
    and "patches_present dir (files b)"
  shows "apply_fizz_patches P' dir b' = (b', None)"
  by (rule all_done_no_patch [OF apply_fizz_patches_marks [OF assms]])

theorem second_build_applies_no_patch_witness:
  "\<exists>b'. apply_fizz_patches sample_patch ''/repo'' sample_build = (b', None)
     \<and> apply_fizz_patches (\<lambda>_ _ _. (Map.empty, PatchRejected)) ''/repo'' b' = (b', None)"
  using sample_patches_run second_build_applies_no_patch [OF _ sample_patch_ok sample_present] by blast

text \<open>A successful build uses every entry of the directory of installed dependencies, on the include path of the bridge and on
  the search path of the linker; and it asks cargo to watch every C++ file that it compiles, but only two of the
  three patches that it applies.\<close>

theorem build_uses_installed:
  assumes "build_main P env compile b = (b', None)" "watched b = []"
  shows "\<exists>b1 dir deps. build_fizz P env b = ((b1, None), dir)
    \<and> env_installed env (dir @ ''/installed'') = Some (map (\<lambda>d. Inr (Inr d)) deps)
    \<and> compile (build_bridge env deps) = None
    \<and> (\<forall>d \<in> set deps. d @ ''/include'' \<in> set (cxx_includes (build_bridge env deps))
         \<and> ''cargo:rustc-link-search=native='' @ d @ ''/lib'' \<in> set (printed b'))
    \<and> (\<forall>f \<in> set (cxx_files (build_bridge env deps)). rerun_if_changed f \<in> set (watched b'))
    \<and> rerun_if_changed ''patches/fizz-xz-use-system-package.patch'' \<notin> set (watched b')"
proof -
  from assms(1) obtain b1 b2 dir deps where run: "build_fizz P env b = ((b1, None), dir)"
    "get_all_fizz_dependencies env dir b1 = ((b2, None), deps)" "compile (build_bridge env deps) = None"
    "b' = says (link_lines env @ dependency_lines deps @ rerun_lines) b2"
    by (auto simp: build_main_ok)
  have "watched b2 = []"
    using watched_build_fizz [of P env b] watched_dependencies [of env dir b1] run(1,2) assms(2) by simp
  then have w: "watched b' = rerun_lines"
    by (simp add: run(4) no_watch_in_link_lines no_watch_in_dependency_lines watch_in_rerun_lines)
  have "env_installed env (dir @ ''/installed'') = Some (map (\<lambda>d. Inr (Inr d)) deps)"
    using run(2) dependency_loop_ok by (auto simp: get_all_fizz_dependencies_def split: option.splits)
  moreover have "rerun_if_changed ''patches/fizz-xz-use-system-package.patch'' \<notin> set rerun_lines"
    by (simp add: rerun_lines_def rerun_if_changed_def)
  moreover have "\<forall>f \<in> set (cxx_files (build_bridge env deps)). rerun_if_changed f \<in> set rerun_lines"
    by (simp add: build_bridge_def rerun_lines_def)
  moreover have "\<forall>d \<in> set deps. d @ ''/include'' \<in> set (cxx_includes (build_bridge env deps))
      \<and> ''cargo:rustc-link-search=native='' @ d @ ''/lib'' \<in> set (printed b')"
    by (auto simp: build_bridge_def run(4) says_def dependency_lines_def)
  ultimately show ?thesis using w run(1,3) by auto
qed

end
