(* ===== verification/Fizz_Serde.thy ===== *)
theory Fizz_Serde
  imports Fizz_Prelude "HOL-Library.Multiset"
begin

text \<open>
  The serde interface as the hand-expanded implementations of \<open>src/src/types.rs\<close> and
  \<open>src/src/credentials.rs\<close> use it. serde and the data format are not part of the repository:
  a serializer and a deserializer are records of the calls the code makes, and the locale
  \<open>serde_format\<close> states what a format documents (what was serialized is what is handed back).
  \<open>missing_field\<close> of \<open>src/src/bridge.rs\<close> and the two access patterns that every visitor repeats
  (one slot per field in \<open>visit_map\<close>, one element per field in \<open>visit_seq\<close>) are modelled here,
  with the relation \<open>slot_rel\<close> that says what a slot ends up holding.
\<close>

section \<open>A format, as the code sees it\<close>

text \<open>
  \<open>deserialize_identifier\<close> calls one of \<open>visit_u64\<close>, \<open>visit_str\<close>, \<open>visit_bytes\<close> of the
  field visitor.
\<close>

datatype ident = IdU64 u64 | IdStr string | IdBytes "u8 list"

text \<open>
  \<open>deserialize_struct\<close> calls \<open>visit_seq\<close> or \<open>visit_map\<close> of the struct visitor, or fails.
  An element of the stream is an error of the format itself or an item.
\<close>

datatype ('v, 'e) access =
    SeqAccess "('e + 'v) list"
  | MapAccess "('e + ident \<times> 'v) list"
  | NoAccess 'e

record ('v, 'e) de_format =
  de_u16 :: "'v \<Rightarrow> 'e + u16"
  de_u32 :: "'v \<Rightarrow> 'e + u32"
  de_u64 :: "'v \<Rightarrow> 'e + u64"
  de_string :: "'v \<Rightarrow> 'e + string"
  de_ignored :: "'v \<Rightarrow> 'e + unit"
  de_open :: "string \<Rightarrow> string list \<Rightarrow> 'v \<Rightarrow> ('v, 'e) access"
  de_close :: "string list \<Rightarrow> 'v \<Rightarrow> 'e + unit"
  err_invalid_length :: "nat \<Rightarrow> string \<Rightarrow> 'e"
  err_duplicate_field :: "string \<Rightarrow> 'e"
  err_missing_field :: "string \<Rightarrow> 'e"

record ('s, 'v, 'e) ser_format =
  ser_u16 :: "u16 \<Rightarrow> 'e + 'v"
  ser_u32 :: "u32 \<Rightarrow> 'e + 'v"
  ser_u64 :: "u64 \<Rightarrow> 'e + 'v"
  ser_string :: "string \<Rightarrow> 'e + 'v"
  ser_struct :: "string \<Rightarrow> nat \<Rightarrow> 'e + 's"
  ser_field :: "'s \<Rightarrow> string \<Rightarrow> 'v \<Rightarrow> 'e + 's"
  ser_end :: "'s \<Rightarrow> 'e + 'v"

text \<open>\<open>serialize_field(key, value)?\<close>: the value is serialized, then stored under the key.\<close>

definition put_field ::
  "('s, 'v, 'e) ser_format \<Rightarrow> string \<Rightarrow> 'e + 'v \<Rightarrow> 's \<Rightarrow> 'e + 's" where
  "put_field S key r st = and_then r (\<lambda>v. ser_field S st key v)"

text \<open>\<open>Deserializer::deserialize_struct\<close> drives the visitor, then ends the value.\<close>

definition deserialize_struct ::
  "('v, 'e) de_format \<Rightarrow> string \<Rightarrow> string list
     \<Rightarrow> (('e + 'v) list \<Rightarrow> 'e + 'r) \<Rightarrow> (('e + ident \<times> 'v) list \<Rightarrow> 'e + 'r) \<Rightarrow> 'v \<Rightarrow> 'e + 'r" where
  "deserialize_struct F name FIELDS vseq vmap v =
     (case de_open F name FIELDS v of
        NoAccess e \<Rightarrow> Inl e
      | SeqAccess xs \<Rightarrow> and_then (vseq xs) (\<lambda>r. map_ok (\<lambda>_. r) (de_close F FIELDS v))
      | MapAccess es \<Rightarrow> and_then (vmap es) (\<lambda>r. map_ok (\<lambda>_. r) (de_close F FIELDS v)))"

section \<open>Missing fields\<close>

text \<open>
  \<open>missing_field\<close> runs \<open>V::deserialize\<close> on a deserializer with two behaviours:
  \<open>deserialize_option\<close> visits \<open>none\<close>, every other request ends in \<open>deserialize_any\<close>, which
  reports the field. What the type asks for is the argument.
\<close>

datatype 'r request = RequestOption 'r | RequestAny

fun missing_field :: "('v, 'e) de_format \<Rightarrow> ('e + 'a) request \<Rightarrow> string \<Rightarrow> 'e + 'a" where
  "missing_field F (RequestOption visit_none) field = visit_none"
| "missing_field F RequestAny field = Inl (err_missing_field F field)"

section \<open>One slot per field: \<open>visit_map\<close>\<close>

text \<open>
  \<open>if Option::is_some(&slot) { return Err(duplicate_field(name)) } slot = Some(next_value()?)\<close>
\<close>

definition slot_set ::
  "('v, 'e) de_format \<Rightarrow> string \<Rightarrow> ('v \<Rightarrow> 'e + 'a) \<Rightarrow> 'v \<Rightarrow> 'a option \<Rightarrow> 'e + 'a option" where
  "slot_set F name dec v slot =
     (if slot \<noteq> None then Inl (err_duplicate_field F name) else map_ok Some (dec v))"

text \<open>\<open>match slot { Some(x) => x, None => missing_field(name)? }\<close>; no field type is an option.\<close>

definition slot_get :: "('v, 'e) de_format \<Rightarrow> string \<Rightarrow> 'a option \<Rightarrow> 'e + 'a" where
  "slot_get F name slot =
     (case slot of Some x \<Rightarrow> Inr x | None \<Rightarrow> missing_field F RequestAny name)"

text \<open>
  What a slot holds after the values \<open>vs\<close> of its field have come by: at most one value, on an
  empty slot.
\<close>

fun slot_rel :: "('v \<Rightarrow> 'e + 'a) \<Rightarrow> 'a option \<Rightarrow> 'v list \<Rightarrow> 'a option \<Rightarrow> bool" where
  "slot_rel dec s [] t = (t = s)"
| "slot_rel dec s [v] t = (s = None \<and> (\<exists>x. dec v = Inr x \<and> t = Some x))"
| "slot_rel dec s (v # w # vs) t = False"

lemma slot_set_eq_Inr [res_simps]:
  "slot_set F name dec v s = Inr s' \<longleftrightarrow> s = None \<and> (\<exists>x. dec v = Inr x \<and> s' = Some x)"
  by (auto simp: slot_set_def res_simps)

lemma slot_rel_Cons:
  "slot_rel dec s (v # vs) t \<longleftrightarrow> s = None \<and> (\<exists>x. dec v = Inr x \<and> slot_rel dec (Some x) vs t)"
  by (cases vs rule: remdups_adj.cases) auto

lemma slot_rel_None_Some:
  "slot_rel dec None vs (Some x) \<longleftrightarrow> (\<exists>v. vs = [v] \<and> dec v = Inr x)"
  by (cases vs rule: remdups_adj.cases) auto

lemma slot_get_eq_Inr [simp]: "slot_get F name s = Inr x \<longleftrightarrow> s = Some x"
  by (cases s) (auto simp: slot_get_def)

text \<open>
  \<open>while let Some(key) = next_key()? { ... }\<close>: the body sees the key, the value it may ask
  for and the slots.
\<close>

fun map_loop :: "(ident \<Rightarrow> 'v \<Rightarrow> 'st \<Rightarrow> 'e + 'st) \<Rightarrow> ('e + ident \<times> 'v) list \<Rightarrow> 'st \<Rightarrow> 'e + 'st" where
  "map_loop body [] st = Inr st"
| "map_loop body (Inl e # es) st = Inl e"
| "map_loop body (Inr (k, v) # es) st = and_then (body k v st) (map_loop body es)"

text \<open>A relation that follows the loop step by step is what the loop computes.\<close>

lemma map_loop_iff:
  assumes "\<And>st. R [] st st' \<longleftrightarrow> st = st'"
    and "\<And>e es st. \<not> R (Inl e # es) st st'"
    and "\<And>k v es st. R (Inr (k, v) # es) st st' \<longleftrightarrow> (\<exists>s. body k v st = Inr s \<and> R es s st')"
  shows "map_loop body es st = Inr st' \<longleftrightarrow> R es st st'"
proof (induction es arbitrary: st)
  case Nil
  show ?case by (simp add: assms(1))
next
  case (Cons x es)
  then show ?case
    by (cases x) (auto simp: assms(2,3) res_simps)
qed

text \<open>The values of one field, in the order of the stream.\<close>

fun field_values :: "(ident \<Rightarrow> 'f) \<Rightarrow> 'f \<Rightarrow> ('e + ident \<times> 'v) list \<Rightarrow> 'v list" where
  "field_values fld f [] = []"
| "field_values fld f (Inl e # es) = field_values fld f es"
| "field_values fld f (Inr (k, v) # es) =
     (if fld k = f then v # field_values fld f es else field_values fld f es)"

text \<open>The stream has no error of its own and every ignored value can be skipped.\<close>

definition clean_stream ::
  "('v, 'e) de_format \<Rightarrow> (ident \<Rightarrow> 'f) \<Rightarrow> 'f \<Rightarrow> ('e + ident \<times> 'v) list \<Rightarrow> bool" where
  "clean_stream F fld ignore es \<longleftrightarrow>
     list_all (\<lambda>x. case x of Inl e \<Rightarrow> False
                | Inr (k, v) \<Rightarrow> fld k = ignore \<longrightarrow> is_ok (de_ignored F v)) es"

lemma clean_stream_simps [simp]:
  "clean_stream F fld ig []"
  "\<not> clean_stream F fld ig (Inl e # es)"
  "clean_stream F fld ig (Inr (k, v) # es) \<longleftrightarrow>
     (fld k = ig \<longrightarrow> is_ok (de_ignored F v)) \<and> clean_stream F fld ig es"
  by (simp_all add: clean_stream_def)

lemma field_values_mset:
  "mset es = mset es' \<Longrightarrow> mset (field_values fld f es) = mset (field_values fld f es')"
  for es es' :: "('e + ident \<times> 'v) list"
proof -
  have "mset (field_values fld f xs) =
      image_mset snd (filter_mset (\<lambda>p. fld (fst p) = f)
        (image_mset projr (filter_mset (\<lambda>x. \<not> isl x) (mset xs))))"
    for xs :: "('e + ident \<times> 'v) list"
    by (induction fld f xs rule: field_values.induct) auto
  then show "mset es = mset es' \<Longrightarrow> ?thesis" by simp
qed

lemma clean_stream_mset:
  "mset es = mset es' \<Longrightarrow> clean_stream F fld ig es = clean_stream F fld ig es'"
  unfolding clean_stream_def list_all_iff by (metis set_mset_mset)

section \<open>One element per field: \<open>visit_seq\<close>\<close>

text \<open>\<open>match next_element::<T>(&mut seq)? { Some(x) => x, None => return Err(invalid_length(n, what)) }\<close>\<close>

fun seq_field ::
  "('v, 'e) de_format \<Rightarrow> ('v \<Rightarrow> 'e + 'a) \<Rightarrow> nat \<Rightarrow> string \<Rightarrow> ('e + 'v) list
     \<Rightarrow> 'e + 'a \<times> ('e + 'v) list" where
  "seq_field F dec n what [] = Inl (err_invalid_length F n what)"
| "seq_field F dec n what (Inl e # xs) = Inl e"
| "seq_field F dec n what (Inr v # xs) = map_ok (\<lambda>x. (x, xs)) (dec v)"

section \<open>What a format documents\<close>

text \<open>The calls of a whole \<open>Serialize\<close> implementation on already serialized fields.\<close>

fun put_all ::
  "('s, 'v, 'e) ser_format \<Rightarrow> (string \<times> 'v) list \<Rightarrow> 's \<Rightarrow> 'e + 's" where
  "put_all S [] st = Inr st"
| "put_all S ((k, v) # kvs) st = and_then (ser_field S st k v) (put_all S kvs)"

definition build_struct ::
  "('s, 'v, 'e) ser_format \<Rightarrow> string \<Rightarrow> (string \<times> 'v) list \<Rightarrow> 'e + 'v" where
  "build_struct S name kvs =
     and_then (ser_struct S name (length kvs)) (\<lambda>st. and_then (put_all S kvs st) (ser_end S))"

text \<open>
  A format gives back what it was given: a primitive value reads back as itself, and a struct
  opens either as the map of its fields by name or as the sequence of their values, in the order
  they were written.
\<close>

locale serde_format =
  fixes S :: "('s, 'v, 'e) ser_format" and F :: "('v, 'e) de_format"
  assumes u16_back: "ser_u16 S n = Inr v \<Longrightarrow> de_u16 F v = Inr n"
    and u32_back: "ser_u32 S m = Inr v \<Longrightarrow> de_u32 F v = Inr m"
    and u64_back: "ser_u64 S l = Inr v \<Longrightarrow> de_u64 F v = Inr l"
    and string_back: "ser_string S t = Inr v \<Longrightarrow> de_string F v = Inr t"
    and struct_open: "build_struct S name kvs = Inr v \<Longrightarrow>
      de_open F name (map fst kvs) v = MapAccess (map (\<lambda>(k, x). Inr (IdStr k, x)) kvs)
      \<or> de_open F name (map fst kvs) v = SeqAccess (map (\<lambda>(k, x). Inr x) kvs)"
    and struct_close: "build_struct S name kvs = Inr v \<Longrightarrow> de_close F (map fst kvs) v = Inr ()"
begin

text \<open>
  The step every round trip takes: when the visitor accepts both presentations of the written
  fields, deserializing the written struct is what the visitor returns.
\<close>

lemma struct_back:
  assumes "build_struct S name kvs = Inr v"
    and "FIELDS = map fst kvs"
    and "vseq (map (\<lambda>(k, x). Inr x) kvs) = Inr r"
    and "vmap (map (\<lambda>(k, x). Inr (IdStr k, x)) kvs) = Inr r"
  shows "deserialize_struct F name FIELDS vseq vmap v = Inr r"
  using struct_open [OF assms(1)] struct_close [OF assms(1)] assms(2-4)
  by (auto simp: deserialize_struct_def)

end

section \<open>Two formats\<close>

text \<open>
  A tree of numbers, strings, arrays and objects, as a self-describing format presents it. The
  first serializer writes a struct as an object, the second as an array of its values; one
  deserializer reads both and refuses an array that is longer than the struct.
\<close>

datatype tree = TNum nat | TStr string | TArr "tree list" | TObj "(string \<times> tree) list"

definition tree_num :: "nat \<Rightarrow> tree \<Rightarrow> string + nat" where
  "tree_num bound t =
     (case t of TNum n \<Rightarrow> if n < bound then Inr n else Inl ''number out of range''
      | _ \<Rightarrow> Inl ''invalid type'')"

definition tree_de :: "(tree, string) de_format" where
  "tree_de =
     \<lparr>de_u16 = (\<lambda>t. map_ok of_nat (tree_num (2 ^ 16) t)),
      de_u32 = (\<lambda>t. map_ok of_nat (tree_num (2 ^ 32) t)),
      de_u64 = (\<lambda>t. map_ok of_nat (tree_num (2 ^ 64) t)),
      de_string = (\<lambda>t. case t of TStr s \<Rightarrow> Inr s | _ \<Rightarrow> Inl ''invalid type''),
      de_ignored = (\<lambda>_. Inr ()),
      de_open = (\<lambda>name FIELDS t. case t of
          TObj kvs \<Rightarrow> MapAccess (map (\<lambda>(k, x). Inr (IdStr k, x)) kvs)
        | TArr xs \<Rightarrow> SeqAccess (map Inr xs)
        | _ \<Rightarrow> NoAccess (''invalid type, expected '' @ name)),
      de_close = (\<lambda>FIELDS t. case t of
          TArr xs \<Rightarrow> if length xs \<le> length FIELDS then Inr () else Inl ''trailing elements''
        | _ \<Rightarrow> Inr ()),
      err_invalid_length = (\<lambda>n what. ''invalid length '' @ dec_of_nat n @ '', expected '' @ what),
      err_duplicate_field = (\<lambda>f. ''duplicate field '' @ f),
      err_missing_field = (\<lambda>f. ''missing field '' @ f)\<rparr>"

definition object_ser :: "((string \<times> tree) list, tree, string) ser_format" where
  "object_ser =
     \<lparr>ser_u16 = (\<lambda>n. Inr (TNum (unat n))), ser_u32 = (\<lambda>n. Inr (TNum (unat n))),
      ser_u64 = (\<lambda>n. Inr (TNum (unat n))), ser_string = (\<lambda>s. Inr (TStr s)),
      ser_struct = (\<lambda>name n. Inr []), ser_field = (\<lambda>st k v. Inr (st @ [(k, v)])),
      ser_end = (\<lambda>st. Inr (TObj st))\<rparr>"

definition array_ser :: "((string \<times> tree) list, tree, string) ser_format" where
  "array_ser = object_ser\<lparr>ser_end := (\<lambda>st. Inr (TArr (map snd st)))\<rparr>"

lemma put_all_append:
  "(\<And>st k v. ser_field S st k v = Inr (st @ [(k, v)])) \<Longrightarrow> put_all S kvs st = Inr (st @ kvs)"
  by (induction kvs arbitrary: st) auto

lemma tree_num_unat:
  "map_ok of_nat (tree_num (2 ^ LENGTH('n)) (TNum (unat n))) = Inr (n :: 'n :: len word)"
  using unsigned_less [of n, where 'a = nat] by (simp add: tree_num_def)

lemmas tree_num_widths = tree_num_unat [where 'n = 16, simplified] tree_num_unat [where 'n = 32, simplified]
  tree_num_unat [where 'n = 64, simplified]

interpretation object_format: serde_format object_ser tree_de
proof (unfold_locales, goal_cases)
  case (5 name kvs v)
  then show ?case
    by (auto simp: build_struct_def put_all_append object_ser_def tree_de_def)
next
  case (6 name kvs v)
  then show ?case
    by (auto simp: build_struct_def put_all_append object_ser_def tree_de_def)
qed (auto simp: object_ser_def tree_de_def tree_num_widths)

interpretation array_format: serde_format array_ser tree_de
proof (unfold_locales, goal_cases)
  case (5 name kvs v)
  then show ?case
    by (auto simp: build_struct_def put_all_append array_ser_def object_ser_def tree_de_def
        case_prod_unfold comp_def)
next
  case (6 name kvs v)
  then show ?case
    by (auto simp: build_struct_def put_all_append array_ser_def object_ser_def tree_de_def)
qed (auto simp: array_ser_def object_ser_def tree_de_def tree_num_widths)

end
