(* ===== verification/Fizz_Serde_Structs.thy ===== *)
theory Fizz_Serde_Structs
  imports Fizz_Serde Fizz_Types
begin

text \<open>
  The serde implementations of \<open>src/src/types.rs\<close> (\<open>DelegatedCredential\<close>,
  \<open>ServiceCredential\<close>, \<open>DelegatedCredentialData\<close>) and \<open>src/src/credentials.rs\<close>
  (\<open>VerificationInfo\<close>), each with its field visitor, its \<open>serialize\<close>, \<open>visit_seq\<close>,
  \<open>visit_map\<close> and \<open>deserialize\<close>. The prefix of a definition names the struct: DC, SC, DCD, VI.
  For every struct the lemmas characterise the maps its visitor accepts (each field exactly
  once, in any order, other keys skipped) and prove the round trip.
\<close>

section \<open>DelegatedCredential\<close>

datatype DC_Field = DC_field0 | DC_field1 | DC_field2 | DC_field3 | DC_field4 | DC_ignore

definition DC_visit_u64 :: "u64 \<Rightarrow> DC_Field" where
  "DC_visit_u64 n =
     (if n = 0 then DC_field0
      else if n = 1 then DC_field1
      else if n = 2 then DC_field2
      else if n = 3 then DC_field3
      else if n = 4 then DC_field4
      else DC_ignore)"

definition DC_visit_str :: "string \<Rightarrow> DC_Field" where
  "DC_visit_str s =
     (if s = ''valid_time'' then DC_field0
      else if s = ''expected_verify_scheme'' then DC_field1
      else if s = ''public_key_der'' then DC_field2
      else if s = ''credential_scheme'' then DC_field3
      else if s = ''signature'' then DC_field4
      else DC_ignore)"

definition DC_visit_bytes :: "u8 list \<Rightarrow> DC_Field" where
  "DC_visit_bytes b =
     (if b = map of_char ''valid_time'' then DC_field0
      else if b = map of_char ''expected_verify_scheme'' then DC_field1
      else if b = map of_char ''public_key_der'' then DC_field2
      else if b = map of_char ''credential_scheme'' then DC_field3
      else if b = map of_char ''signature'' then DC_field4
      else DC_ignore)"

fun DC_field :: "ident \<Rightarrow> DC_Field" where
  "DC_field (IdU64 n) = DC_visit_u64 n"
| "DC_field (IdStr s) = DC_visit_str s"
| "DC_field (IdBytes b) = DC_visit_bytes b"

definition serialize_DelegatedCredential ::
  "('s, 'v, 'e) ser_format \<Rightarrow> DelegatedCredential \<Rightarrow> 'e + 'v" where
  "serialize_DelegatedCredential S c =
     and_then (ser_struct S ''DelegatedCredential'' 5) (\<lambda>st.
     and_then (put_field S ''valid_time'' (ser_u32 S (dc_valid_time c)) st) (\<lambda>st.
     and_then (put_field S ''expected_verify_scheme'' (ser_u16 S (dc_expected_verify_scheme c)) st) (\<lambda>st.
     and_then (put_field S ''public_key_der'' (ser_string S (dc_public_key_der c)) st) (\<lambda>st.
     and_then (put_field S ''credential_scheme'' (ser_u16 S (dc_credential_scheme c)) st) (\<lambda>st.
     and_then (put_field S ''signature'' (ser_string S (dc_signature c)) st) (\<lambda>st.
     ser_end S st))))))"

definition DC_visit_seq ::
  "('v, 'e) de_format \<Rightarrow> ('e + 'v) list \<Rightarrow> 'e + DelegatedCredential" where
  "DC_visit_seq F xs =
     and_then (seq_field F (de_u32 F) 0 ''struct DelegatedCredential with 5 elements'' xs) (\<lambda>(f0, xs).
     and_then (seq_field F (de_u16 F) 1 ''struct DelegatedCredential with 5 elements'' xs) (\<lambda>(f1, xs).
     and_then (seq_field F (de_string F) 2 ''struct DelegatedCredential with 5 elements'' xs) (\<lambda>(f2, xs).
     and_then (seq_field F (de_u16 F) 3 ''struct DelegatedCredential with 5 elements'' xs) (\<lambda>(f3, xs).
     and_then (seq_field F (de_string F) 4 ''struct DelegatedCredential with 5 elements'' xs) (\<lambda>(f4, xs).
     Inr \<lparr>dc_valid_time = f0, dc_expected_verify_scheme = f1, dc_public_key_der = f2, dc_credential_scheme = f3, dc_signature = f4\<rparr>)))))"

type_synonym DC_slots = "u32 option \<times> u16 option \<times> string option \<times> u16 option \<times> string option"

fun DC_map_step ::
  "('v, 'e) de_format \<Rightarrow> DC_Field \<Rightarrow> 'v \<Rightarrow> DC_slots \<Rightarrow> 'e + DC_slots" where
  "DC_map_step F DC_field0 v (s0, s1, s2, s3, s4) =
     map_ok (\<lambda>s. (s, s1, s2, s3, s4)) (slot_set F ''valid_time'' (de_u32 F) v s0)"
| "DC_map_step F DC_field1 v (s0, s1, s2, s3, s4) =
     map_ok (\<lambda>s. (s0, s, s2, s3, s4)) (slot_set F ''expected_verify_scheme'' (de_u16 F) v s1)"
| "DC_map_step F DC_field2 v (s0, s1, s2, s3, s4) =
     map_ok (\<lambda>s. (s0, s1, s, s3, s4)) (slot_set F ''public_key_der'' (de_string F) v s2)"
| "DC_map_step F DC_field3 v (s0, s1, s2, s3, s4) =
     map_ok (\<lambda>s. (s0, s1, s2, s, s4)) (slot_set F ''credential_scheme'' (de_u16 F) v s3)"
| "DC_map_step F DC_field4 v (s0, s1, s2, s3, s4) =
     map_ok (\<lambda>s. (s0, s1, s2, s3, s)) (slot_set F ''signature'' (de_string F) v s4)"
| "DC_map_step F DC_ignore v (s0, s1, s2, s3, s4) = map_ok (\<lambda>_. (s0, s1, s2, s3, s4)) (de_ignored F v)"

definition DC_map_body ::
  "('v, 'e) de_format \<Rightarrow> ident \<Rightarrow> 'v \<Rightarrow> DC_slots \<Rightarrow> 'e + DC_slots" where
  "DC_map_body F k v st = DC_map_step F (DC_field k) v st"

definition DC_visit_map ::
  "('v, 'e) de_format \<Rightarrow> ('e + ident \<times> 'v) list \<Rightarrow> 'e + DelegatedCredential" where
  "DC_visit_map F es =
     and_then (map_loop (DC_map_body F) es (None, None, None, None, None)) (\<lambda>(s0, s1, s2, s3, s4).
     and_then (slot_get F ''valid_time'' s0) (\<lambda>f0.
     and_then (slot_get F ''expected_verify_scheme'' s1) (\<lambda>f1.
     and_then (slot_get F ''public_key_der'' s2) (\<lambda>f2.
     and_then (slot_get F ''credential_scheme'' s3) (\<lambda>f3.
     and_then (slot_get F ''signature'' s4) (\<lambda>f4.
     Inr \<lparr>dc_valid_time = f0, dc_expected_verify_scheme = f1, dc_public_key_der = f2, dc_credential_scheme = f3, dc_signature = f4\<rparr>))))))"

definition DC_FIELDS :: "string list" where
  "DC_FIELDS = [''valid_time'', ''expected_verify_scheme'', ''public_key_der'', ''credential_scheme'', ''signature'']"

definition deserialize_DelegatedCredential :: "('v, 'e) de_format \<Rightarrow> 'v \<Rightarrow> 'e + DelegatedCredential" where
  "deserialize_DelegatedCredential F v =
     deserialize_struct F ''DelegatedCredential'' DC_FIELDS (DC_visit_seq F) (DC_visit_map F) v"

section \<open>ServiceCredential\<close>

datatype SC_Field = SC_field0 | SC_field1 | SC_field2 | SC_field3 | SC_field4 | SC_field5 | SC_field6 | SC_ignore

definition SC_visit_u64 :: "u64 \<Rightarrow> SC_Field" where
  "SC_visit_u64 n =
     (if n = 0 then SC_field0
      else if n = 1 then SC_field1
      else if n = 2 then SC_field2
      else if n = 3 then SC_field3
      else if n = 4 then SC_field4
      else if n = 5 then SC_field5
      else if n = 6 then SC_field6
      else SC_ignore)"

definition SC_visit_str :: "string \<Rightarrow> SC_Field" where
  "SC_visit_str s =
     (if s = ''service_name'' then SC_field0
      else if s = ''credential'' then SC_field1
      else if s = ''private_key_pem'' then SC_field2
      else if s = ''public_key_der'' then SC_field3
      else if s = ''created_at'' then SC_field4
      else if s = ''expires_at'' then SC_field5
      else if s = ''credential_pem'' then SC_field6
      else SC_ignore)"

definition SC_visit_bytes :: "u8 list \<Rightarrow> SC_Field" where
  "SC_visit_bytes b =
     (if b = map of_char ''service_name'' then SC_field0
      else if b = map of_char ''credential'' then SC_field1
      else if b = map of_char ''private_key_pem'' then SC_field2
      else if b = map of_char ''public_key_der'' then SC_field3
      else if b = map of_char ''created_at'' then SC_field4
      else if b = map of_char ''expires_at'' then SC_field5
      else if b = map of_char ''credential_pem'' then SC_field6
      else SC_ignore)"

fun SC_field :: "ident \<Rightarrow> SC_Field" where
  "SC_field (IdU64 n) = SC_visit_u64 n"
| "SC_field (IdStr s) = SC_visit_str s"
| "SC_field (IdBytes b) = SC_visit_bytes b"

definition serialize_ServiceCredential ::
  "('s, 'v, 'e) ser_format \<Rightarrow> ServiceCredential \<Rightarrow> 'e + 'v" where
  "serialize_ServiceCredential S c =
     and_then (ser_struct S ''ServiceCredential'' 7) (\<lambda>st.
     and_then (put_field S ''service_name'' (ser_string S (sc_service_name c)) st) (\<lambda>st.
     and_then (put_field S ''credential'' (serialize_DelegatedCredential S (sc_credential c)) st) (\<lambda>st.
     and_then (put_field S ''private_key_pem'' (ser_string S (sc_private_key_pem c)) st) (\<lambda>st.
     and_then (put_field S ''public_key_der'' (ser_string S (sc_public_key_der c)) st) (\<lambda>st.
     and_then (put_field S ''created_at'' (ser_u64 S (sc_created_at c)) st) (\<lambda>st.
     and_then (put_field S ''expires_at'' (ser_u64 S (sc_expires_at c)) st) (\<lambda>st.
     and_then (put_field S ''credential_pem'' (ser_string S (sc_credential_pem c)) st) (\<lambda>st.
     ser_end S st))))))))"

definition SC_visit_seq ::
  "('v, 'e) de_format \<Rightarrow> ('e + 'v) list \<Rightarrow> 'e + ServiceCredential" where
  "SC_visit_seq F xs =
     and_then (seq_field F (de_string F) 0 ''struct ServiceCredential with 7 elements'' xs) (\<lambda>(f0, xs).
     and_then (seq_field F (deserialize_DelegatedCredential F) 1 ''struct ServiceCredential with 7 elements'' xs) (\<lambda>(f1, xs).
     and_then (seq_field F (de_string F) 2 ''struct ServiceCredential with 7 elements'' xs) (\<lambda>(f2, xs).
     and_then (seq_field F (de_string F) 3 ''struct ServiceCredential with 7 elements'' xs) (\<lambda>(f3, xs).
     and_then (seq_field F (de_u64 F) 4 ''struct ServiceCredential with 7 elements'' xs) (\<lambda>(f4, xs).
     and_then (seq_field F (de_u64 F) 5 ''struct ServiceCredential with 7 elements'' xs) (\<lambda>(f5, xs).
     and_then (seq_field F (de_string F) 6 ''struct ServiceCredential with 7 elements'' xs) (\<lambda>(f6, xs).
     Inr \<lparr>sc_service_name = f0, sc_credential = f1, sc_private_key_pem = f2, sc_public_key_der = f3, sc_created_at = f4, sc_expires_at = f5, sc_credential_pem = f6\<rparr>)))))))"

type_synonym SC_slots = "string option \<times> DelegatedCredential option \<times> string option \<times> string option \<times> u64 option \<times> u64 option \<times> string option"

fun SC_map_step ::
  "('v, 'e) de_format \<Rightarrow> SC_Field \<Rightarrow> 'v \<Rightarrow> SC_slots \<Rightarrow> 'e + SC_slots" where
  "SC_map_step F SC_field0 v (s0, s1, s2, s3, s4, s5, s6) =
     map_ok (\<lambda>s. (s, s1, s2, s3, s4, s5, s6)) (slot_set F ''service_name'' (de_string F) v s0)"
| "SC_map_step F SC_field1 v (s0, s1, s2, s3, s4, s5, s6) =
     map_ok (\<lambda>s. (s0, s, s2, s3, s4, s5, s6)) (slot_set F ''credential'' (deserialize_DelegatedCredential F) v s1)"
| "SC_map_step F SC_field2 v (s0, s1, s2, s3, s4, s5, s6) =
     map_ok (\<lambda>s. (s0, s1, s, s3, s4, s5, s6)) (slot_set F ''private_key_pem'' (de_string F) v s2)"
| "SC_map_step F SC_field3 v (s0, s1, s2, s3, s4, s5, s6) =
     map_ok (\<lambda>s. (s0, s1, s2, s, s4, s5, s6)) (slot_set F ''public_key_der'' (de_string F) v s3)"
| "SC_map_step F SC_field4 v (s0, s1, s2, s3, s4, s5, s6) =
     map_ok (\<lambda>s. (s0, s1, s2, s3, s, s5, s6)) (slot_set F ''created_at'' (de_u64 F) v s4)"
| "SC_map_step F SC_field5 v (s0, s1, s2, s3, s4, s5, s6) =
     map_ok (\<lambda>s. (s0, s1, s2, s3, s4, s, s6)) (slot_set F ''expires_at'' (de_u64 F) v s5)"
| "SC_map_step F SC_field6 v (s0, s1, s2, s3, s4, s5, s6) =
     map_ok (\<lambda>s. (s0, s1, s2, s3, s4, s5, s)) (slot_set F ''credential_pem'' (de_string F) v s6)"
| "SC_map_step F SC_ignore v (s0, s1, s2, s3, s4, s5, s6) = map_ok (\<lambda>_. (s0, s1, s2, s3, s4, s5, s6)) (de_ignored F v)"

definition SC_map_body ::
  "('v, 'e) de_format \<Rightarrow> ident \<Rightarrow> 'v \<Rightarrow> SC_slots \<Rightarrow> 'e + SC_slots" where
  "SC_map_body F k v st = SC_map_step F (SC_field k) v st"

definition SC_visit_map ::
  "('v, 'e) de_format \<Rightarrow> ('e + ident \<times> 'v) list \<Rightarrow> 'e + ServiceCredential" where
  "SC_visit_map F es =
     and_then (map_loop (SC_map_body F) es (None, None, None, None, None, None, None)) (\<lambda>(s0, s1, s2, s3, s4, s5, s6).
     and_then (slot_get F ''service_name'' s0) (\<lambda>f0.
     and_then (slot_get F ''credential'' s1) (\<lambda>f1.
     and_then (slot_get F ''private_key_pem'' s2) (\<lambda>f2.
     and_then (slot_get F ''public_key_der'' s3) (\<lambda>f3.
     and_then (slot_get F ''created_at'' s4) (\<lambda>f4.
     and_then (slot_get F ''expires_at'' s5) (\<lambda>f5.
     and_then (slot_get F ''credential_pem'' s6) (\<lambda>f6.
     Inr \<lparr>sc_service_name = f0, sc_credential = f1, sc_private_key_pem = f2, sc_public_key_der = f3, sc_created_at = f4, sc_expires_at = f5, sc_credential_pem = f6\<rparr>))))))))"

definition SC_FIELDS :: "string list" where
  "SC_FIELDS = [''service_name'', ''credential'', ''private_key_pem'', ''public_key_der'', ''created_at'', ''expires_at'', ''credential_pem'']"

definition deserialize_ServiceCredential :: "('v, 'e) de_format \<Rightarrow> 'v \<Rightarrow> 'e + ServiceCredential" where
  "deserialize_ServiceCredential F v =
     deserialize_struct F ''ServiceCredential'' SC_FIELDS (SC_visit_seq F) (SC_visit_map F) v"

section \<open>DelegatedCredentialData\<close>

datatype DCD_Field = DCD_field0 | DCD_ignore

definition DCD_visit_u64 :: "u64 \<Rightarrow> DCD_Field" where
  "DCD_visit_u64 n =
     (if n = 0 then DCD_field0
      else DCD_ignore)"

definition DCD_visit_str :: "string \<Rightarrow> DCD_Field" where
  "DCD_visit_str s =
     (if s = ''inner'' then DCD_field0
      else DCD_ignore)"

definition DCD_visit_bytes :: "u8 list \<Rightarrow> DCD_Field" where
  "DCD_visit_bytes b =
     (if b = map of_char ''inner'' then DCD_field0
      else DCD_ignore)"

fun DCD_field :: "ident \<Rightarrow> DCD_Field" where
  "DCD_field (IdU64 n) = DCD_visit_u64 n"
| "DCD_field (IdStr s) = DCD_visit_str s"
| "DCD_field (IdBytes b) = DCD_visit_bytes b"

definition serialize_DelegatedCredentialData ::
  "('s, 'v, 'e) ser_format \<Rightarrow> DelegatedCredentialData \<Rightarrow> 'e + 'v" where
  "serialize_DelegatedCredentialData S c =
     and_then (ser_struct S ''DelegatedCredentialData'' 1) (\<lambda>st.
     and_then (put_field S ''inner'' (serialize_ServiceCredential S (dcd_inner c)) st) (\<lambda>st.
     ser_end S st))"

definition DCD_visit_seq ::
  "('v, 'e) de_format \<Rightarrow> ('e + 'v) list \<Rightarrow> 'e + DelegatedCredentialData" where
  "DCD_visit_seq F xs =
     and_then (seq_field F (deserialize_ServiceCredential F) 0 ''struct DelegatedCredentialData with 1 element'' xs) (\<lambda>(f0, xs).
     Inr \<lparr>dcd_inner = f0\<rparr>)"

type_synonym DCD_slots = "ServiceCredential option"

fun DCD_map_step ::
  "('v, 'e) de_format \<Rightarrow> DCD_Field \<Rightarrow> 'v \<Rightarrow> DCD_slots \<Rightarrow> 'e + DCD_slots" where
  "DCD_map_step F DCD_field0 v s0 =
     map_ok (\<lambda>s. s) (slot_set F ''inner'' (deserialize_ServiceCredential F) v s0)"
| "DCD_map_step F DCD_ignore v s0 = map_ok (\<lambda>_. s0) (de_ignored F v)"

definition DCD_map_body ::
  "('v, 'e) de_format \<Rightarrow> ident \<Rightarrow> 'v \<Rightarrow> DCD_slots \<Rightarrow> 'e + DCD_slots" where
  "DCD_map_body F k v st = DCD_map_step F (DCD_field k) v st"

definition DCD_visit_map ::
  "('v, 'e) de_format \<Rightarrow> ('e + ident \<times> 'v) list \<Rightarrow> 'e + DelegatedCredentialData" where
  "DCD_visit_map F es =
     and_then (map_loop (DCD_map_body F) es None) (\<lambda>s0.
     and_then (slot_get F ''inner'' s0) (\<lambda>f0.
     Inr \<lparr>dcd_inner = f0\<rparr>))"

definition DCD_FIELDS :: "string list" where
  "DCD_FIELDS = [''inner'']"

definition deserialize_DelegatedCredentialData :: "('v, 'e) de_format \<Rightarrow> 'v \<Rightarrow> 'e + DelegatedCredentialData" where
  "deserialize_DelegatedCredentialData F v =
     deserialize_struct F ''DelegatedCredentialData'' DCD_FIELDS (DCD_visit_seq F) (DCD_visit_map F) v"

section \<open>VerificationInfo\<close>

datatype VI_Field = VI_field0 | VI_field1 | VI_field2 | VI_field3 | VI_field4 | VI_ignore

definition VI_visit_u64 :: "u64 \<Rightarrow> VI_Field" where
  "VI_visit_u64 n =
     (if n = 0 then VI_field0
      else if n = 1 then VI_field1
      else if n = 2 then VI_field2
      else if n = 3 then VI_field3
      else if n = 4 then VI_field4
      else VI_ignore)"

definition VI_visit_str :: "string \<Rightarrow> VI_Field" where
  "VI_visit_str s =
     (if s = ''service_name'' then VI_field0
      else if s = ''valid_time'' then VI_field1
      else if s = ''expected_verify_scheme'' then VI_field2
      else if s = ''public_key_der'' then VI_field3
      else if s = ''expires_at'' then VI_field4
      else VI_ignore)"

definition VI_visit_bytes :: "u8 list \<Rightarrow> VI_Field" where
  "VI_visit_bytes b =
     (if b = map of_char ''service_name'' then VI_field0
      else if b = map of_char ''valid_time'' then VI_field1
      else if b = map of_char ''expected_verify_scheme'' then VI_field2
      else if b = map of_char ''public_key_der'' then VI_field3
      else if b = map of_char ''expires_at'' then VI_field4
      else VI_ignore)"

fun VI_field :: "ident \<Rightarrow> VI_Field" where
  "VI_field (IdU64 n) = VI_visit_u64 n"
| "VI_field (IdStr s) = VI_visit_str s"
| "VI_field (IdBytes b) = VI_visit_bytes b"

definition serialize_VerificationInfo ::
  "('s, 'v, 'e) ser_format \<Rightarrow> VerificationInfo \<Rightarrow> 'e + 'v" where
  "serialize_VerificationInfo S c =
     and_then (ser_struct S ''VerificationInfo'' 5) (\<lambda>st.
     and_then (put_field S ''service_name'' (ser_string S (vi_service_name c)) st) (\<lambda>st.
     and_then (put_field S ''valid_time'' (ser_u32 S (vi_valid_time c)) st) (\<lambda>st.
     and_then (put_field S ''expected_verify_scheme'' (ser_u16 S (vi_expected_verify_scheme c)) st) (\<lambda>st.
     and_then (put_field S ''public_key_der'' (ser_string S (vi_public_key_der c)) st) (\<lambda>st.
     and_then (put_field S ''expires_at'' (ser_u64 S (vi_expires_at c)) st) (\<lambda>st.
     ser_end S st))))))"

definition VI_visit_seq ::
  "('v, 'e) de_format \<Rightarrow> ('e + 'v) list \<Rightarrow> 'e + VerificationInfo" where
  "VI_visit_seq F xs =
     and_then (seq_field F (de_string F) 0 ''struct VerificationInfo with 5 elements'' xs) (\<lambda>(f0, xs).
     and_then (seq_field F (de_u32 F) 1 ''struct VerificationInfo with 5 elements'' xs) (\<lambda>(f1, xs).
     and_then (seq_field F (de_u16 F) 2 ''struct VerificationInfo with 5 elements'' xs) (\<lambda>(f2, xs).
     and_then (seq_field F (de_string F) 3 ''struct VerificationInfo with 5 elements'' xs) (\<lambda>(f3, xs).
     and_then (seq_field F (de_u64 F) 4 ''struct VerificationInfo with 5 elements'' xs) (\<lambda>(f4, xs).
     Inr \<lparr>vi_service_name = f0, vi_valid_time = f1, vi_expected_verify_scheme = f2, vi_public_key_der = f3, vi_expires_at = f4\<rparr>)))))"

type_synonym VI_slots = "string option \<times> u32 option \<times> u16 option \<times> string option \<times> u64 option"

fun VI_map_step ::
  "('v, 'e) de_format \<Rightarrow> VI_Field \<Rightarrow> 'v \<Rightarrow> VI_slots \<Rightarrow> 'e + VI_slots" where
  "VI_map_step F VI_field0 v (s0, s1, s2, s3, s4) =
     map_ok (\<lambda>s. (s, s1, s2, s3, s4)) (slot_set F ''service_name'' (de_string F) v s0)"
| "VI_map_step F VI_field1 v (s0, s1, s2, s3, s4) =
     map_ok (\<lambda>s. (s0, s, s2, s3, s4)) (slot_set F ''valid_time'' (de_u32 F) v s1)"
| "VI_map_step F VI_field2 v (s0, s1, s2, s3, s4) =
     map_ok (\<lambda>s. (s0, s1, s, s3, s4)) (slot_set F ''expected_verify_scheme'' (de_u16 F) v s2)"
| "VI_map_step F VI_field3 v (s0, s1, s2, s3, s4) =
     map_ok (\<lambda>s. (s0, s1, s2, s, s4)) (slot_set F ''public_key_der'' (de_string F) v s3)"
| "VI_map_step F VI_field4 v (s0, s1, s2, s3, s4) =
     map_ok (\<lambda>s. (s0, s1, s2, s3, s)) (slot_set F ''expires_at'' (de_u64 F) v s4)"
| "VI_map_step F VI_ignore v (s0, s1, s2, s3, s4) = map_ok (\<lambda>_. (s0, s1, s2, s3, s4)) (de_ignored F v)"

definition VI_map_body ::
  "('v, 'e) de_format \<Rightarrow> ident \<Rightarrow> 'v \<Rightarrow> VI_slots \<Rightarrow> 'e + VI_slots" where
  "VI_map_body F k v st = VI_map_step F (VI_field k) v st"

definition VI_visit_map ::
  "('v, 'e) de_format \<Rightarrow> ('e + ident \<times> 'v) list \<Rightarrow> 'e + VerificationInfo" where
  "VI_visit_map F es =
     and_then (map_loop (VI_map_body F) es (None, None, None, None, None)) (\<lambda>(s0, s1, s2, s3, s4).
     and_then (slot_get F ''service_name'' s0) (\<lambda>f0.
     and_then (slot_get F ''valid_time'' s1) (\<lambda>f1.
     and_then (slot_get F ''expected_verify_scheme'' s2) (\<lambda>f2.
     and_then (slot_get F ''public_key_der'' s3) (\<lambda>f3.
     and_then (slot_get F ''expires_at'' s4) (\<lambda>f4.
     Inr \<lparr>vi_service_name = f0, vi_valid_time = f1, vi_expected_verify_scheme = f2, vi_public_key_der = f3, vi_expires_at = f4\<rparr>))))))"

definition VI_FIELDS :: "string list" where
  "VI_FIELDS = [''service_name'', ''valid_time'', ''expected_verify_scheme'', ''public_key_der'', ''expires_at'']"

definition deserialize_VerificationInfo :: "('v, 'e) de_format \<Rightarrow> 'v \<Rightarrow> 'e + VerificationInfo" where
  "deserialize_VerificationInfo F v =
     deserialize_struct F ''VerificationInfo'' VI_FIELDS (VI_visit_seq F) (VI_visit_map F) v"

subsection \<open>What the DelegatedCredential visitors accept\<close>

lemma DC_visit_str_known [simp]:
  "DC_visit_str ''valid_time'' = DC_field0"
  "DC_visit_str ''expected_verify_scheme'' = DC_field1"
  "DC_visit_str ''public_key_der'' = DC_field2"
  "DC_visit_str ''credential_scheme'' = DC_field3"
  "DC_visit_str ''signature'' = DC_field4"
  by (simp_all add: DC_visit_str_def)

lemma DC_map_loop_iff:
  "map_loop (DC_map_body F) es st = Inr (t0, t1, t2, t3, t4) \<longleftrightarrow>
     (case st of (s0, s1, s2, s3, s4) \<Rightarrow> clean_stream F DC_field DC_ignore es
     \<and> slot_rel (de_u32 F) s0 (field_values DC_field DC_field0 es) t0
     \<and> slot_rel (de_u16 F) s1 (field_values DC_field DC_field1 es) t1
     \<and> slot_rel (de_string F) s2 (field_values DC_field DC_field2 es) t2
     \<and> slot_rel (de_u16 F) s3 (field_values DC_field DC_field3 es) t3
     \<and> slot_rel (de_string F) s4 (field_values DC_field DC_field4 es) t4)"
proof (rule map_loop_iff, goal_cases)
  case (3 k v es st)
  then show ?case
    by (cases "DC_field k")
      (auto simp: DC_map_body_def slot_rel_Cons res_simps simp del: slot_rel.simps(2,3)
        split: prod.splits)
qed (auto split: prod.splits)

lemma DC_visit_map_iff:
  "DC_visit_map F es = Inr c \<longleftrightarrow>
     clean_stream F DC_field DC_ignore es
     \<and> (\<exists>v. field_values DC_field DC_field0 es = [v] \<and> de_u32 F v = Inr (dc_valid_time c))
     \<and> (\<exists>v. field_values DC_field DC_field1 es = [v] \<and> de_u16 F v = Inr (dc_expected_verify_scheme c))
     \<and> (\<exists>v. field_values DC_field DC_field2 es = [v] \<and> de_string F v = Inr (dc_public_key_der c))
     \<and> (\<exists>v. field_values DC_field DC_field3 es = [v] \<and> de_u16 F v = Inr (dc_credential_scheme c))
     \<and> (\<exists>v. field_values DC_field DC_field4 es = [v] \<and> de_string F v = Inr (dc_signature c))"
proof -
  have "DC_visit_map F es = Inr c \<longleftrightarrow> map_loop (DC_map_body F) es (None, None, None, None, None) = Inr
      (Some (dc_valid_time c), Some (dc_expected_verify_scheme c), Some (dc_public_key_der c), Some (dc_credential_scheme c), Some (dc_signature c))"
    by (cases c) (auto simp: DC_visit_map_def res_simps)
  then show ?thesis
    by (simp add: DC_map_loop_iff slot_rel_None_Some)
qed

lemma DC_visit_seq_ok:
  assumes "de_u32 F v0 = Inr (dc_valid_time c)"
    and "de_u16 F v1 = Inr (dc_expected_verify_scheme c)"
    and "de_string F v2 = Inr (dc_public_key_der c)"
    and "de_u16 F v3 = Inr (dc_credential_scheme c)"
    and "de_string F v4 = Inr (dc_signature c)"
  shows "DC_visit_seq F ([Inr v0, Inr v1, Inr v2, Inr v3, Inr v4] @ rest) = Inr c"
  using assms by (cases c) (simp add: DC_visit_seq_def)

lemma serialize_DelegatedCredential_build:
  assumes "serialize_DelegatedCredential S c = Inr v"
  obtains v0 v1 v2 v3 v4 where "ser_u32 S (dc_valid_time c) = Inr v0"
    and "ser_u16 S (dc_expected_verify_scheme c) = Inr v1"
    and "ser_string S (dc_public_key_der c) = Inr v2"
    and "ser_u16 S (dc_credential_scheme c) = Inr v3"
    and "ser_string S (dc_signature c) = Inr v4"
    and "build_struct S ''DelegatedCredential'' [(''valid_time'', v0), (''expected_verify_scheme'', v1), (''public_key_der'', v2), (''credential_scheme'', v3), (''signature'', v4)] = Inr v"
  using assms that
  by (auto simp: serialize_DelegatedCredential_def build_struct_def put_field_def res_simps
    eval_nat_numeral)

subsection \<open>What the ServiceCredential visitors accept\<close>

lemma SC_visit_str_known [simp]:
  "SC_visit_str ''service_name'' = SC_field0"
  "SC_visit_str ''credential'' = SC_field1"
  "SC_visit_str ''private_key_pem'' = SC_field2"
  "SC_visit_str ''public_key_der'' = SC_field3"
  "SC_visit_str ''created_at'' = SC_field4"
  "SC_visit_str ''expires_at'' = SC_field5"
  "SC_visit_str ''credential_pem'' = SC_field6"
  by (simp_all add: SC_visit_str_def)

lemma SC_map_loop_iff:
  "map_loop (SC_map_body F) es st = Inr (t0, t1, t2, t3, t4, t5, t6) \<longleftrightarrow>
     (case st of (s0, s1, s2, s3, s4, s5, s6) \<Rightarrow> clean_stream F SC_field SC_ignore es
     \<and> slot_rel (de_string F) s0 (field_values SC_field SC_field0 es) t0
     \<and> slot_rel (deserialize_DelegatedCredential F) s1 (field_values SC_field SC_field1 es) t1
     \<and> slot_rel (de_string F) s2 (field_values SC_field SC_field2 es) t2
     \<and> slot_rel (de_string F) s3 (field_values SC_field SC_field3 es) t3
     \<and> slot_rel (de_u64 F) s4 (field_values SC_field SC_field4 es) t4
     \<and> slot_rel (de_u64 F) s5 (field_values SC_field SC_field5 es) t5
     \<and> slot_rel (de_string F) s6 (field_values SC_field SC_field6 es) t6)"
proof (rule map_loop_iff, goal_cases)
  case (3 k v es st)
  then show ?case
    by (cases "SC_field k")
      (auto simp: SC_map_body_def slot_rel_Cons res_simps simp del: slot_rel.simps(2,3)
        split: prod.splits)
qed (auto split: prod.splits)

lemma SC_visit_map_iff:
  "SC_visit_map F es = Inr c \<longleftrightarrow>
     clean_stream F SC_field SC_ignore es
     \<and> (\<exists>v. field_values SC_field SC_field0 es = [v] \<and> de_string F v = Inr (sc_service_name c))
     \<and> (\<exists>v. field_values SC_field SC_field1 es = [v] \<and> deserialize_DelegatedCredential F v = Inr (sc_credential c))
     \<and> (\<exists>v. field_values SC_field SC_field2 es = [v] \<and> de_string F v = Inr (sc_private_key_pem c))
     \<and> (\<exists>v. field_values SC_field SC_field3 es = [v] \<and> de_string F v = Inr (sc_public_key_der c))
     \<and> (\<exists>v. field_values SC_field SC_field4 es = [v] \<and> de_u64 F v = Inr (sc_created_at c))
     \<and> (\<exists>v. field_values SC_field SC_field5 es = [v] \<and> de_u64 F v = Inr (sc_expires_at c))
     \<and> (\<exists>v. field_values SC_field SC_field6 es = [v] \<and> de_string F v = Inr (sc_credential_pem c))"
proof -
  have "SC_visit_map F es = Inr c \<longleftrightarrow> map_loop (SC_map_body F) es (None, None, None, None, None, None, None) = Inr
      (Some (sc_service_name c), Some (sc_credential c), Some (sc_private_key_pem c), Some (sc_public_key_der c), Some (sc_created_at c), Some (sc_expires_at c), Some (sc_credential_pem c))"
    by (cases c) (auto simp: SC_visit_map_def res_simps)
  then show ?thesis
    by (simp add: SC_map_loop_iff slot_rel_None_Some)
qed

lemma SC_visit_seq_ok:
  assumes "de_string F v0 = Inr (sc_service_name c)"
    and "deserialize_DelegatedCredential F v1 = Inr (sc_credential c)"
    and "de_string F v2 = Inr (sc_private_key_pem c)"
    and "de_string F v3 = Inr (sc_public_key_der c)"
    and "de_u64 F v4 = Inr (sc_created_at c)"
    and "de_u64 F v5 = Inr (sc_expires_at c)"
    and "de_string F v6 = Inr (sc_credential_pem c)"
  shows "SC_visit_seq F ([Inr v0, Inr v1, Inr v2, Inr v3, Inr v4, Inr v5, Inr v6] @ rest) = Inr c"
  using assms by (cases c) (simp add: SC_visit_seq_def)

lemma serialize_ServiceCredential_build:
  assumes "serialize_ServiceCredential S c = Inr v"
  obtains v0 v1 v2 v3 v4 v5 v6 where "ser_string S (sc_service_name c) = Inr v0"
    and "serialize_DelegatedCredential S (sc_credential c) = Inr v1"
    and "ser_string S (sc_private_key_pem c) = Inr v2"
    and "ser_string S (sc_public_key_der c) = Inr v3"
    and "ser_u64 S (sc_created_at c) = Inr v4"
    and "ser_u64 S (sc_expires_at c) = Inr v5"
    and "ser_string S (sc_credential_pem c) = Inr v6"
    and "build_struct S ''ServiceCredential'' [(''service_name'', v0), (''credential'', v1), (''private_key_pem'', v2), (''public_key_der'', v3), (''created_at'', v4), (''expires_at'', v5), (''credential_pem'', v6)] = Inr v"
  using assms that
  by (auto simp: serialize_ServiceCredential_def build_struct_def put_field_def res_simps
    eval_nat_numeral)

subsection \<open>What the DelegatedCredentialData visitors accept\<close>

lemma DCD_visit_str_known [simp]:
  "DCD_visit_str ''inner'' = DCD_field0"
  by (simp_all add: DCD_visit_str_def)

lemma DCD_map_loop_iff:
  "map_loop (DCD_map_body F) es s0 = Inr t0 \<longleftrightarrow>
     (clean_stream F DCD_field DCD_ignore es
     \<and> slot_rel (deserialize_ServiceCredential F) s0 (field_values DCD_field DCD_field0 es) t0)"
proof (rule map_loop_iff, goal_cases)
  case (3 k v es st)
  then show ?case
    by (cases "DCD_field k")
      (auto simp: DCD_map_body_def slot_rel_Cons res_simps simp del: slot_rel.simps(2,3)
        split: prod.splits)
qed (auto split: prod.splits)

lemma DCD_visit_map_iff:
  "DCD_visit_map F es = Inr c \<longleftrightarrow>
     clean_stream F DCD_field DCD_ignore es
     \<and> (\<exists>v. field_values DCD_field DCD_field0 es = [v] \<and> deserialize_ServiceCredential F v = Inr (dcd_inner c))"
proof -
  have "DCD_visit_map F es = Inr c \<longleftrightarrow> map_loop (DCD_map_body F) es None = Inr
      (Some (dcd_inner c))"
    by (cases c) (auto simp: DCD_visit_map_def res_simps)
  then show ?thesis
    by (simp add: DCD_map_loop_iff slot_rel_None_Some)
qed

lemma DCD_visit_seq_ok:
  assumes "deserialize_ServiceCredential F v0 = Inr (dcd_inner c)"
  shows "DCD_visit_seq F ([Inr v0] @ rest) = Inr c"
  using assms by (cases c) (simp add: DCD_visit_seq_def)

lemma serialize_DelegatedCredentialData_build:
  assumes "serialize_DelegatedCredentialData S c = Inr v"
  obtains v0 where "serialize_ServiceCredential S (dcd_inner c) = Inr v0"
    and "build_struct S ''DelegatedCredentialData'' [(''inner'', v0)] = Inr v"
  using assms that
  by (auto simp: serialize_DelegatedCredentialData_def build_struct_def put_field_def res_simps
    eval_nat_numeral)

subsection \<open>What the VerificationInfo visitors accept\<close>

lemma VI_visit_str_known [simp]:
  "VI_visit_str ''service_name'' = VI_field0"
  "VI_visit_str ''valid_time'' = VI_field1"
  "VI_visit_str ''expected_verify_scheme'' = VI_field2"
  "VI_visit_str ''public_key_der'' = VI_field3"
  "VI_visit_str ''expires_at'' = VI_field4"
  by (simp_all add: VI_visit_str_def)

lemma VI_map_loop_iff:
  "map_loop (VI_map_body F) es st = Inr (t0, t1, t2, t3, t4) \<longleftrightarrow>
     (case st of (s0, s1, s2, s3, s4) \<Rightarrow> clean_stream F VI_field VI_ignore es
     \<and> slot_rel (de_string F) s0 (field_values VI_field VI_field0 es) t0
     \<and> slot_rel (de_u32 F) s1 (field_values VI_field VI_field1 es) t1
     \<and> slot_rel (de_u16 F) s2 (field_values VI_field VI_field2 es) t2
     \<and> slot_rel (de_string F) s3 (field_values VI_field VI_field3 es) t3
     \<and> slot_rel (de_u64 F) s4 (field_values VI_field VI_field4 es) t4)"
proof (rule map_loop_iff, goal_cases)
  case (3 k v es st)
  then show ?case
    by (cases "VI_field k")
      (auto simp: VI_map_body_def slot_rel_Cons res_simps simp del: slot_rel.simps(2,3)
        split: prod.splits)
qed (auto split: prod.splits)

lemma VI_visit_map_iff:
  "VI_visit_map F es = Inr c \<longleftrightarrow>
     clean_stream F VI_field VI_ignore es
     \<and> (\<exists>v. field_values VI_field VI_field0 es = [v] \<and> de_string F v = Inr (vi_service_name c))
     \<and> (\<exists>v. field_values VI_field VI_field1 es = [v] \<and> de_u32 F v = Inr (vi_valid_time c))
     \<and> (\<exists>v. field_values VI_field VI_field2 es = [v] \<and> de_u16 F v = Inr (vi_expected_verify_scheme c))
     \<and> (\<exists>v. field_values VI_field VI_field3 es = [v] \<and> de_string F v = Inr (vi_public_key_der c))
     \<and> (\<exists>v. field_values VI_field VI_field4 es = [v] \<and> de_u64 F v = Inr (vi_expires_at c))"
proof -
  have "VI_visit_map F es = Inr c \<longleftrightarrow> map_loop (VI_map_body F) es (None, None, None, None, None) = Inr
      (Some (vi_service_name c), Some (vi_valid_time c), Some (vi_expected_verify_scheme c), Some (vi_public_key_der c), Some (vi_expires_at c))"
    by (cases c) (auto simp: VI_visit_map_def res_simps)
  then show ?thesis
    by (simp add: VI_map_loop_iff slot_rel_None_Some)
qed

lemma VI_visit_seq_ok:
  assumes "de_string F v0 = Inr (vi_service_name c)"
    and "de_u32 F v1 = Inr (vi_valid_time c)"
    and "de_u16 F v2 = Inr (vi_expected_verify_scheme c)"
    and "de_string F v3 = Inr (vi_public_key_der c)"
    and "de_u64 F v4 = Inr (vi_expires_at c)"
  shows "VI_visit_seq F ([Inr v0, Inr v1, Inr v2, Inr v3, Inr v4] @ rest) = Inr c"
  using assms by (cases c) (simp add: VI_visit_seq_def)

lemma serialize_VerificationInfo_build:
  assumes "serialize_VerificationInfo S c = Inr v"
  obtains v0 v1 v2 v3 v4 where "ser_string S (vi_service_name c) = Inr v0"
    and "ser_u32 S (vi_valid_time c) = Inr v1"
    and "ser_u16 S (vi_expected_verify_scheme c) = Inr v2"
    and "ser_string S (vi_public_key_der c) = Inr v3"
    and "ser_u64 S (vi_expires_at c) = Inr v4"
    and "build_struct S ''VerificationInfo'' [(''service_name'', v0), (''valid_time'', v1), (''expected_verify_scheme'', v2), (''public_key_der'', v3), (''expires_at'', v4)] = Inr v"
  using assms that
  by (auto simp: serialize_VerificationInfo_def build_struct_def put_field_def res_simps
    eval_nat_numeral)

subsection \<open>Round trips\<close>

context serde_format
begin

lemma back_DelegatedCredential:
  assumes "serialize_DelegatedCredential S c = Inr v"
  shows "deserialize_DelegatedCredential F v = Inr c"
proof -
  from assms obtain v0 v1 v2 v3 v4 where s: "ser_u32 S (dc_valid_time c) = Inr v0"
      "ser_u16 S (dc_expected_verify_scheme c) = Inr v1"
      "ser_string S (dc_public_key_der c) = Inr v2"
      "ser_u16 S (dc_credential_scheme c) = Inr v3"
      "ser_string S (dc_signature c) = Inr v4"
    and b: "build_struct S ''DelegatedCredential''
      [(''valid_time'', v0), (''expected_verify_scheme'', v1), (''public_key_der'', v2), (''credential_scheme'', v3), (''signature'', v4)] = Inr v"
    by (rule serialize_DelegatedCredential_build)
  note d = u32_back [OF s(1)] u16_back [OF s(2)] string_back [OF s(3)] u16_back [OF s(4)] string_back [OF s(5)]
  show ?thesis
    unfolding deserialize_DelegatedCredential_def
  proof (rule struct_back [OF b])
    show "DC_FIELDS = map fst [(''valid_time'', v0), (''expected_verify_scheme'', v1), (''public_key_der'', v2), (''credential_scheme'', v3), (''signature'', v4)]"
      by (simp add: DC_FIELDS_def)
  next
    show "DC_visit_seq F (map (\<lambda>(k, x). Inr x) [(''valid_time'', v0), (''expected_verify_scheme'', v1), (''public_key_der'', v2), (''credential_scheme'', v3), (''signature'', v4)]) = Inr c"
      using DC_visit_seq_ok [OF d, of "[]"] by simp
  next
    show "DC_visit_map F (map (\<lambda>(k, x). Inr (IdStr k, x)) [(''valid_time'', v0), (''expected_verify_scheme'', v1), (''public_key_der'', v2), (''credential_scheme'', v3), (''signature'', v4)]) = Inr c"
      unfolding DC_visit_map_iff using d by simp
  qed
qed

lemma back_ServiceCredential:
  assumes "serialize_ServiceCredential S c = Inr v"
  shows "deserialize_ServiceCredential F v = Inr c"
proof -
  from assms obtain v0 v1 v2 v3 v4 v5 v6 where s: "ser_string S (sc_service_name c) = Inr v0"
      "serialize_DelegatedCredential S (sc_credential c) = Inr v1"
      "ser_string S (sc_private_key_pem c) = Inr v2"
      "ser_string S (sc_public_key_der c) = Inr v3"
      "ser_u64 S (sc_created_at c) = Inr v4"
      "ser_u64 S (sc_expires_at c) = Inr v5"
      "ser_string S (sc_credential_pem c) = Inr v6"
    and b: "build_struct S ''ServiceCredential''
      [(''service_name'', v0), (''credential'', v1), (''private_key_pem'', v2), (''public_key_der'', v3), (''created_at'', v4), (''expires_at'', v5), (''credential_pem'', v6)] = Inr v"
    by (rule serialize_ServiceCredential_build)
  note d = string_back [OF s(1)] back_DelegatedCredential [OF s(2)] string_back [OF s(3)] string_back [OF s(4)] u64_back [OF s(5)] u64_back [OF s(6)] string_back [OF s(7)]
  show ?thesis
    unfolding deserialize_ServiceCredential_def
  proof (rule struct_back [OF b])
    show "SC_FIELDS = map fst [(''service_name'', v0), (''credential'', v1), (''private_key_pem'', v2), (''public_key_der'', v3), (''created_at'', v4), (''expires_at'', v5), (''credential_pem'', v6)]"
      by (simp add: SC_FIELDS_def)
  next
    show "SC_visit_seq F (map (\<lambda>(k, x). Inr x) [(''service_name'', v0), (''credential'', v1), (''private_key_pem'', v2), (''public_key_der'', v3), (''created_at'', v4), (''expires_at'', v5), (''credential_pem'', v6)]) = Inr c"
      using SC_visit_seq_ok [OF d, of "[]"] by simp
  next
    show "SC_visit_map F (map (\<lambda>(k, x). Inr (IdStr k, x)) [(''service_name'', v0), (''credential'', v1), (''private_key_pem'', v2), (''public_key_der'', v3), (''created_at'', v4), (''expires_at'', v5), (''credential_pem'', v6)]) = Inr c"
      unfolding SC_visit_map_iff using d by simp
  qed
qed

lemma back_DelegatedCredentialData:
  assumes "serialize_DelegatedCredentialData S c = Inr v"
  shows "deserialize_DelegatedCredentialData F v = Inr c"
proof -
  from assms obtain v0 where s: "serialize_ServiceCredential S (dcd_inner c) = Inr v0"
    and b: "build_struct S ''DelegatedCredentialData''
      [(''inner'', v0)] = Inr v"
    by (rule serialize_DelegatedCredentialData_build)
  note d = back_ServiceCredential [OF s]
  show ?thesis
    unfolding deserialize_DelegatedCredentialData_def
  proof (rule struct_back [OF b])
    show "DCD_FIELDS = map fst [(''inner'', v0)]"
      by (simp add: DCD_FIELDS_def)
  next
    show "DCD_visit_seq F (map (\<lambda>(k, x). Inr x) [(''inner'', v0)]) = Inr c"
      using DCD_visit_seq_ok [OF d, of "[]"] by simp
  next
    show "DCD_visit_map F (map (\<lambda>(k, x). Inr (IdStr k, x)) [(''inner'', v0)]) = Inr c"
      unfolding DCD_visit_map_iff using d by simp
  qed
qed

lemma back_VerificationInfo:
  assumes "serialize_VerificationInfo S c = Inr v"
  shows "deserialize_VerificationInfo F v = Inr c"
proof -
  from assms obtain v0 v1 v2 v3 v4 where s: "ser_string S (vi_service_name c) = Inr v0"
      "ser_u32 S (vi_valid_time c) = Inr v1"
      "ser_u16 S (vi_expected_verify_scheme c) = Inr v2"
      "ser_string S (vi_public_key_der c) = Inr v3"
      "ser_u64 S (vi_expires_at c) = Inr v4"
    and b: "build_struct S ''VerificationInfo''
      [(''service_name'', v0), (''valid_time'', v1), (''expected_verify_scheme'', v2), (''public_key_der'', v3), (''expires_at'', v4)] = Inr v"
    by (rule serialize_VerificationInfo_build)
  note d = string_back [OF s(1)] u32_back [OF s(2)] u16_back [OF s(3)] string_back [OF s(4)] u64_back [OF s(5)]
  show ?thesis
    unfolding deserialize_VerificationInfo_def
  proof (rule struct_back [OF b])
    show "VI_FIELDS = map fst [(''service_name'', v0), (''valid_time'', v1), (''expected_verify_scheme'', v2), (''public_key_der'', v3), (''expires_at'', v4)]"
      by (simp add: VI_FIELDS_def)
  next
    show "VI_visit_seq F (map (\<lambda>(k, x). Inr x) [(''service_name'', v0), (''valid_time'', v1), (''expected_verify_scheme'', v2), (''public_key_der'', v3), (''expires_at'', v4)]) = Inr c"
      using VI_visit_seq_ok [OF d, of "[]"] by simp
  next
    show "VI_visit_map F (map (\<lambda>(k, x). Inr (IdStr k, x)) [(''service_name'', v0), (''valid_time'', v1), (''expected_verify_scheme'', v2), (''public_key_der'', v3), (''expires_at'', v4)]) = Inr c"
      unfolding VI_visit_map_iff using d by simp
  qed
qed

end

section \<open>A concrete instance\<close>

definition sample_credential :: ServiceCredential where
  "sample_credential =
     \<lparr>sc_service_name = ''svc'',
      sc_credential = \<lparr>dc_valid_time = 3600, dc_expected_verify_scheme = 0x0403,
        dc_public_key_der = ''3059'', dc_credential_scheme = 0x0403, dc_signature = ''3045''\<rparr>,
      sc_private_key_pem = ''key'', sc_public_key_der = ''3059'',
      sc_created_at = 1000, sc_expires_at = 4600, sc_credential_pem = ''pem''\<rparr>"

section \<open>Properties\<close>

text \<open>C26. A service credential survives a round trip through any format that gives back what it was
  given, whether the format presents structs as maps by name or as sequences: deserializing
  what was serialized yields the same credential.\<close>

theorem service_credential_round_trip:
  assumes "serde_format S F" and "serialize_ServiceCredential S c = Inr v"
  shows "deserialize_ServiceCredential F v = Inr c"
  using assms(1) assms(2) by (rule serde_format.back_ServiceCredential)

theorem service_credential_round_trip_witness:
  "\<exists>v. serialize_ServiceCredential array_ser sample_credential = Inr v
     \<and> deserialize_ServiceCredential tree_de v = Inr sample_credential"
proof -
  obtain v where v: "serialize_ServiceCredential array_ser sample_credential = Inr v"
    by (simp add: serialize_ServiceCredential_def serialize_DelegatedCredential_def array_ser_def
        object_ser_def put_field_def)
  with service_credential_round_trip [OF array_format.serde_format_axioms v] show ?thesis by blast
qed

text \<open>The same for the credential data that \<open>credentials.rs\<close> writes to disk: the struct with the
  single field \<open>inner\<close> reads back as what was written.\<close>

theorem credential_data_round_trip:
  assumes "serde_format S F" and "serialize_DelegatedCredentialData S d = Inr v"
  shows "deserialize_DelegatedCredentialData F v = Inr d"
  using assms(1) assms(2) by (rule serde_format.back_DelegatedCredentialData)

theorem credential_data_round_trip_witness:
  "\<exists>v. serialize_DelegatedCredentialData object_ser \<lparr>dcd_inner = sample_credential\<rparr> = Inr v
     \<and> deserialize_DelegatedCredentialData tree_de v = Inr \<lparr>dcd_inner = sample_credential\<rparr>"
proof -
  obtain v where v: "serialize_DelegatedCredentialData object_ser \<lparr>dcd_inner = sample_credential\<rparr> = Inr v"
    by (simp add: serialize_DelegatedCredentialData_def serialize_ServiceCredential_def
        serialize_DelegatedCredential_def object_ser_def put_field_def)
  with credential_data_round_trip [OF object_format.serde_format_axioms v] show ?thesis by blast
qed

text \<open>The same for the verification info that clients receive.\<close>

theorem verification_info_round_trip:
  assumes "serde_format S F" and "serialize_VerificationInfo S i = Inr v"
  shows "deserialize_VerificationInfo F v = Inr i"
  using assms(1) assms(2) by (rule serde_format.back_VerificationInfo)

theorem verification_info_round_trip_witness:
  "\<exists>v. serialize_VerificationInfo object_ser
       \<lparr>vi_service_name = ''svc'', vi_valid_time = 3600, vi_expected_verify_scheme = 0x0403,
        vi_public_key_der = ''3059'', vi_expires_at = 4600\<rparr> = Inr v
     \<and> deserialize_VerificationInfo tree_de v = Inr
       \<lparr>vi_service_name = ''svc'', vi_valid_time = 3600, vi_expected_verify_scheme = 0x0403,
        vi_public_key_der = ''3059'', vi_expires_at = 4600\<rparr>"
proof -
  let ?i = "\<lparr>vi_service_name = ''svc'', vi_valid_time = 3600, vi_expected_verify_scheme = 0x0403,
    vi_public_key_der = ''3059'', vi_expires_at = 4600\<rparr>"
  obtain v where v: "serialize_VerificationInfo object_ser ?i = Inr v"
    by (simp add: serialize_VerificationInfo_def object_ser_def put_field_def)
  with verification_info_round_trip [OF object_format.serde_format_axioms v] show ?thesis by blast
qed

text \<open>What the map visitor of a service credential accepts: a stream without errors of its own,
  in which each of the seven fields occurs exactly once with a value that decodes, and every other
  key has a value that can be skipped. A missing or a repeated field is refused.\<close>

theorem service_credential_map_iff:
  "SC_visit_map F es = Inr c \<longleftrightarrow>
     clean_stream F SC_field SC_ignore es
     \<and> (\<exists>v. field_values SC_field SC_field0 es = [v] \<and> de_string F v = Inr (sc_service_name c))
     \<and> (\<exists>v. field_values SC_field SC_field1 es = [v]
          \<and> deserialize_DelegatedCredential F v = Inr (sc_credential c))
     \<and> (\<exists>v. field_values SC_field SC_field2 es = [v] \<and> de_string F v = Inr (sc_private_key_pem c))
     \<and> (\<exists>v. field_values SC_field SC_field3 es = [v] \<and> de_string F v = Inr (sc_public_key_der c))
     \<and> (\<exists>v. field_values SC_field SC_field4 es = [v] \<and> de_u64 F v = Inr (sc_created_at c))
     \<and> (\<exists>v. field_values SC_field SC_field5 es = [v] \<and> de_u64 F v = Inr (sc_expires_at c))
     \<and> (\<exists>v. field_values SC_field SC_field6 es = [v] \<and> de_string F v = Inr (sc_credential_pem c))"
  by (rule SC_visit_map_iff)

text \<open>C27. The order of the entries of a map decides neither whether nor as what it is accepted: two streams with the
  same entries are accepted with the same verification info, or both refused. (Which error a refused one gives may
  depend on the order.)\<close>

theorem verification_info_order_irrelevant:
  assumes "mset es = mset es'"
  shows "VI_visit_map F es = Inr i \<longleftrightarrow> VI_visit_map F es' = Inr i"
proof -
  have one: "(field_values VI_field f es = [v]) = (field_values VI_field f es' = [v])" for f v
    using field_values_mset [OF assms, of VI_field f] by (metis mset_single_iff_right)
  show ?thesis
    unfolding VI_visit_map_iff one clean_stream_mset [OF assms] by simp
qed

theorem verification_info_order_irrelevant_witness:
  "VI_visit_map tree_de
      [Inr (IdStr ''expires_at'', TNum 9), Inr (IdU64 0, TStr ''s''), Inr (IdStr ''valid_time'', TNum 1),
       Inr (IdStr ''public_key_der'', TStr ''p''), Inr (IdStr ''expected_verify_scheme'', TNum 2)] =
     Inr \<lparr>vi_service_name = ''s'', vi_valid_time = 1, vi_expected_verify_scheme = 2,
          vi_public_key_der = ''p'', vi_expires_at = 9\<rparr>"
proof -
  let ?es = "[Inr (IdU64 0, TStr ''s''), Inr (IdStr ''valid_time'', TNum 1),
    Inr (IdStr ''expected_verify_scheme'', TNum 2), Inr (IdStr ''public_key_der'', TStr ''p''),
    Inr (IdStr ''expires_at'', TNum 9)] :: (string + ident \<times> tree) list"
  have "VI_visit_map tree_de ?es =
     Inr \<lparr>vi_service_name = ''s'', vi_valid_time = 1, vi_expected_verify_scheme = 2,
          vi_public_key_der = ''p'', vi_expires_at = 9\<rparr>"
    by (simp add: VI_visit_map_iff VI_visit_u64_def tree_de_def tree_num_def)
  then show ?thesis
    by (subst verification_info_order_irrelevant [where es' = ?es]) simp_all
qed

end
