(* ===== verification/Fizz_Examples.thy ===== *)
theory Fizz_Examples
  imports Fizz_Tls Fizz_Serde_Structs
begin

text \<open>
  The programs that show the library: \<open>src/examples/generate_credential.rs\<close>, which makes, checks and
  prints a credential, and the pair under \<open>src/demo/fizz-rs/src\<close>, a client that sends one number and one
  text and a server that prints them. Output is the list of lines printed; a panic of \<open>unwrap\<close> is
  \<open>Throws\<close>. Text is bytes, so \<open>chars().take(200)\<close> is \<open>take 200\<close> for the ASCII of a PEM file.
\<close>

section \<open>Printing\<close>

definition nl :: string where "nl = [CHR 0x0A]"

definition check_mark :: string where "check_mark = [CHR 0xE2, CHR 0x9C, CHR 0x93]"

definition cross_mark :: string where "cross_mark = [CHR 0xE2, CHR 0x9C, CHR 0x97]"

definition show_bool :: "bool \<Rightarrow> string" where
  "show_bool b = (if b then ''true'' else ''false'')"

text \<open>\<open>{:?}\<close> of a vector of numbers.\<close>

fun show_items :: "string list \<Rightarrow> string" where
  "show_items [] = []"
| "show_items [x] = x"
| "show_items (x # y # xs) = x @ '', '' @ show_items (y # xs)"

definition debug_vec :: "u16 list \<Rightarrow> string" where
  "debug_vec xs = ''['' @ show_items (map (\<lambda>x. dec_of_nat (unat x)) xs) @ '']''"

definition replace_newlines :: "string \<Rightarrow> string" where
  "replace_newlines s = concat (map (\<lambda>c. if c = CHR 0x0A then [CHR 0x0A] @ ''   '' else [c]) s)"

section \<open>Generating a credential\<close>

text \<open>
  The part after the credential is there: \<open>now\<close> is the second at which \<open>is_expired\<close> looks at the clock,
  which panics before the epoch.
\<close>

definition example_report ::
  "('x, 'k, 't, 's, 'p) dc_crypto \<Rightarrow> int \<Rightarrow> ('s, 'k) CredentialGenerator \<Rightarrow> DelegatedCredentialData
     \<Rightarrow> string list \<times> (string + unit) call" where
  "example_report K now generator credential =
     (let made = [''   '' @ check_mark @ '' Credential generated successfully'',
                  ''   Service name: '' @ DelegatedCredentialData_service_name credential,
                  ''   Created at: '' @ dec_of_nat (unat (DelegatedCredentialData_created_at credential)),
                  ''   Expires at: '' @ dec_of_nat (unat (DelegatedCredentialData_expires_at credential))]
      in case is_expired now credential of
           None \<Rightarrow> (made, Throws ''SystemTimeError'')
         | Some expired \<Rightarrow>
             (let out = made @ [''   Is expired: '' @ show_bool expired,
                                nl @ ''4. Verifying delegated credential...'']
              in case CredentialGenerator_verify K generator credential of
                   Inl e \<Rightarrow> (out, Returns (Inl (error_display e)))
                 | Inr False \<Rightarrow>
                     (out @ [''   '' @ cross_mark @ '' Credential verification FAILED''],
                      Returns (Inl ''Credential verification failed''))
                 | Inr True \<Rightarrow>
                     (let pem = DelegatedCredentialData_to_pem credential;
                          info = DelegatedCredentialData_verification_info credential
                      in (out @
                          [''   '' @ check_mark @ '' Credential verification PASSED'',
                           nl @ ''5. Exporting credential to PEM format...'',
                           ''   '' @ check_mark @ '' Credential exported ('' @ dec_of_nat (length pem) @ '' bytes)'',
                           ''   First 200 chars:'' @ nl @ ''   '' @ replace_newlines (take 200 pem),
                           nl @ ''6. Extracting public verification information...'',
                           ''   Service name: '' @ vi_service_name info,
                           ''   Valid time: '' @ dec_of_nat (unat (vi_valid_time info)) @ '' seconds'',
                           ''   Expected verify scheme: '' @ dec_of_nat (unat (vi_expected_verify_scheme info)),
                           ''   Expires at: '' @ dec_of_nat (unat (vi_expires_at info)),
                           nl @ ''7. Converting verification info to JSON...'',
                           ''   '' @ check_mark @ '' JSON generated:'',
                           ''   '' @ VerificationInfo_to_json info,
                           nl @ ''=== Example completed successfully! ===''],
                          Returns (Inr ())))))"

definition example_main ::
  "('x, 'k, 't, 's, 'p) dc_crypto \<Rightarrow> clock \<Rightarrow> int \<Rightarrow> string list \<times> (string + unit) call" where
  "example_main K clk now =
     (let intro = [''=== Delegated Credential Generation Example ==='' @ nl,
                   ''1. Loading parent certificate...'']
      in case Certificate_load_from_files (crypto.truncate K) ''fizz.crt'' ''fizz.key'' of
           Inl e \<Rightarrow> (intro, Returns (Inl (error_display e)))
         | Inr cert \<Rightarrow>
             (let out = intro @
                    [''   '' @ check_mark @ '' Certificate loaded successfully'',
                     ''   Signature schemes: '' @ debug_vec (Certificate_signature_schemes cert),
                     nl @ ''2. Creating credential generator...'']
              in case CredentialGenerator_new K cert of
                   Inl e \<Rightarrow>
                     (out @ [''   '' @ cross_mark @ '' Failed to create generator: '' @ error_display e,
                             ''   Note: The certificate must have delegated credential extensions''],
                      Returns (Inr ()))
                 | Inr generator \<Rightarrow>
                     (let out2 = out @ [''   '' @ check_mark @ '' Generator created successfully'',
                                        nl @ ''3. Generating delegated credential...'']
                      in case CredentialGenerator_generate K clk generator ''example-api-service''
                                (24 * 3600) of
                           Inl e \<Rightarrow> (out2, Returns (Inl (error_display e)))
                         | Inr credential \<Rightarrow>
                             (case example_report K now generator credential of
                                (report, r) \<Rightarrow> (out2 @ report, r)))))"

section \<open>The demo client\<close>

text \<open>
  \<open>AsyncWriteExt::write_all\<close>: it polls until everything is written; a write of nothing is an error,
  and a pending write waits.
\<close>

function write_all_client ::
  "ClientConnection \<Rightarrow> u8 list \<Rightarrow> ClientConnection \<times> (IoErr + unit) call" where
  "write_all_client c bs =
     (if bs = [] then (c, Returns (Inr ()))
      else
        (case client_poll_write c bs of
           (c', Pending) \<Rightarrow> (c', Blocks)
         | (c', Ready (Inl e)) \<Rightarrow> (c', Returns (Inl e))
         | (c', Ready (Inr n)) \<Rightarrow>
             if n = 0 then (c', Returns (Inl (IoErr WriteZero ''write zero'')))
             else write_all_client c' (drop n bs)))"
  by pat_completeness auto

termination
  by (relation "measure (\<lambda>(c, bs). length bs)") auto

declare write_all_client.simps [simp del]

definition i32_be :: "32 word \<Rightarrow> u8 list" where
  "i32_be w = [ucast (drop_bit 24 w), ucast (drop_bit 16 w), ucast (drop_bit 8 w), ucast w]"

definition demo_text :: string where
  "demo_text = ''Text sent via delegated TLS!''"

definition as_bytes :: "string \<Rightarrow> u8 list" where
  "as_bytes s = map (\<lambda>c. of_nat (of_char c)) s"

text \<open>What the client does with its connection: the lines it prints, the connection and the end.\<close>

definition demo_send ::
  "(tr_call list \<Rightarrow> bool) \<Rightarrow> ClientConnection \<Rightarrow> string list \<times> ClientConnection \<times> unit call" where
  "demo_send good c =
     (case write_all_client c (i32_be 25) of
        (c1, Returns (Inr _)) \<Rightarrow>
          (case write_all_client c1 (as_bytes demo_text) of
             (c2, Returns (Inr _)) \<Rightarrow>
               (case client_poll_flush c2 of
                  Ready (Inr _) \<Rightarrow>
                    (case client_poll_shutdown good c2 of
                       (c3, Returns (Ready (Inr _))) \<Rightarrow> ([''Sending'', ''Sent!''], c3, Returns ())
                     | (c3, Returns (Ready (Inl e))) \<Rightarrow> ([''Sending'', ''Sent!''], c3, Throws (io_text e))
                     | (c3, Throws e) \<Rightarrow> ([''Sending'', ''Sent!''], c3, Throws e)
                     | (c3, _) \<Rightarrow> ([''Sending'', ''Sent!''], c3, Blocks))
                | Ready (Inl e) \<Rightarrow> ([''Sending''], c2, Throws (io_text e))
                | Pending \<Rightarrow> ([''Sending''], c2, Blocks))
           | (c2, Returns (Inl e)) \<Rightarrow> ([''Sending''], c2, Throws (io_text e))
           | (c2, Throws e) \<Rightarrow> ([''Sending''], c2, Throws e)
           | (c2, Blocks) \<Rightarrow> ([''Sending''], c2, Blocks))
      | (c1, Returns (Inl e)) \<Rightarrow> ([''Sending''], c1, Throws (io_text e))
      | (c1, Throws e) \<Rightarrow> ([''Sending''], c1, Throws e)
      | (c1, Blocks) \<Rightarrow> ([''Sending''], c1, Blocks))"

definition demo_client_main ::
  "('x, 'k, 't, 's, 'p, 'd) tls_crypto \<Rightarrow> ('v, string) de_format \<Rightarrow> 'x tls_env \<Rightarrow> slot_store
     \<Rightarrow> (tr_call list \<Rightarrow> bool) \<Rightarrow> string + 'v \<Rightarrow> string + unit
     \<Rightarrow> string list \<times> ClientConnection option \<times> unit call" where
  "demo_client_main K F env h good file tcp =
     (case and_then file (deserialize_VerificationInfo F) of
        Inl e \<Rightarrow> ([''Hello, world!''], None, Throws e)
      | Inr info \<Rightarrow>
          (case ClientTlsContext_new info ''../fizz-sidecar/fizz.crt'' of
             Inl e \<Rightarrow> ([''Hello, world!''], None, Throws (error_display e))
           | Inr tls \<Rightarrow>
               (case tcp of
                  Inl e \<Rightarrow> ([''Hello, world!''], None, Throws e)
                | Inr _ \<Rightarrow>
                    (case to_value (connect K env h tls ''localhost'') of
                       Blocks \<Rightarrow> ([''Hello, world!''], None, Blocks)
                     | Throws e \<Rightarrow> ([''Hello, world!''], None, Throws e)
                     | Returns (Inl e) \<Rightarrow> ([''Hello, world!''], None, Throws (error_display e))
                     | Returns (Inr conn) \<Rightarrow>
                         (case demo_send good conn of
                            (out, c, r) \<Rightarrow> (''Hello, world!'' # out, Some c, r))))))"

section \<open>The demo server\<close>

definition show_i32 :: "32 word \<Rightarrow> string" where
  "show_i32 w = (if sint w < 0 then ''-'' else []) @ dec_of_nat (nat \<bar>sint w\<bar>)"

definition i32_of_be :: "u8 list \<Rightarrow> 32 word" where
  "i32_of_be bs = of_nat (foldl (\<lambda>n b. 256 * n + unat b) 0 bs)"

text \<open>
  What the server prints for the bytes its connection delivers before the end of the stream;
  \<open>utf8\<close> is the check of \<open>read_to_string\<close>.
\<close>

definition demo_receive :: "(u8 list \<Rightarrow> bool) \<Rightarrow> u8 list \<Rightarrow> string list \<times> unit call" where
  "demo_receive utf8 bs =
     (if length bs < 4 then ([''Accepted!''], Throws ''early eof'')
      else
        (let read = [''Accepted!'', ''Read: '' @ show_i32 (i32_of_be (take 4 bs))]
         in if utf8 (drop 4 bs)
            then (read @ [''Received: '' @ map (\<lambda>b. char_of (unat b)) (drop 4 bs)], Returns ())
            else (read, Throws ''stream did not contain valid UTF-8'')))"

text \<open>\<open>file\<close> is the credential file after the derived parser of the demo's own struct: scheme and PEM.\<close>

definition demo_server_main ::
  "('x, 'k, 't, 's, 'p, 'd) tls_crypto \<Rightarrow> (u8 list \<Rightarrow> bool) \<Rightarrow> string + u16 \<times> string \<Rightarrow> string + unit
     \<Rightarrow> IoErr + 'x tls_env \<Rightarrow> slot_store \<Rightarrow> u8 list \<Rightarrow> string list \<times> unit call" where
  "demo_server_main K utf8 file bind listener h bs =
     (case CertificatePublic_load_from_file (crypto.truncate K) ''../fizz-sidecar/fizz.crt'' of
        Inl e \<Rightarrow> ([''Hello, world!''], Throws (error_display e))
      | Inr cert \<Rightarrow>
          (case file of
             Inl e \<Rightarrow> ([''Hello, world!''], Throws e)
           | Inr (signatureScheme, credentialPEM) \<Rightarrow>
               (case and_then (DelegatedCredentialData_from_pem credentialPEM)
                       (ServerTlsContext_new K cert) of
                  Inl e \<Rightarrow> ([''Hello, world!''], Throws (error_display e))
                | Inr tls \<Rightarrow>
                    (case bind of
                       Inl e \<Rightarrow> ([''Hello, world!''], Throws e)
                     | Inr _ \<Rightarrow>
                         (case to_value (accept K listener h tls) of
                            Blocks \<Rightarrow> ([''Hello, world!'', ''Listening!''], Blocks)
                          | Throws e \<Rightarrow> ([''Hello, world!'', ''Listening!''], Throws e)
                          | Returns (Inl e) \<Rightarrow>
                              ([''Hello, world!'', ''Listening!''], Throws (error_display e))
                          | Returns (Inr conn) \<Rightarrow>
                              (case demo_receive utf8 bs of
                                 (out, r) \<Rightarrow> ([''Hello, world!'', ''Listening!''] @ out, r)))))))"

section \<open>Lemmas\<close>

lemma length_as_bytes [simp]: "length (as_bytes s) = length s"
  by (simp add: as_bytes_def)

lemma chars_of_as_bytes: "map (\<lambda>b. char_of (unat b)) (as_bytes s) = s"
  by (simp add: as_bytes_def comp_def unat_of_nat)

lemma write_all_client_ok:
  assumes "write_ready (cl_inner c)" "\<not> writeError (cl_inner c)" "bs \<noteq> []"
  shows "write_all_client c bs =
    (c\<lparr>cl_inner := (cl_inner c)\<lparr>evb_tasks := evb_tasks (cl_inner c) @ [bs]\<rparr>\<rparr>, Returns (Inr ()))"
  using assms
  by (simp add: write_all_client.simps [of c bs] client_poll_write_def server_connection_write_def
      write_ready_def write_all_client.simps [of _ "[]"])

lemma write_ready_queued [simp]:
  "write_ready (conn\<lparr>evb_tasks := ts\<rparr>) = write_ready conn"
  by (simp add: write_ready_def)

text \<open>Sending over an open connection, then closing.\<close>

lemma demo_send_ok:
  assumes "write_ready (cl_inner c)" "\<not> writeError (cl_inner c)" "evb_tasks (cl_inner c) = []"
    and "transport (cl_inner c) = Some calls" "good calls" "evb_thread (cl_inner c)"
  shows "\<exists>c'. demo_send good c = ([''Sending'', ''Sent!''], c', Returns ())
    \<and> transport (cl_inner c') =
        Some (calls @ [TrWriteChain (i32_be 25), TrWriteChain (as_bytes demo_text), TrClose])"
proof -
  have ne: "i32_be 25 \<noteq> []" "as_bytes demo_text \<noteq> []"
    by (simp_all add: i32_be_def as_bytes_def demo_text_def)
  show ?thesis
    using assms ne
    by (simp add: demo_send_def write_all_client_ok client_poll_flush_def client_poll_shutdown_def
        ClientConnection_close_def server_connection_close_def run_tasks_def tr_do_def)
qed

lemma demo_receive_sent:
  "utf8 (as_bytes demo_text) \<Longrightarrow>
    demo_receive utf8 (concat [i32_be 25, as_bytes demo_text]) =
      ([''Accepted!'', ''Read: 25'', ''Received: Text sent via delegated TLS!''], Returns ())"
proof -
  have "i32_of_be (i32_be 25) = 25" by (simp add: i32_of_be_def i32_be_def)
  moreover have "show_i32 25 = ''25''"
    by code_simp
  ultimately show "utf8 (as_bytes demo_text) \<Longrightarrow> ?thesis"
    using chars_of_as_bytes [of demo_text]
    by (simp add: demo_receive_def i32_be_def demo_text_def)
qed

text \<open>The whole client on a handshake that its context accepts.\<close>

lemma demo_client_sends:
  assumes "and_then file (deserialize_VerificationInfo F) = Inr info"
    and "ClientTlsContext_new info ''../fizz-sidecar/fizz.crt'' = Inr tls" "tcp = Inr ()"
    and "into_std env = Inr raw" "join_error env = None"
    and "client_connect K (ctc_inner tls) raw ''localhost'' = (Inr conn, owned)"
    and "hs_event env = Some (HandshakeSuccess cert)" "context_accepts K (ctc_inner tls) cert"
    and "good [TrConnect (Some ''localhost''), TrSetReadCB]" "utf8 (as_bytes demo_text)"
  shows "\<exists>c sent. demo_client_main K F env h good file tcp =
        ([''Hello, world!'', ''Sending'', ''Sent!''], Some c, Returns ())
    \<and> transport (cl_inner c) = Some ([TrConnect (Some ''localhost''), TrSetReadCB] @ map TrWriteChain sent @ [TrClose])
    \<and> demo_receive utf8 (concat sent) =
        ([''Accepted!'', ''Read: 25'', ''Received: Text sent via delegated TLS!''], Returns ())"
proof -
  define c0 where "c0 = \<lparr>cl_inner = set_client_read_waker (client_established (ctc_inner tls) raw ''localhost'')
      \<lparr>rw_inner = slot_address env\<rparr>, cl_read_waker = \<lparr>rw_inner = slot_address env\<rparr>\<rparr>"
  have up: "write_ready (cl_inner c0)" "\<not> writeError (cl_inner c0)" "evb_tasks (cl_inner c0) = []"
      "transport (cl_inner c0) = Some [TrConnect (Some ''localhost''), TrSetReadCB]"
      "evb_thread (cl_inner c0)"
    by (simp_all add: c0_def write_ready_def set_server_read_waker_def client_established_def
        client_started_def tr_do_def sni_of_def)
  from demo_send_ok [where good = good, OF up(1-4) assms(9) up(5)] obtain c' where
    send: "demo_send good c0 = ([''Sending'', ''Sent!''], c', Returns ())"
      "transport (cl_inner c') = Some ([TrConnect (Some ''localhost''), TrSetReadCB] @
         [TrWriteChain (i32_be 25), TrWriteChain (as_bytes demo_text), TrClose])" by blast
  have "demo_client_main K F env h good file tcp =
      ([''Hello, world!'', ''Sending'', ''Sent!''], Some c', Returns ())"
    using assms(1-3) send(1) connect_accepted [OF assms(4-8), of h]
    by (simp add: demo_client_main_def c0_def)
  with send(2) demo_receive_sent [of utf8] assms(10) show ?thesis
    by (intro exI [of _ c'] exI [of _ "[i32_be 25, as_bytes demo_text]"]) simp
qed

section \<open>A concrete instance\<close>

definition demo_info :: VerificationInfo where
  "demo_info =
     \<lparr>vi_service_name = ''svc'', vi_valid_time = 3700, vi_expected_verify_scheme = 0x0403,
      vi_public_key_der = bytes_to_hex_lower [48, 89], vi_expires_at = 4600\<rparr>"

section \<open>Properties\<close>

text \<open>The example ends well on a credential it has made: when the certificate loads, the generator is
  made, the credential is generated and fizz accepts the signatures it makes itself, the program
  verifies the credential, prints the JSON text of its verification info and returns \<open>Ok\<close>.\<close>

theorem example_verifies_its_credential:
  assumes "Certificate_load_from_files (crypto.truncate K) ''fizz.crt'' ''fizz.key'' = Inr cert"
    and "CredentialGenerator_new K cert = Inr g"
    and "CredentialGenerator_generate K clk g ''example-api-service'' (24 * 3600) = Inr d"
    and "\<And>key ps cs cred.
      generateCredential K (parentCert (cg_inner g)) (parentKey (cg_inner g)) key ps cs (24 * 3600) = Inr cred
      \<Longrightarrow> signature_accepted K (parentCert (cg_inner g)) cred"
    and "0 \<le> now"
  shows "snd (example_main K clk now) = Returns (Inr ())
    \<and> ''   '' @ check_mark @ '' Credential verification PASSED'' \<in> set (fst (example_main K clk now))
    \<and> ''   '' @ VerificationInfo_to_json (DelegatedCredentialData_verification_info d)
        \<in> set (fst (example_main K clk now))"
proof -
  have "CredentialGenerator_verify K g d = Inr True"
    by (rule generated_verifies [OF assms(4,3)])
  with assms(1-3,5) show ?thesis
    by (simp add: example_main_def example_report_def is_expired_def Let_def)
qed

theorem example_verifies_its_credential_witness:
  "snd (example_main (sample_library 100) \<lparr>ticks = 1000500, hz = 1000\<rparr> 2000) = Returns (Inr ())"
proof -
  let ?K = "sample_library 100" and ?clk = "\<lparr>ticks = 1000500, hz = 1000\<rparr>"
  obtain cert where c: "Certificate_load_from_files (crypto.truncate ?K) ''fizz.crt'' ''fizz.key'' = Inr cert"
    by (auto simp: Certificate_load_from_files_def load_certificate_from_file_def readFile_def
        load_certificate_from_pem_def pemToCert_def pemToKey_def sample_library_def crypto.defs
        ffi_result_def rethrow_def Let_def)
  moreover obtain g where "CredentialGenerator_new ?K cert = Inr g"
    by (auto simp: CredentialGenerator_new_def new_credential_generator_def sample_library_def
        pemToSelfCert_def ffi_result_def rethrow_def Let_def pemToKey_def pemToCert_def crypto.defs)
  moreover obtain d where "CredentialGenerator_generate ?K ?clk g ''example-api-service'' (24 * 3600) = Inr d"
    by (auto simp: CredentialGenerator_generate_def generate_delegated_credential_def
        sample_library_def generateEcP256Key_def credKeyToPem_def ffi_result_def rethrow_def Let_def)
  moreover have "signature_accepted ?K (parentCert (cg_inner g)) cred"
    if "generateCredential ?K (parentCert (cg_inner g)) (parentKey (cg_inner g)) key ps cs (24 * 3600)
      = Inr cred" for key ps cs cred
    using sample_accepts [OF that] by simp
  ultimately show ?thesis
    using example_verifies_its_credential [of ?K cert g ?clk d 2000] by simp
qed

text \<open>The demo delivers its message: when the info file is read, the authority file loads and the handshake
  ends with a credential the context accepts, the client connects, hands the number and the text to
  the transport in that order before it closes, and a server that receives exactly those bytes
  prints the number and the text.\<close>

theorem demo_message_arrives:
  assumes "and_then file (deserialize_VerificationInfo F) = Inr info"
    and "ClientTlsContext_new info ''../fizz-sidecar/fizz.crt'' = Inr tls" "tcp = Inr ()"
    and "into_std env = Inr raw" "join_error env = None"
    and "client_connect K (ctc_inner tls) raw ''localhost'' = (Inr conn, owned)"
    and "hs_event env = Some (HandshakeSuccess cert)" "context_accepts K (ctc_inner tls) cert"
    and "good [TrConnect (Some ''localhost''), TrSetReadCB]" "utf8 (as_bytes demo_text)"
  shows "\<exists>c sent. demo_client_main K F env h good file tcp =
        ([''Hello, world!'', ''Sending'', ''Sent!''], Some c, Returns ())
    \<and> transport (cl_inner c) = Some ([TrConnect (Some ''localhost''), TrSetReadCB] @ map TrWriteChain sent @ [TrClose])
    \<and> demo_receive utf8 (concat sent) =
        ([''Accepted!'', ''Read: 25'', ''Received: Text sent via delegated TLS!''], Returns ())"
  using assms by (rule demo_client_sends)

theorem demo_message_arrives_witness:
  "\<exists>v c. demo_client_main (sample_tls 100 900) tree_de
      (sample_env (HandshakeSuccess (Some (PeerDelegatedCredential () sample_peer)))) empty_slots
      (\<lambda>_. True) (Inr v) (Inr ()) = ([''Hello, world!'', ''Sending'', ''Sent!''], Some c, Returns ())"
proof -
  let ?env = "sample_env (HandshakeSuccess (Some (PeerDelegatedCredential () sample_peer)))"
  obtain v where v: "serialize_VerificationInfo object_ser demo_info = Inr v"
    by (simp add: serialize_VerificationInfo_def object_ser_def put_field_def demo_info_def)
  have d: "and_then (Inr v) (deserialize_VerificationInfo tree_de) = Inr demo_info"
    using object_format.back_VerificationInfo [OF v] by simp
  obtain tls where t: "ClientTlsContext_new demo_info ''../fizz-sidecar/fizz.crt'' = Inr tls"
    by (simp add: ClientTlsContext_new_def new_client_tls_context_def ffi_result_def)
  then have a: "context_accepts (sample_tls 100 900) (ctc_inner tls)
      (Some (PeerDelegatedCredential () sample_peer))"
    by (auto simp: ClientTlsContext_new_def new_client_tls_context_def ffi_result_def demo_info_def
        context_accepts_def sample_tls_expiry sample_peer_def)
  obtain conn where "client_connect (sample_tls 100 900) (ctc_inner tls) 7 ''localhost'' = (Inr conn, True)"
    by (auto simp: client_connect_iff)
  from demo_message_arrives [OF d t refl sample_env_fields(1,2) this sample_env_fields(3) a, of "\<lambda>_. True"
      "\<lambda>_. True" empty_slots]
  show ?thesis by auto
qed

end
