(* ===== verification/Fizz_Sidecar.thy ===== *)
theory Fizz_Sidecar
  imports Fizz_Examples
begin

text \<open>
  The sidecar of the demo, \<open>src/demo/fizz-sidecar/sidecar\<close>: a C++ program that issues one delegated
  credential and writes one JSON file for the demo server and one for the demo client. OpenSSL and
  fizz are the record \<open>tls_crypto\<close>, together with the calls on elliptic-curve keys that only the
  sidecar makes. nlohmann's documents are trees whose objects are ordered by key, as \<open>std::map\<close>
  orders them; what serde_json sees of a printed document is the parameter of the locale
  \<open>json_reader\<close>. Shown: the files fit the demo programs, and the client accepts the credential
  whatever the time.
\<close>

section \<open>Files and keys\<close>

text \<open>\<open>files.cc\<close>\<close>

definition loadCertificate :: "('x, 'k, 't, 's, 'p, 'd) tls_crypto \<Rightarrow> string \<Rightarrow> string + 'x" where
  "loadCertificate K certPath =
     and_then (ok_or (''Cannot open certificate file: '' @ certPath) (read_path K certPath)) (\<lambda>certPem.
     if \<not> bio_alloc K then Inl ''Failed to create BIO for certificate''
     else ok_or (''Failed to parse certificate from: '' @ certPath) (pem_read_x509 K certPem))"

definition loadPrivateKey :: "('x, 'k, 't, 's, 'p, 'd) tls_crypto \<Rightarrow> string \<Rightarrow> string + 'k" where
  "loadPrivateKey K keyPath =
     and_then (ok_or (''Cannot open private key file: '' @ keyPath) (read_path K keyPath)) (\<lambda>keyPem.
     if \<not> bio_alloc K then Inl ''Failed to create BIO for private key''
     else ok_or (''Failed to parse private key from: '' @ keyPath) (pem_read_key K keyPem))"

text \<open>
  \<open>crypto_utils.cc\<close>: whether the three structures are allocated, the group set, the key generated
  and assigned, and whether the second \<open>i2d_PUBKEY\<close>, after the one that asks for the length,
  succeeds.
\<close>

record 'k ec_calls =
  ec_structures :: bool
  ec_set_group :: bool
  ec_generate :: bool
  ec_assign :: "'k option"
  ec_encode :: bool

definition generateKeyPair :: "'k ec_calls \<Rightarrow> string + 'k" where
  "generateKeyPair E =
     (if \<not> ec_structures E then Inl ''Failed to create key structures''
      else if \<not> ec_set_group E then Inl ''Failed to set EC group''
      else if \<not> ec_generate E then Inl ''Failed to generate EC key''
      else ok_or ''Failed to assign EC key to EVP_PKEY'' (ec_assign E))"

definition publicKeyToDer ::
  "('x, 'k, 't, 's, 'p, 'd) tls_crypto \<Rightarrow> 'k ec_calls \<Rightarrow> 'k \<Rightarrow> string + string" where
  "publicKeyToDer K E pkey =
     and_then (ok_or ''Failed to get DER length'' (i2d_pubkey K pkey)) (\<lambda>derData.
     if \<not> ec_encode E then Inl ''Failed to convert public key to DER''
     else Inr (concat (map (\<lambda>b. hex_setw 2 (unat b)) derData)))"

section \<open>The credential\<close>

text \<open>\<open>credential.cc\<close>\<close>

record ServerCredential =
  svc_signatureScheme :: u16
  svc_credentialPEM :: string

record ClientVerificationInfo =
  cvi_verifyScheme :: u16
  cvi_publicKeyDer :: string
  cvi_validTime :: u32
  cvi_expiresAt :: u64

definition verifyCredential ::
  "('x, 'k, 't, 's, 'p, 'd) tls_crypto \<Rightarrow> 's \<Rightarrow> fizz_credential \<Rightarrow> string + unit" where
  "verifyCredential K parent credential =
     rethrow ''Credential self-verification failed: ''
       (and_then (derEncode K (getX509 K parent)) (\<lambda>certDer.
        and_then (prepareSignatureBuffer K credential certDer) (\<lambda>signatureBuffer.
        and_then (makePeerCert K (getX509 K parent)) (\<lambda>peerCert.
        peerVerify K peerCert (fz_credential_scheme credential) signatureBuffer
          (fz_signature credential)))))"

definition generateDelegatedCredential ::
  "('x, 'k, 't, 's, 'p, 'd) tls_crypto \<Rightarrow> 'k ec_calls \<Rightarrow> 's \<Rightarrow> 'k \<Rightarrow> u32
     \<Rightarrow> string + ServerCredential \<times> ClientVerificationInfo" where
  "generateDelegatedCredential K E parent parent_key valid =
     and_then (generateKeyPair E) (\<lambda>credKey.
     and_then (getKeyType K parent_key) (\<lambda>parentKeyType.
     and_then (getKeyType K credKey) (\<lambda>credKeyType.
     let parentSigSchemes = getSigSchemes K parentKeyType;
         credSigSchemes = getSigSchemes K credKeyType
     in if parentSigSchemes = [] \<or> credSigSchemes = []
        then Inl ''No valid signature schemes available''
        else
     and_then (generateCredential K parent parent_key credKey (hd parentSigSchemes) (hd credSigSchemes)
                 valid) (\<lambda>credential.
     and_then (verifyCredential K parent credential) (\<lambda>_.
     and_then (publicKeyToDer K E credKey) (\<lambda>publicKeyDer.
     and_then (getCredentialExpiresTime K (getX509 K parent) credential) (\<lambda>expiresTimePoint.
     if \<not> bio_alloc K then Inl ''Failed to create BIO''
     else
     and_then (ok_or ''Failed to write private key to BIO'' (pem_write_key K credKey)) (\<lambda>keyPEM.
     and_then (generateDelegatedCredentialPEM K credential keyPEM) (\<lambda>credentialPEM.
     Inr (\<lparr>svc_signatureScheme = hd credSigSchemes, svc_credentialPEM = credentialPEM\<rparr>,
          \<lparr>cvi_verifyScheme = fz_expected_verify_scheme credential,
           cvi_publicKeyDer = publicKeyDer,
           cvi_validTime = fz_valid_time credential,
           cvi_expiresAt = of_nat (ticks expiresTimePoint div hz expiresTimePoint)\<rparr>))))))))))"

section \<open>The program\<close>

text \<open>
  \<open>main.cc\<close>. A file is absent or empty, or holds a document. Opening an \<open>std::ofstream\<close> empties the
  file; a stream that could not be opened takes every output and does nothing. \<open>dump\<close> throws
  on text that is not UTF-8, after the file has been opened. An exception leaves \<open>main\<close>.
\<close>

type_synonym json_files = "string \<Rightarrow> tree option"

definition write_json ::
  "(string \<Rightarrow> bool) \<Rightarrow> (tree \<Rightarrow> string option) \<Rightarrow> string \<Rightarrow> tree \<Rightarrow> json_files \<Rightarrow> json_files \<times> (string + unit)" where
  "write_json opens dump_error path doc fs =
     (let fs1 = (if opens path then fs(path := None) else fs)
      in case dump_error doc of
           Some e \<Rightarrow> (fs1, Inl e)
         | None \<Rightarrow> (if opens path then fs1(path \<mapsto> doc) else fs1, Inr ()))"

definition server_json :: "ServerCredential \<Rightarrow> tree" where
  "server_json c =
     TObj [(''credentialPEM'', TStr (svc_credentialPEM c)),
           (''signatureScheme'', TNum (unat (svc_signatureScheme c)))]"

definition client_json :: "ClientVerificationInfo \<Rightarrow> tree" where
  "client_json i =
     TObj [(''expected_verify_scheme'', TNum (unat (cvi_verifyScheme i))),
           (''expires_at'', TNum (unat (cvi_expiresAt i))),
           (''public_key_der'', TStr (cvi_publicKeyDer i)),
           (''service_name'', TStr []),
           (''valid_time'', TNum (unat (cvi_validTime i)))]"

abbreviation server_file :: string where "server_file \<equiv> ''/tmp/fizz_server.json''"

abbreviation client_file :: string where "client_file \<equiv> ''/tmp/fizz_client.json''"

definition sidecar_main ::
  "('x, 'k, 't, 's, 'p, 'd) tls_crypto \<Rightarrow> 'k ec_calls \<Rightarrow> (string \<Rightarrow> bool) \<Rightarrow> (tree \<Rightarrow> string option)
     \<Rightarrow> json_files \<Rightarrow> json_files \<times> nat call" where
  "sidecar_main K E opens dump_error fs =
     (case and_then (loadCertificate K ''fizz.crt'') (\<lambda>certificate.
           and_then (loadPrivateKey K ''fizz.key'') (\<lambda>key.
           and_then (checkExtensions K certificate) (\<lambda>_.
           and_then (makeSelfCertP256 K key certificate) (\<lambda>parentCertificate.
           and_then (loadPrivateKey K ''fizz.key'') (\<lambda>key2.
           generateDelegatedCredential K E parentCertificate key2 (24 * 7 * 3600)))))) of
        Inl e \<Rightarrow> (fs, Throws e)
      | Inr (serverCredential, clientVerificationInfo) \<Rightarrow>
          (case write_json opens dump_error server_file (server_json serverCredential) fs of
             (fs1, Inl e) \<Rightarrow> (fs1, Throws e)
           | (fs1, Inr _) \<Rightarrow>
               (case write_json opens dump_error client_file (client_json clientVerificationInfo) fs1 of
                  (fs2, Inl e) \<Rightarrow> (fs2, Throws e)
                | (fs2, Inr _) \<Rightarrow> (fs2, Returns 0))))"

section \<open>What the demo server reads\<close>

text \<open>
  The struct of \<open>server.rs\<close> with its derived \<open>Deserialize\<close>: two slots, unknown fields ignored. The
  file path for a reader is the same as the one the sidecar writes.
\<close>

datatype DD_Field = DD_field0 | DD_field1 | DD_ignore

fun DD_field :: "ident \<Rightarrow> DD_Field" where
  "DD_field (IdU64 n) = (if n = 0 then DD_field0 else if n = 1 then DD_field1 else DD_ignore)"
| "DD_field (IdStr s) =
     (if s = ''signatureScheme'' then DD_field0 else if s = ''credentialPEM'' then DD_field1 else DD_ignore)"
| "DD_field (IdBytes b) =
     (if b = map of_char ''signatureScheme'' then DD_field0
      else if b = map of_char ''credentialPEM'' then DD_field1 else DD_ignore)"

fun DD_map_step ::
  "('v, 'e) de_format \<Rightarrow> DD_Field \<Rightarrow> 'v \<Rightarrow> u16 option \<times> string option \<Rightarrow> 'e + u16 option \<times> string option" where
  "DD_map_step F DD_field0 v (s0, s1) = map_ok (\<lambda>s. (s, s1)) (slot_set F ''signatureScheme'' (de_u16 F) v s0)"
| "DD_map_step F DD_field1 v (s0, s1) = map_ok (\<lambda>s. (s0, s)) (slot_set F ''credentialPEM'' (de_string F) v s1)"
| "DD_map_step F DD_ignore v (s0, s1) = map_ok (\<lambda>_. (s0, s1)) (de_ignored F v)"

definition DD_visit_map :: "('v, 'e) de_format \<Rightarrow> ('e + ident \<times> 'v) list \<Rightarrow> 'e + u16 \<times> string" where
  "DD_visit_map F es =
     and_then (map_loop (\<lambda>k. DD_map_step F (DD_field k)) es (None, None)) (\<lambda>(s0, s1).
     and_then (slot_get F ''signatureScheme'' s0) (\<lambda>f0.
     and_then (slot_get F ''credentialPEM'' s1) (\<lambda>f1. Inr (f0, f1))))"

definition DD_visit_seq :: "('v, 'e) de_format \<Rightarrow> ('e + 'v) list \<Rightarrow> 'e + u16 \<times> string" where
  "DD_visit_seq F xs =
     and_then (seq_field F (de_u16 F) 0 ''struct DelegatedCredential with 2 elements'' xs) (\<lambda>(f0, xs).
     and_then (seq_field F (de_string F) 1 ''struct DelegatedCredential with 2 elements'' xs) (\<lambda>(f1, xs).
     Inr (f0, f1)))"

definition deserialize_demo_credential :: "('v, 'e) de_format \<Rightarrow> 'v \<Rightarrow> 'e + u16 \<times> string" where
  "deserialize_demo_credential F v =
     deserialize_struct F ''DelegatedCredential'' [''signatureScheme'', ''credentialPEM'']
       (DD_visit_seq F) (DD_visit_map F) v"

section \<open>A reader of JSON documents\<close>

text \<open>
  What serde_json documents of a JSON text, here the text of the document \<open>t\<close>: numbers that fit and
  strings read as themselves, an object opens as the map of its members in the order of the text.
\<close>

locale json_reader =
  fixes F :: "('v, 'e) de_format" and doc :: "tree \<Rightarrow> 'v"
  assumes u16_doc: "de_u16 F (doc (TNum (unat a))) = Inr (a :: u16)"
    and u32_doc: "de_u32 F (doc (TNum (unat b))) = Inr (b :: u32)"
    and u64_doc: "de_u64 F (doc (TNum (unat c))) = Inr (c :: u64)"
    and string_doc: "de_string F (doc (TStr s)) = Inr s"
    and open_doc: "de_open F name FIELDS (doc (TObj kvs)) = MapAccess (map (\<lambda>(k, x). Inr (IdStr k, doc x)) kvs)"
    and close_doc: "de_close F FIELDS (doc (TObj kvs)) = Inr ()"
begin

lemma client_file_read:
  "deserialize_VerificationInfo F (doc (client_json i)) =
     Inr \<lparr>vi_service_name = [], vi_valid_time = cvi_validTime i,
          vi_expected_verify_scheme = cvi_verifyScheme i, vi_public_key_der = cvi_publicKeyDer i,
          vi_expires_at = cvi_expiresAt i\<rparr>"
  by (simp add: deserialize_VerificationInfo_def deserialize_struct_def client_json_def open_doc close_doc
      VI_visit_map_def VI_map_body_def slot_set_def slot_get_def u16_doc u32_doc u64_doc string_doc)

lemma server_file_read:
  "deserialize_demo_credential F (doc (server_json c)) = Inr (svc_signatureScheme c, svc_credentialPEM c)"
  by (simp add: deserialize_demo_credential_def deserialize_struct_def server_json_def open_doc close_doc
      DD_visit_map_def slot_set_def slot_get_def u16_doc string_doc)

end

interpretation tree_reader: json_reader tree_de "\<lambda>t. t"
  by unfold_locales (simp_all add: tree_de_def tree_num_widths)

section \<open>What the sidecar issues\<close>

lemma publicKeyToDer_Inr:
  "publicKeyToDer K E key = Inr s \<Longrightarrow> \<exists>der. i2d_pubkey K key = Some der \<and> s = bytes_to_hex_lower der"
  using publicKeyToDerHex_Some by (auto simp: publicKeyToDer_def publicKeyToDerHex_def res_simps split: if_splits)

lemma generateDelegatedCredential_InrE:
  assumes "generateDelegatedCredential K E parent parent_key valid = Inr (sc, info)"
  obtains key cred ps tp keyPEM where
    "generateCredential K parent parent_key key ps (svc_signatureScheme sc) valid = Inr cred"
    and "verifyCredential K parent cred = Inr ()"
    and "publicKeyToDer K E key = Inr (cvi_publicKeyDer info)"
    and "getCredentialExpiresTime K (getX509 K parent) cred = Inr tp"
    and "generateDelegatedCredentialPEM K cred keyPEM = Inr (svc_credentialPEM sc)"
    and "cvi_verifyScheme info = fz_expected_verify_scheme cred"
    and "cvi_validTime info = fz_valid_time cred"
    and "cvi_expiresAt info = of_nat (ticks tp div hz tp)"
  using assms that
  by (auto simp: generateDelegatedCredential_def res_simps Let_def split: if_splits)

lemma write_json_ok:
  "write_json opens dump_error path t fs = (fs', Inr ()) \<Longrightarrow> fs' = (if opens path then fs(path \<mapsto> t) else fs)"
  by (auto simp: write_json_def Let_def split: option.splits if_splits)

lemma sidecar_main_ok:
  assumes "sidecar_main K E opens dump_error fs = (fs', Returns n)"
  obtains parent key sc info where
    "generateDelegatedCredential K E parent key 604800 = Inr (sc, info)" and "n = 0"
    and "fs' = (let fs1 = if opens server_file then fs(server_file \<mapsto> server_json sc) else fs
                in if opens client_file then fs1(client_file \<mapsto> client_json info) else fs1)"
  using assms that
  by (auto simp: sidecar_main_def res_simps Let_def split: sum.splits prod.splits dest!: write_json_ok)

text \<open>What the sidecar relies on of fizz: a credential holds the public half of the key it was issued for.\<close>

definition carries_public_half :: "('x, 'k, 't, 's, 'p, 'd) tls_crypto \<Rightarrow> bool" where
  "carries_public_half K \<longleftrightarrow>
     (\<forall>c k key ps cs v cred. generateCredential K c k key ps cs v = Inr cred \<longrightarrow>
        i2d_pubkey K key = Some (fz_public_key cred))"

text \<open>The context a client makes of the file accepts the credential, by construction of the fields.\<close>

lemma sidecar_info_accepted:
  assumes "generateDelegatedCredential K E parent key valid = Inr (sc, info)"
    and "carries_public_half K"
  obtains cred keyPEM where "generateDelegatedCredentialPEM K cred keyPEM = Inr (svc_credentialPEM sc)"
    and "signature_accepted (dc_crypto.truncate K) parent cred"
    and "\<And>ctx. cx_publicKeyDer ctx = cvi_publicKeyDer info \<Longrightarrow> cx_validTime ctx = cvi_validTime info \<Longrightarrow>
      cx_expectedVerifyScheme ctx = cvi_verifyScheme info \<Longrightarrow> cx_expiresAt ctx = cvi_expiresAt info \<Longrightarrow>
      context_accepts K ctx (Some (PeerDelegatedCredential (getX509 K parent) cred))"
  using assms(1)
proof (rule generateDelegatedCredential_InrE)
  fix k cred ps tp keyPEM
  assume gen: "generateCredential K parent key k ps (svc_signatureScheme sc) valid = Inr cred"
    and ver: "verifyCredential K parent cred = Inr ()"
    and der: "publicKeyToDer K E k = Inr (cvi_publicKeyDer info)"
    and tp: "getCredentialExpiresTime K (getX509 K parent) cred = Inr tp"
    and pem: "generateDelegatedCredentialPEM K cred keyPEM = Inr (svc_credentialPEM sc)"
    and rest: "cvi_verifyScheme info = fz_expected_verify_scheme cred"
      "cvi_validTime info = fz_valid_time cred" "cvi_expiresAt info = of_nat (ticks tp div hz tp)"
  have "cvi_publicKeyDer info = bytes_to_hex_lower (fz_public_key cred)"
    using publicKeyToDer_Inr [OF der] assms(2) gen by (auto simp: carries_public_half_def)
  moreover have "signature_accepted (dc_crypto.truncate K) parent cred"
    using ver by (auto simp: verifyCredential_def signature_accepted_def res_simps dc_crypto.defs)
  ultimately show thesis
    using pem rest tp by (intro that [OF pem]) (simp_all add: context_accepts_def)
qed

text \<open>The demo client on a file whose entries its context accepts.\<close>

lemma demo_client_on_file:
  fixes K :: "('x, 'k, 't, 's, 'p, 'd) tls_crypto"
  assumes "json_reader F doc"
    and "\<And>ctx. cx_publicKeyDer ctx = cvi_publicKeyDer info \<Longrightarrow> cx_validTime ctx = cvi_validTime info \<Longrightarrow>
      cx_expectedVerifyScheme ctx = cvi_verifyScheme info \<Longrightarrow> cx_expiresAt ctx = cvi_expiresAt info \<Longrightarrow>
      context_accepts K ctx cert"
    and "x509_store_new K" and "x509_store_load_locations K ''../fizz-sidecar/fizz.crt''"
    and "newSocket K raw = Inr ()" and "into_std env = Inr raw" and "join_error env = None"
    and "hs_event env = Some (HandshakeSuccess cert)" and "good [TrConnect (Some ''localhost''), TrSetReadCB]"
  shows "\<exists>c. demo_client_main K F env h good (Inr (doc (client_json info))) (Inr ()) =
      ([''Hello, world!'', ''Sending'', ''Sent!''], Some c, Returns ())"
proof -
  define vi where "vi = \<lparr>vi_service_name = [], vi_valid_time = cvi_validTime info,
      vi_expected_verify_scheme = cvi_verifyScheme info, vi_public_key_der = cvi_publicKeyDer info,
      vi_expires_at = cvi_expiresAt info\<rparr>"
  have "and_then (Inr (doc (client_json info))) (deserialize_VerificationInfo F) = Inr vi"
    by (simp add: json_reader.client_file_read [OF assms(1)] vi_def)
  moreover obtain tls where tls: "ClientTlsContext_new vi ''../fizz-sidecar/fizz.crt'' = Inr tls"
    by (simp add: ClientTlsContext_new_def new_client_tls_context_def ffi_result_def)
  moreover have "context_accepts K (ctc_inner tls) cert"
    using tls by (intro assms(2))
      (auto simp: ClientTlsContext_new_def new_client_tls_context_def ffi_result_def vi_def)
  moreover obtain conn where "client_connect K (ctc_inner tls) raw ''localhost'' = (Inr conn, True)"
    using assms(3-5) tls
    by (auto simp: client_connect_iff ClientTlsContext_new_def new_client_tls_context_def ffi_result_def)
  ultimately show ?thesis
    using demo_client_sends [of _ F vi tls "Inr ()" env raw K conn True cert good "\<lambda>_. True" h] assms(6-9)
    by blast
qed

section \<open>A concrete instance\<close>

definition sample_ec :: "unit ec_calls" where
  "sample_ec =
     \<lparr>ec_structures = True, ec_set_group = True, ec_generate = True, ec_assign = Some (), ec_encode = True\<rparr>"

definition sample_server_credential :: ServerCredential where
  "sample_server_credential = \<lparr>svc_signatureScheme = 0x0403, svc_credentialPEM = ''pem''\<rparr>"

definition sample_client_info :: ClientVerificationInfo where
  "sample_client_info =
     \<lparr>cvi_verifyScheme = 0x0403, cvi_publicKeyDer = bytes_to_hex_lower [48, 89],
      cvi_validTime = 604900, cvi_expiresAt = 605800\<rparr>"

lemma sample_issue:
  "generateDelegatedCredential (sample_tls 100 900) sample_ec () () 604800 =
     Inr (sample_server_credential, sample_client_info)"
proof -
  have "publicKeyToDer (sample_tls 100 900) sample_ec () = Inr (bytes_to_hex_lower [48, 89])"
    by code_simp
  then show ?thesis
    by (simp add: generateDelegatedCredential_def generateKeyPair_def verifyCredential_def sample_tls_def
        sample_library_def sample_ec_def dc_crypto.defs tls_crypto.defs rethrow_def Let_def
        sample_server_credential_def sample_client_info_def)
qed

lemma sample_sidecar:
  "sidecar_main (sample_tls 100 900) sample_ec opens (\<lambda>_. None) fs =
     (let fs1 = if opens server_file then fs(server_file \<mapsto> server_json sample_server_credential) else fs
      in if opens client_file then fs1(client_file \<mapsto> client_json sample_client_info) else fs1, Returns 0)"
  using sample_issue
  by (simp add: sidecar_main_def write_json_def loadCertificate_def loadPrivateKey_def sample_tls_def
      sample_library_def dc_crypto.defs tls_crypto.defs Let_def)

lemma sample_key_law: "carries_public_half (sample_tls age start)"
  by (simp add: carries_public_half_def sample_tls_def sample_library_def dc_crypto.defs tls_crypto.defs)

section \<open>Properties\<close>

text \<open>C11. The demo as a whole: when the sidecar ends normally, fizz puts the public half of the key it is
  given into the credential and both files could be opened, the server's program reads back from its file
  the PEM text of the issued credential, and the client's program, on its own file, accepts a handshake
  in which that credential is presented and hands over its message. Unlike for the library's own generator, no
  clock enters: the sidecar writes the expiry that the client will compute.\<close>

theorem sidecar_credential_connects:
  assumes "sidecar_main K E opens dump_error fs = (fs', Returns n)"
    and "opens server_file" and "opens client_file" and "json_reader F doc"
    and "carries_public_half K"
    and "x509_store_new K" and "x509_store_load_locations K ''../fizz-sidecar/fizz.crt''"
    and "newSocket K raw = Inr ()" and "into_std env = Inr raw" and "join_error env = None"
    and "good [TrConnect (Some ''localhost''), TrSetReadCB]"
  shows "\<exists>parent cred keyPEM scheme pem sdoc cdoc c.
      fs' server_file = Some sdoc \<and> deserialize_demo_credential F (doc sdoc) = Inr (scheme, pem)
    \<and> generateDelegatedCredentialPEM K cred keyPEM = Inr pem
    \<and> signature_accepted (dc_crypto.truncate K) parent cred
    \<and> fs' client_file = Some cdoc
    \<and> demo_client_main K F
        (env\<lparr>hs_event := Some (HandshakeSuccess (Some (PeerDelegatedCredential (getX509 K parent) cred)))\<rparr>)
        h good (Inr (doc cdoc)) (Inr ()) = ([''Hello, world!'', ''Sending'', ''Sent!''], Some c, Returns ())"
proof -
  from assms(1) obtain parent key sc info where
    gen: "generateDelegatedCredential K E parent key 604800 = Inr (sc, info)"
    and fs: "fs' server_file = Some (server_json sc)" "fs' client_file = Some (client_json info)"
    by (rule sidecar_main_ok) (use assms(2,3) in simp)
  from sidecar_info_accepted [OF gen assms(5)] obtain cred keyPEM where
    pem: "generateDelegatedCredentialPEM K cred keyPEM = Inr (svc_credentialPEM sc)"
      "signature_accepted (dc_crypto.truncate K) parent cred"
    and acc: "\<And>ctx. cx_publicKeyDer ctx = cvi_publicKeyDer info \<Longrightarrow> cx_validTime ctx = cvi_validTime info \<Longrightarrow>
      cx_expectedVerifyScheme ctx = cvi_verifyScheme info \<Longrightarrow> cx_expiresAt ctx = cvi_expiresAt info \<Longrightarrow>
      context_accepts K ctx (Some (PeerDelegatedCredential (getX509 K parent) cred))" by blast
  let ?env = "env\<lparr>hs_event := Some (HandshakeSuccess (Some (PeerDelegatedCredential (getX509 K parent) cred)))\<rparr>"
  have "\<exists>c. demo_client_main K F ?env h good (Inr (doc (client_json info))) (Inr ()) =
      ([''Hello, world!'', ''Sending'', ''Sent!''], Some c, Returns ())"
    using acc by (rule demo_client_on_file [OF assms(4)]) (use assms(6-11) in simp_all)
  with fs pem json_reader.server_file_read [OF assms(4), of sc] show ?thesis by blast
qed

theorem sidecar_credential_connects_witness:
  "\<exists>cred c. demo_client_main (sample_tls 100 900) tree_de
      ((sample_env AttemptFallback)\<lparr>hs_event := Some (HandshakeSuccess (Some (PeerDelegatedCredential () cred)))\<rparr>)
      empty_slots (\<lambda>_. True) (Inr (client_json sample_client_info)) (Inr ()) =
      ([''Hello, world!'', ''Sending'', ''Sent!''], Some c, Returns ())"
  using sidecar_credential_connects [OF sample_sidecar [of "\<lambda>_. True" "\<lambda>_. None"] TrueI TrueI
      tree_reader.json_reader_axioms sample_key_law sample_tls_fields sample_env_fields(1,2) TrueI,
      of AttemptFallback empty_slots]
  by (auto simp: Let_def)

text \<open>The sidecar does not notice that it cannot write: when neither file can be opened and the
  credential is issued, the program still ends with status 0, and both files are what they were before.\<close>

theorem sidecar_silent_when_unwritable:
  assumes "loadCertificate K ''fizz.crt'' = Inr certificate" and "loadPrivateKey K ''fizz.key'' = Inr key"
    and "checkExtensions K certificate = Inr ()" and "makeSelfCertP256 K key certificate = Inr parent"
    and "generateDelegatedCredential K E parent key 604800 = Inr (sc, info)"
    and "\<not> opens server_file" and "\<not> opens client_file"
    and "dump_error (server_json sc) = None" and "dump_error (client_json info) = None"
  shows "sidecar_main K E opens dump_error fs = (fs, Returns 0)"
  using assms by (simp add: sidecar_main_def write_json_def)

theorem sidecar_silent_when_unwritable_witness:
  "sidecar_main (sample_tls 100 900) sample_ec (\<lambda>_. False) (\<lambda>_. None) Map.empty = (Map.empty, Returns 0)"
  by (rule sidecar_silent_when_unwritable [OF _ _ _ _ sample_issue, of "()"])
    (simp_all add: loadCertificate_def loadPrivateKey_def sample_tls_def
      sample_library_def dc_crypto.defs tls_crypto.defs)

end
