(* ===== verification/Fizz_Endpoint.thy ===== *)
theory Fizz_Endpoint
  imports Fizz_Echo
begin

text \<open>
  The echo loops of the benchmark, \<open>echo_serve\<close> and \<open>echo_client\<close> of
  \<open>src/crates/tls_bench_ablation/src/main.rs\<close>, as tasks over the library's own connections: each poll of
  \<open>read_exact\<close>, \<open>write_all\<close> and \<open>flush\<close> is one step, and a poll that answers \<open>Pending\<close> parks the task until
  the waker it registered is fired. The locale \<open>echo_endpoint\<close> is what the loops rely on; the
  client and the server connection provide it. Shown: what each step does to one side.
\<close>

section \<open>Endpoints\<close>

text \<open>
  What the loops use of a stream (\<open>S: AsyncReadExt + AsyncWriteExt\<close>), and what happens to it from
  outside: a turn of the event base, the arrival of bytes; the last two fields observe it.
\<close>

record 'c endpoint =
  ep_read :: "slot_store \<Rightarrow> 'c \<Rightarrow> Waker \<Rightarrow> u8 list \<Rightarrow> 'c poll_read_result call"
  ep_write :: "'c \<Rightarrow> u8 list \<Rightarrow> 'c \<times> (IoErr + nat) Poll"
  ep_flush :: "'c \<Rightarrow> (IoErr + unit) Poll"
  ep_turn :: "'c \<Rightarrow> 'c"
  ep_arrive :: "slot_store \<Rightarrow> 'c \<Rightarrow> u8 list \<Rightarrow> ('c \<times> slot_store \<times> Waker option) option"
  ep_sent :: "'c \<Rightarrow> u8 list"
  ep_tasks :: "'c \<Rightarrow> u8 list list"

text \<open>The bytes the transport was given.\<close>

definition sent_bytes :: "'a FizzServerConnection_scheme \<Rightarrow> u8 list" where
  "sent_bytes conn = (case transport conn of None \<Rightarrow> [] | Some calls \<Rightarrow> concat (chain_writes calls))"

definition server_arrive ::
  "iobq \<Rightarrow> slot_store \<Rightarrow> ServerConnection \<Rightarrow> u8 list \<Rightarrow> (ServerConnection \<times> slot_store \<times> Waker option) option" where
  "server_arrive Q h self bs =
     (case server_getReadBuffer (sv_inner self) of
        (conn, Returns _) \<Rightarrow>
          map_option (\<lambda>(conn', h', w). (self\<lparr>sv_inner := conn'\<rparr>, h', w)) (server_readDataAvailable Q conn h bs)
      | _ \<Rightarrow> None)"

definition client_arrive ::
  "iobq \<Rightarrow> slot_store \<Rightarrow> ClientConnection \<Rightarrow> u8 list \<Rightarrow> (ClientConnection \<times> slot_store \<times> Waker option) option" where
  "client_arrive Q h self bs =
     (case client_getReadBuffer (cl_inner self) of
        (conn, Returns _) \<Rightarrow>
          map_option (\<lambda>(conn', h', w). (self\<lparr>cl_inner := conn'\<rparr>, h', w)) (client_readDataAvailable Q conn h bs)
      | _ \<Rightarrow> None)"

definition server_end :: "(Waker \<Rightarrow> Waker \<Rightarrow> bool) \<Rightarrow> iobq \<Rightarrow> ServerConnection endpoint" where
  "server_end ww Q =
     \<lparr>ep_read = server_poll_read ww Q, ep_write = server_poll_write, ep_flush = server_poll_flush,
      ep_turn = (\<lambda>self. self\<lparr>sv_inner := evb_turn (sv_inner self)\<rparr>), ep_arrive = server_arrive Q,
      ep_sent = (\<lambda>self. sent_bytes (sv_inner self)), ep_tasks = (\<lambda>self. evb_tasks (sv_inner self))\<rparr>"

definition client_end :: "(Waker \<Rightarrow> Waker \<Rightarrow> bool) \<Rightarrow> iobq \<Rightarrow> ClientConnection endpoint" where
  "client_end ww Q =
     \<lparr>ep_read = client_poll_read ww Q, ep_write = client_poll_write, ep_flush = client_poll_flush,
      ep_turn = (\<lambda>self. self\<lparr>cl_inner := evb_turn (cl_inner self)\<rparr>), ep_arrive = client_arrive Q,
      ep_sent = (\<lambda>self. sent_bytes (cl_inner self)), ep_tasks = (\<lambda>self. evb_tasks (cl_inner self))\<rparr>"

section \<open>The tasks\<close>

text \<open>
  Where a task is in its round: inside \<open>write_all\<close> or at \<open>flush\<close> with the bytes still to be written,
  inside \<open>read_exact\<close> with the number of bytes of the buffer that are filled, or ended. \<open>es_left\<close> counts the
  rounds still to be finished, \<open>es_taken\<close> how much of the peer's bytes has arrived, \<open>es_got\<close> all
  bytes read so far.
\<close>

datatype echo_phase = Sending "u8 list" | Receiving nat | Ended "string + unit"

record 'c echo_side =
  es_conn :: 'c
  es_store :: slot_store
  es_phase :: echo_phase
  es_buf :: "u8 list"
  es_left :: nat
  es_parked :: bool
  es_taken :: nat
  es_got :: "u8 list"

text \<open>One poll of \<open>write_all\<close>, \<open>flush\<close> and \<open>read_exact\<close>; what follows them is the phase given.\<close>

definition write_some :: "'c endpoint \<Rightarrow> u8 list \<Rightarrow> 'c echo_side \<Rightarrow> 'c echo_side" where
  "write_some io bs s =
     (case ep_write io (es_conn s) bs of
        (c, Pending) \<Rightarrow> s\<lparr>es_conn := c, es_parked := True\<rparr>
      | (c, Ready (Inl e)) \<Rightarrow> s\<lparr>es_conn := c, es_phase := Ended (Inl (io_text e))\<rparr>
      | (c, Ready (Inr n)) \<Rightarrow>
          s\<lparr>es_conn := c, es_phase := (if n = 0 then Ended (Inl ''write zero'') else Sending (drop n bs))\<rparr>)"

definition flush_then :: "'c endpoint \<Rightarrow> ('c echo_side \<Rightarrow> 'c echo_side) \<Rightarrow> 'c echo_side \<Rightarrow> 'c echo_side" where
  "flush_then io next s =
     (case ep_flush io (es_conn s) of
        Pending \<Rightarrow> s\<lparr>es_parked := True\<rparr>
      | Ready (Inl e) \<Rightarrow> s\<lparr>es_phase := Ended (Inl (io_text e))\<rparr>
      | Ready (Inr _) \<Rightarrow> next s)"

definition read_some :: "'c endpoint \<Rightarrow> Waker \<Rightarrow> nat \<Rightarrow> 'c echo_side \<Rightarrow> 'c echo_side" where
  "read_some io w n s =
     (case ep_read io (es_store s) (es_conn s) w (drop n (es_buf s)) of
        Blocks \<Rightarrow> s
      | Throws e \<Rightarrow> s\<lparr>es_phase := Ended (Inl e)\<rparr>
      | Returns r \<Rightarrow>
          (let s' = s\<lparr>es_conn := pr_self r, es_store := pr_store r\<rparr>
           in case pr_poll r of
                Pending \<Rightarrow> s'\<lparr>es_parked := True\<rparr>
              | Ready (Inl e) \<Rightarrow> s'\<lparr>es_phase := Ended (Inl (io_text e))\<rparr>
              | Ready (Inr _) \<Rightarrow>
                  if pr_advanced r = 0 then s'\<lparr>es_phase := Ended (Inl ''early eof'')\<rparr>
                  else s'\<lparr>es_buf := take n (es_buf s) @ pr_slice r, es_phase := Receiving (n + pr_advanced r),
                          es_got := es_got s @ take (pr_advanced r) (pr_slice r)\<rparr>))"

text \<open>The end of a round: the next one starts in the phase given, if there is one.\<close>

definition round_end :: "echo_phase \<Rightarrow> 'c echo_side \<Rightarrow> 'c echo_side" where
  "round_end start s =
     s\<lparr>es_left := es_left s - 1, es_phase := (if es_left s - 1 = 0 then Ended (Inr ()) else start)\<rparr>"

definition server_next :: "'c endpoint \<Rightarrow> Waker \<Rightarrow> 'c echo_side \<Rightarrow> 'c echo_side" where
  "server_next io w s =
     (case es_phase s of
        Receiving n \<Rightarrow>
          if n = length (es_buf s) then s\<lparr>es_phase := Sending (es_buf s)\<rparr> else read_some io w n s
      | Sending bs \<Rightarrow> if bs = [] then flush_then io (round_end (Receiving 0)) s else write_some io bs s
      | Ended r \<Rightarrow> s)"

definition client_next :: "nat \<Rightarrow> 'c endpoint \<Rightarrow> Waker \<Rightarrow> 'c echo_side \<Rightarrow> 'c echo_side" where
  "client_next batch_size io w s =
     (case es_phase s of
        Sending bs \<Rightarrow>
          if bs = [] then flush_then io (\<lambda>s. s\<lparr>es_phase := Receiving 0\<rparr>) s else write_some io bs s
      | Receiving n \<Rightarrow>
          if n = length (es_buf s) then round_end (Sending (replicate batch_size 0x5A)) s
          else read_some io w n s
      | Ended r \<Rightarrow> s)"

fun ended :: "echo_phase \<Rightarrow> bool" where
  "ended (Ended r) = True"
| "ended _ = False"

text \<open>The start of \<open>echo_serve\<close> and \<open>echo_client\<close> on a connection.\<close>

definition echo_start :: "echo_phase \<Rightarrow> nat \<Rightarrow> nat \<Rightarrow> slot_store \<Rightarrow> 'c \<Rightarrow> 'c echo_side" where
  "echo_start first batch_size rounds h c =
     \<lparr>es_conn = c, es_store = h, es_phase = (if rounds = 0 then Ended (Inr ()) else first),
      es_buf = replicate batch_size 0, es_left = rounds, es_parked = False, es_taken = 0, es_got = []\<rparr>"

text \<open>Steps from outside; the waker of task \<open>t\<close> schedules it.\<close>

definition turn_side :: "'c endpoint \<Rightarrow> 'c echo_side \<Rightarrow> 'c echo_side" where
  "turn_side io s = s\<lparr>es_conn := ep_turn io (es_conn s)\<rparr>"

definition arrive_side :: "'c endpoint \<Rightarrow> nat \<Rightarrow> u8 list \<Rightarrow> 'c echo_side \<Rightarrow> 'c echo_side option" where
  "arrive_side io t bs s =
     map_option (\<lambda>(c, h, w). s\<lparr>es_conn := c, es_store := h, es_taken := es_taken s + length bs,
         es_parked := (es_parked s \<and> map_option wk_task w \<noteq> Some t)\<rparr>)
       (ep_arrive io (es_store s) (es_conn s) bs)"

section \<open>Invariants of one side\<close>

text \<open>All bytes a side has written: those given to the transport and those that wait for the event base.\<close>

definition out_bytes :: "'c endpoint \<Rightarrow> 'c echo_side \<Rightarrow> u8 list" where
  "out_bytes io s = ep_sent io (es_conn s) @ concat (ep_tasks io (es_conn s))"

text \<open>A parked task is inside \<open>read_exact\<close>, nothing is there to be read and its waker is registered.\<close>

definition side_ok ::
  "'c endpoint \<Rightarrow> (slot_store \<Rightarrow> 'c \<Rightarrow> bool) \<Rightarrow> ('c \<Rightarrow> u8 list) \<Rightarrow> (slot_store \<Rightarrow> 'c \<Rightarrow> nat option)
     \<Rightarrow> nat \<Rightarrow> nat \<Rightarrow> 'c echo_side \<Rightarrow> bool" where
  "side_ok io ready holds task t b s \<longleftrightarrow>
     ready (es_store s) (es_conn s) \<and> length (es_buf s) = b \<and> [] \<notin> set (ep_tasks io (es_conn s))
     \<and> (case es_phase s of Receiving n \<Rightarrow> n \<le> b | _ \<Rightarrow> True)
     \<and> (es_parked s \<longrightarrow> (\<exists>n < b. es_phase s = Receiving n) \<and> holds (es_conn s) = []
          \<and> task (es_store s) (es_conn s) = Some t)"

text \<open>What has been read and what is buffered is what has arrived of the peer's bytes.\<close>

definition flow :: "('c \<Rightarrow> u8 list) \<Rightarrow> u8 list \<Rightarrow> 'c echo_side \<Rightarrow> bool" where
  "flow holds sent s \<longleftrightarrow>
     es_taken s \<le> length sent \<and> es_got s @ holds (es_conn s) = take (es_taken s) sent"

definition client_inv :: "'c endpoint \<Rightarrow> nat \<Rightarrow> nat \<Rightarrow> 'c echo_side \<Rightarrow> bool" where
  "client_inv io R b s \<longleftrightarrow>
     es_left s \<le> R \<and>
     (case es_phase s of
        Sending bs \<Rightarrow> 0 < es_left s \<and> out_bytes io s @ bs = replicate (Suc (R - es_left s) * b) 0x5A
          \<and> length (es_got s) = (R - es_left s) * b
      | Receiving n \<Rightarrow> 0 < es_left s \<and> out_bytes io s = replicate (Suc (R - es_left s) * b) 0x5A
          \<and> length (es_got s) = (R - es_left s) * b + n
      | Ended r \<Rightarrow> r = Inr () \<and> es_left s = 0 \<and> out_bytes io s = replicate (R * b) 0x5A
          \<and> length (es_got s) = R * b)"

definition server_inv :: "'c endpoint \<Rightarrow> nat \<Rightarrow> nat \<Rightarrow> 'c echo_side \<Rightarrow> bool" where
  "server_inv io R b s \<longleftrightarrow>
     es_left s \<le> R \<and>
     (case es_phase s of
        Receiving n \<Rightarrow> 0 < es_left s \<and> es_got s = out_bytes io s @ take n (es_buf s)
          \<and> length (out_bytes io s) = (R - es_left s) * b
      | Sending bs \<Rightarrow> 0 < es_left s \<and> es_got s = out_bytes io s @ bs
          \<and> length (out_bytes io s) + length bs = Suc (R - es_left s) * b
      | Ended r \<Rightarrow> r = Inr () \<and> es_left s = 0 \<and> es_got s = out_bytes io s
          \<and> length (out_bytes io s) = R * b)"

text \<open>How far a side has come; every step of the system moves one of the counters.\<close>

definition side_count :: "'c endpoint \<Rightarrow> 'c echo_side \<Rightarrow> nat" where
  "side_count io s =
     length (out_bytes io s) + length (ep_sent io (es_conn s)) + 2 * es_taken s + length (es_got s)
     + (if es_parked s then 1 else 0)"

definition client_rank :: "nat \<Rightarrow> 'c echo_side \<Rightarrow> nat" where
  "client_rank R s = 2 * (R - es_left s) + (case es_phase s of Receiving n \<Rightarrow> 1 | _ \<Rightarrow> 0)"

definition server_rank :: "nat \<Rightarrow> 'c echo_side \<Rightarrow> nat" where
  "server_rank R s = 2 * (R - es_left s) + (case es_phase s of Sending bs \<Rightarrow> 1 | _ \<Rightarrow> 0)"

section \<open>The contract of an endpoint\<close>

text \<open>
  What the loops rely on: while \<open>ready\<close> holds, a read answers at once and leaves the task's waker
  registered, a write is taken whole and queued, the event base passes on the oldest write, and
  bytes that arrive are appended to the content and fire the registered waker.
\<close>

locale echo_endpoint =
  fixes io :: "'c endpoint"
    and ready :: "slot_store \<Rightarrow> 'c \<Rightarrow> bool"
    and holds :: "'c \<Rightarrow> u8 list"
    and task :: "slot_store \<Rightarrow> 'c \<Rightarrow> nat option"
  assumes read_law: "ready h c \<Longrightarrow> \<exists>r. ep_read io h c w buf = Returns r
      \<and> pr_poll r = read_answer (holds c) False (length buf)
      \<and> pr_advanced r = min (length (holds c)) (length buf)
      \<and> pr_slice r = take (length buf) (holds c) @ drop (length (holds c)) buf
      \<and> holds (pr_self r) = drop (length buf) (holds c)
      \<and> ep_sent io (pr_self r) = ep_sent io c \<and> ep_tasks io (pr_self r) = ep_tasks io c
      \<and> ready (pr_store r) (pr_self r) \<and> task (pr_store r) (pr_self r) = Some (wk_task w)"
    and write_law: "ready h c \<Longrightarrow> \<exists>c'. ep_write io c bs = (c', Ready (Inr (length bs)))
      \<and> ep_tasks io c' = ep_tasks io c @ [bs] \<and> ep_sent io c' = ep_sent io c
      \<and> holds c' = holds c \<and> ready h c' \<and> task h c' = task h c"
    and flush_law: "ep_flush io c = Ready (Inr ())"
    and turn_law: "ready h c \<Longrightarrow> ep_tasks io c = x # xs \<Longrightarrow>
      ep_tasks io (ep_turn io c) = xs \<and> ep_sent io (ep_turn io c) = ep_sent io c @ x
      \<and> holds (ep_turn io c) = holds c \<and> ready h (ep_turn io c) \<and> task h (ep_turn io c) = task h c"
    and arrive_law: "ready h c \<Longrightarrow> length (holds c) + length bs < 2 ^ 64 \<Longrightarrow>
      \<exists>c' h' w. ep_arrive io h c bs = Some (c', h', w) \<and> map_option wk_task w = task h c
        \<and> ready h' c' \<and> holds c' = holds c @ bs
        \<and> ep_sent io c' = ep_sent io c \<and> ep_tasks io c' = ep_tasks io c"
begin

abbreviation ok :: "nat \<Rightarrow> nat \<Rightarrow> 'c echo_side \<Rightarrow> bool" where
  "ok \<equiv> side_ok io ready holds task"

lemma read_some_effect:
  assumes "ok (wk_task w) b s" and "\<not> es_parked s" and "es_phase s = Receiving n" and "n < b"
  defines "s' \<equiv> read_some io w n s"
  shows "ok (wk_task w) b s'" "out_bytes io s' = out_bytes io s"
    "ep_sent io (es_conn s') = ep_sent io (es_conn s)" "es_taken s' = es_taken s" "es_left s' = es_left s"
    "es_got s' @ holds (es_conn s') = es_got s @ holds (es_conn s)"
    "es_parked s' \<and> es_phase s' = es_phase s \<and> es_got s' = es_got s \<and> es_buf s' = es_buf s
     \<or> \<not> es_parked s' \<and> (\<exists>bs. bs \<noteq> [] \<and> es_phase s' = Receiving (n + length bs)
          \<and> es_got s' = es_got s @ bs \<and> take (n + length bs) (es_buf s') = take n (es_buf s) @ bs)"
proof -
  let ?buf = "drop n (es_buf s)" and ?bs = "take (b - n) (holds (es_conn s))"
  from assms(1) have len: "length (es_buf s) = b" and rdy: "ready (es_store s) (es_conn s)"
    and tasks: "[] \<notin> set (ep_tasks io (es_conn s))" by (simp_all add: side_ok_def)
  from read_law [OF rdy, of w ?buf] obtain r where
    r: "ep_read io (es_store s) (es_conn s) w ?buf = Returns r"
      "pr_poll r = read_answer (holds (es_conn s)) False (b - n)"
      "pr_advanced r = length ?bs" "pr_slice r = ?bs @ drop (length (holds (es_conn s))) ?buf"
      "holds (pr_self r) = drop (b - n) (holds (es_conn s))"
    and keep: "ep_sent io (pr_self r) = ep_sent io (es_conn s)"
      "ep_tasks io (pr_self r) = ep_tasks io (es_conn s)"
      "ready (pr_store r) (pr_self r)" "task (pr_store r) (pr_self r) = Some (wk_task w)"
    using len by (auto simp: min.commute)
  have effect: "ok (wk_task w) b s' \<and> out_bytes io s' = out_bytes io s
    \<and> ep_sent io (es_conn s') = ep_sent io (es_conn s) \<and> es_taken s' = es_taken s \<and> es_left s' = es_left s
    \<and> es_got s' @ holds (es_conn s') = es_got s @ holds (es_conn s)
    \<and> (es_parked s' \<and> es_phase s' = es_phase s \<and> es_got s' = es_got s \<and> es_buf s' = es_buf s
     \<or> \<not> es_parked s' \<and> ?bs \<noteq> [] \<and> es_phase s' = Receiving (n + length ?bs)
          \<and> es_got s' = es_got s @ ?bs \<and> take (n + length ?bs) (es_buf s') = take n (es_buf s) @ ?bs)"
  proof (cases "holds (es_conn s) = []")
    case True
    with r assms(4) have "s' = s\<lparr>es_conn := pr_self r, es_store := pr_store r, es_parked := True\<rparr>"
      by (simp add: s'_def read_some_def read_answer_def)
    with True r(5) keep tasks len assms(3,4) show ?thesis by (simp add: side_ok_def out_bytes_def)
  next
    case False
    with r(2-4) assms(4) have "pr_poll r = Ready (Inr ())" "pr_advanced r \<noteq> 0"
      "take (pr_advanced r) (pr_slice r) = ?bs" by (simp_all add: read_answer_def)
    with r(1) have "s' = s\<lparr>es_conn := pr_self r, es_store := pr_store r,
        es_buf := take n (es_buf s) @ pr_slice r, es_phase := Receiving (n + length ?bs),
        es_got := es_got s @ ?bs\<rparr>"
      unfolding s'_def read_some_def r(3) [symmetric] by (simp add: Let_def)
    with False r(4,5) keep tasks len assms(2,4) show ?thesis
      by (simp add: side_ok_def out_bytes_def) (auto simp: min_def)
  qed
  show "ok (wk_task w) b s'" "out_bytes io s' = out_bytes io s"
    "ep_sent io (es_conn s') = ep_sent io (es_conn s)" "es_taken s' = es_taken s" "es_left s' = es_left s"
    "es_got s' @ holds (es_conn s') = es_got s @ holds (es_conn s)"
    "es_parked s' \<and> es_phase s' = es_phase s \<and> es_got s' = es_got s \<and> es_buf s' = es_buf s
     \<or> \<not> es_parked s' \<and> (\<exists>bs. bs \<noteq> [] \<and> es_phase s' = Receiving (n + length bs)
          \<and> es_got s' = es_got s @ bs \<and> take (n + length bs) (es_buf s') = take n (es_buf s) @ bs)"
    using effect by auto
qed

lemma write_some_effect:
  assumes "ok t b s" and "\<not> es_parked s" and "bs \<noteq> []"
  defines "s' \<equiv> write_some io bs s"
  shows "ok t b s'" "out_bytes io s' = out_bytes io s @ bs" "es_phase s' = Sending []" "\<not> es_parked s'"
    "ep_sent io (es_conn s') = ep_sent io (es_conn s)" "holds (es_conn s') = holds (es_conn s)"
    "es_taken s' = es_taken s" "es_left s' = es_left s" "es_got s' = es_got s" "es_buf s' = es_buf s"
proof -
  from assms(1) have "ready (es_store s) (es_conn s)" by (simp add: side_ok_def)
  from write_law [OF this, of bs] obtain c where
    "ep_write io (es_conn s) bs = (c, Ready (Inr (length bs)))"
    "ep_tasks io c = ep_tasks io (es_conn s) @ [bs]" "ep_sent io c = ep_sent io (es_conn s)"
    "holds c = holds (es_conn s)" "ready (es_store s) c" by blast
  with assms show "ok t b s'" "out_bytes io s' = out_bytes io s @ bs" "es_phase s' = Sending []" "\<not> es_parked s'"
    "ep_sent io (es_conn s') = ep_sent io (es_conn s)" "holds (es_conn s') = holds (es_conn s)"
    "es_taken s' = es_taken s" "es_left s' = es_left s" "es_got s' = es_got s" "es_buf s' = es_buf s"
    by (auto simp: write_some_def side_ok_def out_bytes_def)
qed

lemma read_some_count:
  assumes "ok (wk_task w) b s" and "\<not> es_parked s" and "es_phase s = Receiving n" and "n < b"
  shows "side_count io s < side_count io (read_some io w n s)"
proof -
  note e = read_some_effect [OF assms]
  from e(7) have "length (es_got s) + (if es_parked s then 1 else 0)
      < length (es_got (read_some io w n s)) + (if es_parked (read_some io w n s) then 1 else 0)"
    using assms(2) by auto
  with e(2-5) show ?thesis by (simp add: side_count_def)
qed

lemma write_some_count:
  assumes "ok t b s" and "\<not> es_parked s" and "bs \<noteq> []"
  shows "side_count io s < side_count io (write_some io bs s)"
  using write_some_effect [OF assms] assms(2,3) by (simp add: side_count_def)

lemma turn_effect:
  assumes "ok t b s" and "ep_tasks io (es_conn s) \<noteq> []"
  defines "s' \<equiv> turn_side io s"
  shows "ok t b s'" "out_bytes io s' = out_bytes io s" "es_phase s' = es_phase s" "es_parked s' = es_parked s"
    "\<exists>bs. bs \<noteq> [] \<and> ep_sent io (es_conn s') = ep_sent io (es_conn s) @ bs"
    "holds (es_conn s') = holds (es_conn s)"
    "es_taken s' = es_taken s" "es_left s' = es_left s" "es_got s' = es_got s" "es_buf s' = es_buf s"
proof -
  from assms(2) obtain x xs where x: "ep_tasks io (es_conn s) = x # xs" by (cases "ep_tasks io (es_conn s)") auto
  from assms(1) have "ready (es_store s) (es_conn s)" by (simp add: side_ok_def)
  from turn_law [OF this x] x assms(1)
  show "ok t b s'" "out_bytes io s' = out_bytes io s" "es_phase s' = es_phase s" "es_parked s' = es_parked s"
    "\<exists>bs. bs \<noteq> [] \<and> ep_sent io (es_conn s') = ep_sent io (es_conn s) @ bs"
    "holds (es_conn s') = holds (es_conn s)"
    "es_taken s' = es_taken s" "es_left s' = es_left s" "es_got s' = es_got s" "es_buf s' = es_buf s"
    by (auto simp: s'_def turn_side_def side_ok_def out_bytes_def)
qed

lemma arrive_effect:
  assumes "ok t b s" and "length (holds (es_conn s)) + length bs < 2 ^ 64"
  shows "\<exists>s'. arrive_side io t bs s = Some s' \<and> ok t b s' \<and> out_bytes io s' = out_bytes io s
    \<and> es_phase s' = es_phase s \<and> \<not> es_parked s' \<and> ep_sent io (es_conn s') = ep_sent io (es_conn s)
    \<and> holds (es_conn s') = holds (es_conn s) @ bs \<and> es_taken s' = es_taken s + length bs
    \<and> es_left s' = es_left s \<and> es_got s' = es_got s \<and> es_buf s' = es_buf s"
proof -
  from assms(1) have "ready (es_store s) (es_conn s)" by (simp add: side_ok_def)
  from arrive_law [OF this assms(2)] obtain c h w where
    a: "ep_arrive io (es_store s) (es_conn s) bs = Some (c, h, w)"
      "map_option wk_task w = task (es_store s) (es_conn s)" "ready h c" "holds c = holds (es_conn s) @ bs"
      "ep_sent io c = ep_sent io (es_conn s)" "ep_tasks io c = ep_tasks io (es_conn s)" by blast
  let ?s = "s\<lparr>es_conn := c, es_store := h, es_taken := es_taken s + length bs, es_parked := False\<rparr>"
  have "\<not> (es_parked s \<and> map_option wk_task w \<noteq> Some t)"
    using a(2) assms(1) by (auto simp: side_ok_def)
  with a(1) have "arrive_side io t bs s = Some ?s" unfolding arrive_side_def by simp
  then show ?thesis
    by (intro exI [of _ ?s]) (use a assms(1) in \<open>simp add: side_ok_def out_bytes_def\<close>)
qed

lemma arrive_count:
  assumes "ok t b s" and "length (holds (es_conn s)) + length bs < 2 ^ 64" and "bs \<noteq> []"
    and "arrive_side io t bs s = Some s'"
  shows "side_count io s < side_count io s'"
proof -
  have "Suc 0 < 2 * length bs" using assms(3) by (cases bs) simp_all
  with arrive_effect [OF assms(1,2)] assms(4) show ?thesis by (auto simp: side_count_def)
qed

lemma client_next_effect:
  assumes "ok (wk_task w) b s" and "client_inv io R b s" and "\<not> es_parked s" and "\<not> ended (es_phase s)"
  defines "s' \<equiv> client_next b io w s"
  shows "ok (wk_task w) b s'" "client_inv io R b s'"
    "ep_sent io (es_conn s') = ep_sent io (es_conn s)" "es_taken s' = es_taken s"
    "es_got s' @ holds (es_conn s') = es_got s @ holds (es_conn s)"
    "side_count io s + client_rank R s < side_count io s' + client_rank R s'"
proof -
  have len: "length (es_buf s) = b" using assms(1) by (simp add: side_ok_def)
  have "ok (wk_task w) b s' \<and> client_inv io R b s'
    \<and> ep_sent io (es_conn s') = ep_sent io (es_conn s) \<and> es_taken s' = es_taken s
    \<and> es_got s' @ holds (es_conn s') = es_got s @ holds (es_conn s)
    \<and> side_count io s + client_rank R s < side_count io s' + client_rank R s'"
  proof (cases "es_phase s")
    case (Sending bs)
    show ?thesis
    proof (cases "bs = []")
      case True
      with Sending assms flush_law show ?thesis
        by (simp add: client_next_def flush_then_def side_ok_def client_inv_def out_bytes_def side_count_def
            client_rank_def)
    next
      case False
      with Sending have "s' = write_some io bs s" by (simp add: s'_def client_next_def)
      with write_some_effect [OF assms(1,3) False] write_some_count [OF assms(1,3) False] Sending assms(2,3)
      show ?thesis by (simp add: client_inv_def client_rank_def)
    qed
  next
    case (Receiving n)
    show ?thesis
    proof (cases "n = b")
      case True
      with Receiving len have "s' = round_end (Sending (replicate b 0x5A)) s" by (simp add: s'_def client_next_def)
      moreover from Receiving assms(2) obtain l r where "es_left s = Suc l" "R = r + Suc l"
        by (auto simp: client_inv_def gr0_conv_Suc le_iff_add ac_simps)
      ultimately show ?thesis using True Receiving assms(1-3)
        by (cases l) (simp_all add: round_end_def side_ok_def client_inv_def out_bytes_def side_count_def
            client_rank_def replicate_add [symmetric])
    next
      case False
      with Receiving len assms(1) have n: "n < b" and s': "s' = read_some io w n s"
        by (auto simp: s'_def client_next_def side_ok_def)
      from read_some_effect(1-6) [OF assms(1,3) Receiving n] read_some_count [OF assms(1,3) Receiving n]
        read_some_effect(7) [OF assms(1,3) Receiving n] Receiving assms(2)
      show ?thesis unfolding s' by (elim disjE) (auto simp: client_inv_def client_rank_def)
    qed
  next
    case (Ended r)
    with assms(4) show ?thesis by simp
  qed
  then show "ok (wk_task w) b s'" "client_inv io R b s'"
    "ep_sent io (es_conn s') = ep_sent io (es_conn s)" "es_taken s' = es_taken s"
    "es_got s' @ holds (es_conn s') = es_got s @ holds (es_conn s)"
    "side_count io s + client_rank R s < side_count io s' + client_rank R s'" by simp_all
qed

lemma server_next_effect:
  assumes "ok (wk_task w) b s" and "server_inv io R b s" and "\<not> es_parked s" and "\<not> ended (es_phase s)"
  defines "s' \<equiv> server_next io w s"
  shows "ok (wk_task w) b s'" "server_inv io R b s'"
    "ep_sent io (es_conn s') = ep_sent io (es_conn s)" "es_taken s' = es_taken s"
    "es_got s' @ holds (es_conn s') = es_got s @ holds (es_conn s)"
    "side_count io s + server_rank R s < side_count io s' + server_rank R s'"
proof -
  have len: "length (es_buf s) = b" using assms(1) by (simp add: side_ok_def)
  have "ok (wk_task w) b s' \<and> server_inv io R b s'
    \<and> ep_sent io (es_conn s') = ep_sent io (es_conn s) \<and> es_taken s' = es_taken s
    \<and> es_got s' @ holds (es_conn s') = es_got s @ holds (es_conn s)
    \<and> side_count io s + server_rank R s < side_count io s' + server_rank R s'"
  proof (cases "es_phase s")
    case (Sending bs)
    show ?thesis
    proof (cases "bs = []")
      case True
      with Sending flush_law have "s' = round_end (Receiving 0) s"
        by (simp add: s'_def server_next_def flush_then_def)
      moreover from Sending assms(2) obtain l r where "es_left s = Suc l" "R = r + Suc l"
        by (auto simp: server_inv_def gr0_conv_Suc le_iff_add ac_simps)
      ultimately show ?thesis using True Sending assms(1-3)
        by (cases l) (simp_all add: round_end_def side_ok_def server_inv_def out_bytes_def side_count_def
            server_rank_def)
    next
      case False
      with Sending have "s' = write_some io bs s" by (simp add: s'_def server_next_def)
      with write_some_effect [OF assms(1,3) False] write_some_count [OF assms(1,3) False] Sending assms(2,3)
      show ?thesis by (simp add: server_inv_def server_rank_def)
    qed
  next
    case (Receiving n)
    show ?thesis
    proof (cases "n = b")
      case True
      with Receiving len have "s' = s\<lparr>es_phase := Sending (es_buf s)\<rparr>" by (simp add: s'_def server_next_def)
      with True Receiving len assms(1-3) show ?thesis
        by (auto simp: side_ok_def server_inv_def out_bytes_def side_count_def server_rank_def)
    next
      case False
      with Receiving len assms(1) have n: "n < b" and s': "s' = read_some io w n s"
        by (auto simp: s'_def server_next_def side_ok_def)
      from read_some_effect(1-6) [OF assms(1,3) Receiving n] read_some_count [OF assms(1,3) Receiving n]
        read_some_effect(7) [OF assms(1,3) Receiving n] Receiving assms(2)
      show ?thesis unfolding s' by (elim disjE) (auto simp: server_inv_def server_rank_def)
    qed
  next
    case (Ended r)
    with assms(4) show ?thesis by simp
  qed
  then show "ok (wk_task w) b s'" "server_inv io R b s'"
    "ep_sent io (es_conn s') = ep_sent io (es_conn s)" "es_taken s' = es_taken s"
    "es_got s' @ holds (es_conn s') = es_got s @ holds (es_conn s)"
    "side_count io s + server_rank R s < side_count io s' + server_rank R s'" by simp_all
qed

end

section \<open>The connections are endpoints\<close>

definition link_ready :: "slot_store \<Rightarrow> 'a FizzServerConnection_scheme \<Rightarrow> ReadWaker \<Rightarrow> bool" where
  "link_ready h conn rw \<longleftrightarrow>
     readable conn \<and> \<not> readEof conn \<and> \<not> writeError conn \<and> evb_thread conn
     \<and> read_waker conn = Some (clone_for_cpp rw) \<and> slot_ok h rw"

text \<open>A read changes the read queue and its counter only.\<close>

context reading
begin

lemma read_frame:
  assumes "readable conn" and "server_connection_read_or_status Q conn buf = (conn', r)"
  shows "readEof conn' = readEof conn" "writeError conn' = writeError conn" "evb_thread conn' = evb_thread conn"
    "read_waker conn' = read_waker conn" "transport conn' = transport conn" "evb_tasks conn' = evb_tasks conn"
proof -
  from read_or_status_ok [OF assms(1), of buf] assms(2)
  have f: "conn' = conn\<lparr>readBufQueue := readBufQueue conn', bytesRead := bytesRead conn'\<rparr>" by auto
  show "readEof conn' = readEof conn" "writeError conn' = writeError conn" "evb_thread conn' = evb_thread conn"
    "read_waker conn' = read_waker conn" "transport conn' = transport conn" "evb_tasks conn' = evb_tasks conn"
    by (subst f, simp)+
qed

lemma read_link_ready:
  assumes "link_ready h conn rw"
  obtains h' conn' out where
    "register ww h rw w = Some h'"
    and "server_connection_read_or_status Q conn buf =
      (conn', Returns (out, take (length buf) (content conn) @ drop (length (content conn)) buf))"
    and "unat (ro_bytes_read out) = min (length (content conn)) (length buf)"
    and "(0 < ro_bytes_read out) = (content conn \<noteq> [] \<and> buf \<noteq> [])" and "\<not> ro_eof out"
    and "content conn' = drop (length buf) (content conn)" and "link_ready h' conn' rw"
    and "slot_task h' rw = Some (wk_task w)" and "sent_bytes conn' = sent_bytes conn"
    and "evb_tasks conn' = evb_tasks conn"
proof -
  from assms have rd: "readable conn" "\<not> readEof conn" "slot_ok h rw" by (simp_all add: link_ready_def)
  from slot.reg_total [OF rd(3), of w] obtain h' where reg: "register ww h rw w = Some h'" by blast
  show thesis
  proof (rule read_outcome [OF rd(1), of buf])
    fix conn' out buf'
    assume r: "server_connection_read_or_status Q conn buf = (conn', Returns (out, buf'))"
      and n: "unat (ro_bytes_read out) = min (length (content conn)) (length buf)"
      and p: "(0 < ro_bytes_read out) = (content conn \<noteq> [] \<and> buf \<noteq> [])"
      and e: "ro_eof out = (content conn = [] \<and> readEof conn)"
      and b: "buf' = take (length buf) (content conn) @ drop (length (content conn)) buf"
      and c: "content conn' = drop (length buf) (content conn)" "readable conn'"
    note keep = read_frame [OF rd(1) r]
    with c assms reg slot.reg_ok [OF rd(3) reg] have "link_ready h' conn' rw"
      by (simp add: link_ready_def)
    moreover have "sent_bytes conn' = sent_bytes conn" "evb_tasks conn' = evb_tasks conn"
      using keep by (simp_all add: sent_bytes_def)
    ultimately show thesis
      using e rd(2) slot.reg_task [OF rd(3) reg] by (intro that [OF reg r [unfolded b] n p]) (simp_all add: c)
  qed
qed

lemma write_link_ready:
  assumes "link_ready h conn rw"
  shows "server_connection_write conn bs = (conn\<lparr>evb_tasks := evb_tasks conn @ [bs]\<rparr>, Inr (length bs))"
    and "link_ready h (conn\<lparr>evb_tasks := q\<rparr>) rw"
  using assms by (simp_all add: server_connection_write_def link_ready_def readable_def)

lemma turn_link_ready:
  assumes "link_ready h conn rw" and "evb_tasks conn = x # xs"
  shows "evb_tasks (evb_turn conn) = xs" "sent_bytes (evb_turn conn) = sent_bytes conn @ x"
    "link_ready h (evb_turn conn) rw"
  using assms
  by (auto simp: evb_turn_def tr_do_def sent_bytes_def link_ready_def readable_def conn_inv_def content_def)

lemma arrive_link_ready:
  assumes "link_ready h conn rw" and "length (content conn) + length bs < 2 ^ 64"
  obtains conn1 conn' h' w where "server_getReadBuffer conn = (conn1, Returns ())"
    and "server_readDataAvailable Q conn1 h bs = Some (conn', h', w)"
    and "map_option wk_task w = slot_task h rw" and "link_ready h' conn' rw"
    and "content conn' = content conn @ bs" and "sent_bytes conn' = sent_bytes conn"
    and "evb_tasks conn' = evb_tasks conn"
proof -
  from assms(1) have rd: "readable conn" "slot_ok h rw" "read_waker conn = Some (clone_for_cpp rw)"
    by (simp_all add: link_ready_def)
  define conn1 where "conn1 = conn\<lparr>read_mutex := True, pending_read := True\<rparr>"
  define conn' where "conn' = server_commitRead Q conn1 bs"
  have g: "server_getReadBuffer conn = (conn1, Returns ())"
    using rd(1) by (simp add: server_getReadBuffer_def readable_def conn1_def)
  have c: "content conn' = content conn @ bs" "readable conn'"
    using srv.deliver_content [OF rd(1), of bs] srv.deliver_inv [OF rd(1) assms(2)] g
    by (simp_all add: server_deliver_def conn'_def)
  have keep: "readEof conn' = readEof conn" "writeError conn' = writeError conn" "evb_thread conn' = evb_thread conn"
    "read_waker conn' = read_waker conn" "sent_bytes conn' = sent_bytes conn" "evb_tasks conn' = evb_tasks conn"
    by (simp_all add: conn'_def conn1_def server_commitRead_def sent_bytes_def)
  from slot.fire_total [OF rd(2)] obtain h' w where
    f: "wake_read_waker h (clone_for_cpp rw) = Some (h', w)" by blast
  have "server_readDataAvailable Q conn1 h bs = Some (conn', h', w)"
    using f rd(3) keep(4) by (simp add: server_readDataAvailable_def server_wakeReader_def conn'_def)
  moreover have "link_ready h' conn' rw"
    using assms(1) keep c(2) slot.fire_ok [OF rd(2) f] by (simp add: link_ready_def)
  ultimately show thesis
    using slot.fire_task [OF rd(2) f] c(1) keep(5,6) by (intro that [OF g, of conn' h' w]) simp_all
qed

lemma server_endpoint:
  "echo_endpoint (server_end ww Q) (\<lambda>h c. link_ready h (sv_inner c) (sv_read_waker c))
     (\<lambda>c. content (sv_inner c)) (\<lambda>h c. slot_task h (sv_read_waker c))"
proof (unfold_locales, goal_cases)
  case (1 h c w buf)
  then show ?case
    by (rule read_link_ready [where w = w and buf = buf])
      (auto simp: server_end_def server_poll_read_def read_answer_def)
next
  case (2 h c bs)
  from write_link_ready [OF 2] show ?case
    by (simp add: server_end_def server_poll_write_def sent_bytes_def)
next
  case (3 c)
  show ?case by (simp add: server_end_def server_poll_flush_def)
next
  case (4 h c x xs)
  then show ?case using turn_link_ready [OF 4(1)] by (simp add: server_end_def)
next
  case (5 h c bs)
  then show ?case
    by (rule arrive_link_ready [where bs = bs]) (auto simp: server_end_def server_arrive_def)
qed

lemma client_endpoint:
  "echo_endpoint (client_end ww Q) (\<lambda>h c. link_ready h (cl_inner c) (cl_read_waker c))
     (\<lambda>c. content (cl_inner c)) (\<lambda>h c. slot_task h (cl_read_waker c))"
proof (unfold_locales, goal_cases)
  case (1 h c w buf)
  then show ?case
    by (rule read_link_ready [where w = w and buf = buf])
      (auto simp: client_end_def client_poll_read_def read_answer_def)
next
  case (2 h c bs)
  from write_link_ready [OF 2] show ?case
    by (simp add: client_end_def client_poll_write_def sent_bytes_def)
next
  case (3 c)
  show ?case by (simp add: client_end_def client_poll_flush_def)
next
  case (4 h c x xs)
  then show ?case using turn_link_ready [OF 4(1)] by (simp add: client_end_def)
next
  case (5 h c bs)
  then show ?case
    by (rule arrive_link_ready [where bs = bs]) (auto simp: client_end_def client_arrive_def)
qed

end

sublocale reading \<subseteq> se: echo_endpoint "server_end ww Q" "\<lambda>h c. link_ready h (sv_inner c) (sv_read_waker c)"
  "\<lambda>c. content (sv_inner c)" "\<lambda>h c. slot_task h (sv_read_waker c)"
  by (rule server_endpoint)

sublocale reading \<subseteq> ce: echo_endpoint "client_end ww Q" "\<lambda>h c. link_ready h (cl_inner c) (cl_read_waker c)"
  "\<lambda>c. content (cl_inner c)" "\<lambda>h c. slot_task h (cl_read_waker c)"
  by (rule client_endpoint)

end
