(* ===== verification/Fizz_Link.thy ===== *)
theory Fizz_Link
  imports Fizz_Endpoint
begin

text \<open>
  The conversation of the benchmark: a client task on a \<open>ClientConnection\<close>, a server task on a
  \<open>ServerConnection\<close>, their two event-base threads, and a network without faults that hands over what a
  transport was given, in order and in pieces of any size. All of this interleaves freely; the finer
  interleaving inside one read callback is the subject of \<open>Fizz_Wake\<close>. A task that has ended keeps its
  connection here. Shown: the conversation cannot get stuck, ends within a fixed number of
  steps, and the client reads back what it wrote.
\<close>

section \<open>The system\<close>

record link =
  lk_client :: "ClientConnection echo_side"
  lk_server :: "ServerConnection echo_side"

text \<open>The bytes under way are those given to the transport beyond what has arrived.\<close>

inductive link_step ::
  "(Waker \<Rightarrow> Waker \<Rightarrow> bool) \<Rightarrow> iobq \<Rightarrow> nat \<Rightarrow> link \<Rightarrow> link \<Rightarrow> bool" for ww Q batch_size where
  client_run: "\<not> es_parked (lk_client s) \<Longrightarrow> \<not> ended (es_phase (lk_client s)) \<Longrightarrow>
    link_step ww Q batch_size s
      (s\<lparr>lk_client := client_next batch_size (client_end ww Q) (Waker 0 i) (lk_client s)\<rparr>)"
| server_run: "\<not> es_parked (lk_server s) \<Longrightarrow> \<not> ended (es_phase (lk_server s)) \<Longrightarrow>
    link_step ww Q batch_size s (s\<lparr>lk_server := server_next (server_end ww Q) (Waker 1 i) (lk_server s)\<rparr>)"
| client_turn: "ep_tasks (client_end ww Q) (es_conn (lk_client s)) \<noteq> [] \<Longrightarrow>
    link_step ww Q batch_size s (s\<lparr>lk_client := turn_side (client_end ww Q) (lk_client s)\<rparr>)"
| server_turn: "ep_tasks (server_end ww Q) (es_conn (lk_server s)) \<noteq> [] \<Longrightarrow>
    link_step ww Q batch_size s (s\<lparr>lk_server := turn_side (server_end ww Q) (lk_server s)\<rparr>)"
| to_server: "bs \<noteq> [] \<Longrightarrow>
    drop (es_taken (lk_server s)) (ep_sent (client_end ww Q) (es_conn (lk_client s))) = bs @ rest \<Longrightarrow>
    arrive_side (server_end ww Q) 1 bs (lk_server s) = Some s' \<Longrightarrow>
    link_step ww Q batch_size s (s\<lparr>lk_server := s'\<rparr>)"
| to_client: "bs \<noteq> [] \<Longrightarrow>
    drop (es_taken (lk_client s)) (ep_sent (server_end ww Q) (es_conn (lk_server s))) = bs @ rest \<Longrightarrow>
    arrive_side (client_end ww Q) 0 bs (lk_client s) = Some c' \<Longrightarrow>
    link_step ww Q batch_size s (s\<lparr>lk_client := c'\<rparr>)"

text \<open>Runs of a given number of steps.\<close>

inductive link_run ::
  "(Waker \<Rightarrow> Waker \<Rightarrow> bool) \<Rightarrow> iobq \<Rightarrow> nat \<Rightarrow> link \<Rightarrow> nat \<Rightarrow> link \<Rightarrow> bool" for ww Q batch_size s0 where
  start: "link_run ww Q batch_size s0 0 s0"
| more: "link_run ww Q batch_size s0 n s \<Longrightarrow> link_step ww Q batch_size s s' \<Longrightarrow>
    link_run ww Q batch_size s0 (Suc n) s'"

definition link_start ::
  "nat \<Rightarrow> nat \<Rightarrow> slot_store \<Rightarrow> ClientConnection \<Rightarrow> slot_store \<Rightarrow> ServerConnection \<Rightarrow> link" where
  "link_start batch_size rounds hc c hs s =
     \<lparr>lk_client = echo_start (Sending (replicate batch_size 0x5A)) batch_size rounds hc c,
      lk_server = echo_start (Receiving 0) batch_size rounds hs s\<rparr>"

section \<open>The whole system\<close>

lemma flow_grows: "flow holds sent s \<Longrightarrow> flow holds (sent @ x) s"
  by (simp add: flow_def)

lemma flow_same:
  assumes "flow holds sent s" and "es_taken s' = es_taken s"
    and "es_got s' @ holds (es_conn s') = es_got s @ holds (es_conn s)"
  shows "flow holds sent s'"
  using assms by (simp add: flow_def)

lemma flow_arrives:
  assumes "flow holds sent s" and "drop (es_taken s) sent = bs @ rest"
    and "es_taken s' = es_taken s + length bs" "es_got s' = es_got s" "holds (es_conn s') = holds (es_conn s) @ bs"
  shows "flow holds sent s'"
proof -
  have "length bs \<le> length sent - es_taken s"
    using arg_cong [OF assms(2), of length] by simp
  with assms show ?thesis by (auto simp: flow_def take_add)
qed

text \<open>The counters are bounded.\<close>

lemma rounds_bound:
  fixes b :: nat
  assumes "0 < l" and "l \<le> R"
  shows "b + (R - l) * b \<le> R * b"
proof -
  from assms have "Suc (R - l) \<le> R" by simp
  from mult_le_mono1 [OF this, of b] show ?thesis by simp
qed

lemma client_bounds:
  assumes "client_inv io R b s" and "side_ok io ready holds task t b s"
  shows "length (out_bytes io s) \<le> R * b" "length (es_got s) \<le> R * b" "client_rank R s \<le> 2 * R"
proof -
  have "length (out_bytes io s) \<le> R * b \<and> length (es_got s) \<le> R * b \<and> client_rank R s \<le> 2 * R"
  proof (cases "es_phase s")
    case (Sending bs)
    with assms have "length (out_bytes io s) + length bs = b + (R - es_left s) * b"
      by (auto simp: client_inv_def dest: arg_cong [where f = length])
    with Sending assms rounds_bound [of "es_left s" R b] show ?thesis
      by (auto simp: client_inv_def client_rank_def)
  next
    case (Receiving n)
    with assms rounds_bound [of "es_left s" R b] show ?thesis
      by (auto simp: client_inv_def client_rank_def side_ok_def)
  next
    case (Ended r)
    with assms show ?thesis by (simp add: client_inv_def client_rank_def)
  qed
  then show "length (out_bytes io s) \<le> R * b" "length (es_got s) \<le> R * b" "client_rank R s \<le> 2 * R" by simp_all
qed

lemma server_bounds:
  assumes "server_inv io R b s" and "side_ok io ready holds task t b s"
  shows "length (out_bytes io s) \<le> R * b" "length (es_got s) \<le> R * b" "server_rank R s \<le> 2 * R"
proof -
  have "length (out_bytes io s) \<le> R * b \<and> length (es_got s) \<le> R * b \<and> server_rank R s \<le> 2 * R"
  proof (cases "es_phase s")
    case (Sending bs)
    with assms rounds_bound [of "es_left s" R b] show ?thesis
      by (auto simp: server_inv_def server_rank_def)
  next
    case (Receiving n)
    with assms rounds_bound [of "es_left s" R b] show ?thesis
      by (auto simp: server_inv_def server_rank_def side_ok_def)
  next
    case (Ended r)
    with assms show ?thesis by (simp add: server_inv_def server_rank_def)
  qed
  then show "length (out_bytes io s) \<le> R * b" "length (es_got s) \<le> R * b" "server_rank R s \<le> 2 * R" by simp_all
qed

lemma sent_le_out: "length (ep_sent io (es_conn s)) \<le> length (out_bytes io s)"
  by (simp add: out_bytes_def)

text \<open>Steps from outside leave what the loops count.\<close>

lemma client_same:
  assumes "out_bytes io s' = out_bytes io s" "es_phase s' = es_phase s" "es_left s' = es_left s"
    "es_got s' = es_got s"
  shows "client_inv io R b s' = client_inv io R b s" "client_rank R s' = client_rank R s"
  unfolding client_inv_def client_rank_def assms by simp_all

lemma server_same:
  assumes "out_bytes io s' = out_bytes io s" "es_phase s' = es_phase s" "es_left s' = es_left s"
    "es_got s' = es_got s" "es_buf s' = es_buf s"
  shows "server_inv io R b s' = server_inv io R b s" "server_rank R s' = server_rank R s"
  unfolding server_inv_def server_rank_def assms by simp_all

definition link_progress ::
  "(Waker \<Rightarrow> Waker \<Rightarrow> bool) \<Rightarrow> iobq \<Rightarrow> nat \<Rightarrow> link \<Rightarrow> nat" where
  "link_progress ww Q R s =
     (side_count (client_end ww Q) (lk_client s) + client_rank R (lk_client s))
     + (side_count (server_end ww Q) (lk_server s) + server_rank R (lk_server s))"

lemma batch_unique:
  fixes b :: nat
  assumes "x * b + n = y * b + m" and "n < b" and "m < b"
  shows "x = y \<and> n = m"
proof -
  have "(x * b + n) div b = x" "(y * b + m) div b = y" using assms(2,3) by simp_all
  with assms(1) show ?thesis by simp
qed

context reading
begin

definition link_inv :: "nat \<Rightarrow> nat \<Rightarrow> link \<Rightarrow> bool" where
  "link_inv R b s \<longleftrightarrow>
     ce.ok 0 b (lk_client s) \<and> client_inv (client_end ww Q) R b (lk_client s)
     \<and> se.ok 1 b (lk_server s) \<and> server_inv (server_end ww Q) R b (lk_server s)
     \<and> flow (\<lambda>c. content (cl_inner c)) (ep_sent (server_end ww Q) (es_conn (lk_server s))) (lk_client s)
     \<and> flow (\<lambda>c. content (sv_inner c)) (ep_sent (client_end ww Q) (es_conn (lk_client s))) (lk_server s)"

text \<open>An arrival never overflows the byte counter of the receiving connection.\<close>

lemma arrival_fits:
  assumes "flow holds sent s" and "drop (es_taken s) sent = bs @ rest" and "length sent < 2 ^ 64"
  shows "length (holds (es_conn s)) + length bs < 2 ^ 64"
proof -
  have "length (holds (es_conn s)) \<le> es_taken s"
    using arg_cong [of _ _ length, OF conjunct2 [OF assms(1) [unfolded flow_def]]] by simp
  moreover have "length bs + es_taken s \<le> length sent"
    using arg_cong [OF assms(2), of length] assms(1) by (auto simp: flow_def)
  ultimately show ?thesis using assms(3) by linarith
qed

lemma to_server_fits:
  assumes "link_inv R b s" and "R * b < 2 ^ 64"
    and "drop (es_taken (lk_server s)) (ep_sent (client_end ww Q) (es_conn (lk_client s))) = bs @ rest"
  shows "length (content (sv_inner (es_conn (lk_server s)))) + length bs < 2 ^ 64"
proof (rule arrival_fits [OF _ assms(3)])
  show "flow (\<lambda>c. content (sv_inner c)) (ep_sent (client_end ww Q) (es_conn (lk_client s))) (lk_server s)"
    using assms(1) by (simp add: link_inv_def)
  have "length (out_bytes (client_end ww Q) (lk_client s)) \<le> R * b"
    using assms(1) client_bounds(1) by (auto simp: link_inv_def)
  with assms(2) sent_le_out [of "client_end ww Q" "lk_client s"]
  show "length (ep_sent (client_end ww Q) (es_conn (lk_client s))) < 2 ^ 64" by linarith
qed

lemma to_client_fits:
  assumes "link_inv R b s" and "R * b < 2 ^ 64"
    and "drop (es_taken (lk_client s)) (ep_sent (server_end ww Q) (es_conn (lk_server s))) = bs @ rest"
  shows "length (content (cl_inner (es_conn (lk_client s)))) + length bs < 2 ^ 64"
proof (rule arrival_fits [OF _ assms(3)])
  show "flow (\<lambda>c. content (cl_inner c)) (ep_sent (server_end ww Q) (es_conn (lk_server s))) (lk_client s)"
    using assms(1) by (simp add: link_inv_def)
  have "length (out_bytes (server_end ww Q) (lk_server s)) \<le> R * b"
    using assms(1) server_bounds(1) by (auto simp: link_inv_def)
  with assms(2) sent_le_out [of "server_end ww Q" "lk_server s"]
  show "length (ep_sent (server_end ww Q) (es_conn (lk_server s))) < 2 ^ 64" by linarith
qed

text \<open>What every step has to do: keep the invariant and move a counter.\<close>

definition keeps :: "nat \<Rightarrow> nat \<Rightarrow> link \<Rightarrow> link \<Rightarrow> bool" where
  "keeps R b s s' \<longleftrightarrow> link_inv R b s' \<and> link_progress ww Q R s < link_progress ww Q R s'"

lemma client_run_keeps:
  assumes "link_inv R b s" and "\<not> es_parked (lk_client s)" and "\<not> ended (es_phase (lk_client s))"
  shows "keeps R b s (s\<lparr>lk_client := client_next b (client_end ww Q) (Waker 0 i) (lk_client s)\<rparr>)"
proof -
  from assms(1) have ok: "ce.ok (wk_task (Waker 0 i)) b (lk_client s)" and inv: "client_inv (client_end ww Q) R b (lk_client s)"
    by (simp_all add: link_inv_def)
  from ce.client_next_effect [OF ok inv assms(2,3)] assms(1) show ?thesis
    unfolding keeps_def link_inv_def link_progress_def by (auto intro: flow_same)
qed

lemma server_run_keeps:
  assumes "link_inv R b s" and "\<not> es_parked (lk_server s)" and "\<not> ended (es_phase (lk_server s))"
  shows "keeps R b s (s\<lparr>lk_server := server_next (server_end ww Q) (Waker 1 i) (lk_server s)\<rparr>)"
proof -
  from assms(1) have ok: "se.ok (wk_task (Waker 1 i)) b (lk_server s)" and inv: "server_inv (server_end ww Q) R b (lk_server s)"
    by (simp_all add: link_inv_def)
  from se.server_next_effect [OF ok inv assms(2,3)] assms(1) show ?thesis
    unfolding keeps_def link_inv_def link_progress_def by (auto intro: flow_same)
qed

lemma client_turn_keeps:
  assumes "link_inv R b s" and "ep_tasks (client_end ww Q) (es_conn (lk_client s)) \<noteq> []"
  shows "keeps R b s (s\<lparr>lk_client := turn_side (client_end ww Q) (lk_client s)\<rparr>)"
proof -
  from assms(1) have ok: "ce.ok 0 b (lk_client s)" by (simp add: link_inv_def)
  note e = ce.turn_effect [OF ok assms(2)]
  from e(5) obtain x where "x \<noteq> []" "ep_sent (client_end ww Q) (es_conn (turn_side (client_end ww Q) (lk_client s))) =
      ep_sent (client_end ww Q) (es_conn (lk_client s)) @ x" by blast
  with e assms(1) show ?thesis unfolding keeps_def link_inv_def link_progress_def
    by (auto simp: client_same [OF e(2,3,8,9)] side_count_def intro: flow_same flow_grows)
qed

lemma server_turn_keeps:
  assumes "link_inv R b s" and "ep_tasks (server_end ww Q) (es_conn (lk_server s)) \<noteq> []"
  shows "keeps R b s (s\<lparr>lk_server := turn_side (server_end ww Q) (lk_server s)\<rparr>)"
proof -
  from assms(1) have ok: "se.ok 1 b (lk_server s)" by (simp add: link_inv_def)
  note e = se.turn_effect [OF ok assms(2)]
  from e(5) obtain x where "x \<noteq> []" "ep_sent (server_end ww Q) (es_conn (turn_side (server_end ww Q) (lk_server s))) =
      ep_sent (server_end ww Q) (es_conn (lk_server s)) @ x" by blast
  with e assms(1) show ?thesis unfolding keeps_def link_inv_def link_progress_def
    by (auto simp: server_same [OF e(2,3,8,9,10)] side_count_def intro: flow_same flow_grows)
qed

lemma to_server_keeps:
  assumes "link_inv R b s" and "R * b < 2 ^ 64" and "bs \<noteq> []"
    and "drop (es_taken (lk_server s)) (ep_sent (client_end ww Q) (es_conn (lk_client s))) = bs @ rest"
    and "arrive_side (server_end ww Q) 1 bs (lk_server s) = Some t"
  shows "keeps R b s (s\<lparr>lk_server := t\<rparr>)"
proof -
  from assms(1) have ok: "se.ok 1 b (lk_server s)"
    and fl: "flow (\<lambda>c. content (sv_inner c)) (ep_sent (client_end ww Q) (es_conn (lk_client s))) (lk_server s)"
    by (simp_all add: link_inv_def)
  note fits = to_server_fits [OF assms(1,2,4)]
  from se.arrive_effect [OF ok fits] assms(5) have e: "se.ok 1 b t"
      "out_bytes (server_end ww Q) t = out_bytes (server_end ww Q) (lk_server s)" "es_phase t = es_phase (lk_server s)"
      "es_left t = es_left (lk_server s)" "es_got t = es_got (lk_server s)" "es_buf t = es_buf (lk_server s)"
      "ep_sent (server_end ww Q) (es_conn t) = ep_sent (server_end ww Q) (es_conn (lk_server s))"
      "content (sv_inner (es_conn t)) = content (sv_inner (es_conn (lk_server s))) @ bs"
      "es_taken t = es_taken (lk_server s) + length bs" by auto
  show ?thesis
    using assms(1) e(1,7) flow_arrives [OF fl assms(4) e(9,5,8)] se.arrive_count [OF ok fits assms(3,5)]
    unfolding keeps_def link_inv_def link_progress_def by (simp add: server_same [OF e(2,3,4,5,6)])
qed

lemma to_client_keeps:
  assumes "link_inv R b s" and "R * b < 2 ^ 64" and "bs \<noteq> []"
    and "drop (es_taken (lk_client s)) (ep_sent (server_end ww Q) (es_conn (lk_server s))) = bs @ rest"
    and "arrive_side (client_end ww Q) 0 bs (lk_client s) = Some t"
  shows "keeps R b s (s\<lparr>lk_client := t\<rparr>)"
proof -
  from assms(1) have ok: "ce.ok 0 b (lk_client s)"
    and fl: "flow (\<lambda>c. content (cl_inner c)) (ep_sent (server_end ww Q) (es_conn (lk_server s))) (lk_client s)"
    by (simp_all add: link_inv_def)
  note fits = to_client_fits [OF assms(1,2,4)]
  from ce.arrive_effect [OF ok fits] assms(5) have e: "ce.ok 0 b t"
      "out_bytes (client_end ww Q) t = out_bytes (client_end ww Q) (lk_client s)" "es_phase t = es_phase (lk_client s)"
      "es_left t = es_left (lk_client s)" "es_got t = es_got (lk_client s)" "es_buf t = es_buf (lk_client s)"
      "ep_sent (client_end ww Q) (es_conn t) = ep_sent (client_end ww Q) (es_conn (lk_client s))"
      "content (cl_inner (es_conn t)) = content (cl_inner (es_conn (lk_client s))) @ bs"
      "es_taken t = es_taken (lk_client s) + length bs" by auto
  show ?thesis
    using assms(1) e(1,7) flow_arrives [OF fl assms(4) e(9,5,8)] ce.arrive_count [OF ok fits assms(3,5)]
    unfolding keeps_def link_inv_def link_progress_def by (simp add: client_same [OF e(2,3,4,5)])
qed

lemma step_keeps:
  assumes "link_step ww Q b s s'" and "link_inv R b s" and "R * b < 2 ^ 64"
  shows "link_inv R b s' \<and> link_progress ww Q R s < link_progress ww Q R s'"
  unfolding keeps_def [symmetric] using assms
  by (cases rule: link_step.cases)
    (blast intro: client_run_keeps server_run_keeps client_turn_keeps server_turn_keeps
      to_server_keeps to_client_keeps)+

lemma progress_bound:
  assumes "link_inv R b s"
  shows "link_progress ww Q R s \<le> 10 * (R * b) + 4 * R + 2"
proof -
  from assms have ok: "ce.ok 0 b (lk_client s)" "se.ok 1 b (lk_server s)"
    and inv: "client_inv (client_end ww Q) R b (lk_client s)" "server_inv (server_end ww Q) R b (lk_server s)"
    and fl: "es_taken (lk_client s) \<le> length (ep_sent (server_end ww Q) (es_conn (lk_server s)))"
      "es_taken (lk_server s) \<le> length (ep_sent (client_end ww Q) (es_conn (lk_client s)))"
    by (simp_all add: link_inv_def flow_def)
  note c = client_bounds [OF inv(1) ok(1)] and v = server_bounds [OF inv(2) ok(2)]
  have sent: "length (ep_sent (client_end ww Q) (es_conn (lk_client s))) \<le> R * b"
      "length (ep_sent (server_end ww Q) (es_conn (lk_server s))) \<le> R * b"
    using c(1) v(1) sent_le_out [of "client_end ww Q" "lk_client s"] sent_le_out [of "server_end ww Q" "lk_server s"]
    by linarith+
  have "side_count (client_end ww Q) (lk_client s) \<le> 5 * (R * b) + 1"
    using c(1,2) sent fl(1) by (simp add: side_count_def)
  moreover have "side_count (server_end ww Q) (lk_server s) \<le> 5 * (R * b) + 1"
    using v(1,2) sent fl(2) by (simp add: side_count_def)
  ultimately show ?thesis using c(3) v(3) by (simp add: link_progress_def)
qed

lemma run_keeps:
  assumes "link_run ww Q b s0 n s" and "link_inv R b s0" and "R * b < 2 ^ 64"
  shows "link_inv R b s \<and> link_progress ww Q R s0 + n \<le> link_progress ww Q R s"
  using assms
proof (induction rule: link_run.induct)
  case start
  then show ?case by simp
next
  case (more n s s')
  then show ?case using step_keeps [OF more.hyps(2)] by fastforce
qed

lemma client_can_receive:
  assumes "link_inv R b s" and "R * b < 2 ^ 64"
    and "drop (es_taken (lk_client s)) (ep_sent (server_end ww Q) (es_conn (lk_server s))) \<noteq> []"
  shows "\<exists>s'. link_step ww Q b s s'"
proof -
  let ?bs = "drop (es_taken (lk_client s)) (ep_sent (server_end ww Q) (es_conn (lk_server s)))"
  from assms(1) have "ce.ok 0 b (lk_client s)" by (simp add: link_inv_def)
  from ce.arrive_effect [OF this to_client_fits [OF assms(1,2), of ?bs "[]"]] obtain t where
    "arrive_side (client_end ww Q) 0 ?bs (lk_client s) = Some t" by auto
  with link_step.to_client [of ?bs s ww Q "[]" t b] assms(3) show ?thesis by auto
qed

lemma server_can_receive:
  assumes "link_inv R b s" and "R * b < 2 ^ 64"
    and "drop (es_taken (lk_server s)) (ep_sent (client_end ww Q) (es_conn (lk_client s))) \<noteq> []"
  shows "\<exists>s'. link_step ww Q b s s'"
proof -
  let ?bs = "drop (es_taken (lk_server s)) (ep_sent (client_end ww Q) (es_conn (lk_client s)))"
  from assms(1) have "se.ok 1 b (lk_server s)" by (simp add: link_inv_def)
  from se.arrive_effect [OF this to_server_fits [OF assms(1,2), of ?bs "[]"]] obtain t where
    "arrive_side (server_end ww Q) 1 ?bs (lk_server s) = Some t" by auto
  with link_step.to_server [of ?bs s ww Q "[]" t b] assms(3) show ?thesis by auto
qed

text \<open>Nothing is under way when the system cannot move.\<close>

lemma stuck_quiet:
  assumes "link_inv R b s" and "R * b < 2 ^ 64" and "\<And>s'. \<not> link_step ww Q b s s'"
  shows "es_parked (lk_client s) \<or> ended (es_phase (lk_client s))"
    and "es_parked (lk_server s) \<or> ended (es_phase (lk_server s))"
    and "es_got (lk_client s) @ content (cl_inner (es_conn (lk_client s))) = out_bytes (server_end ww Q) (lk_server s)"
    and "es_got (lk_server s) @ content (sv_inner (es_conn (lk_server s))) = out_bytes (client_end ww Q) (lk_client s)"
proof -
  from assms(1) have fl: "flow (\<lambda>c. content (cl_inner c)) (ep_sent (server_end ww Q) (es_conn (lk_server s))) (lk_client s)"
      "flow (\<lambda>c. content (sv_inner c)) (ep_sent (client_end ww Q) (es_conn (lk_client s))) (lk_server s)"
    by (simp_all add: link_inv_def)
  show "es_parked (lk_client s) \<or> ended (es_phase (lk_client s))"
    using assms(3) link_step.client_run by blast
  show "es_parked (lk_server s) \<or> ended (es_phase (lk_server s))"
    using assms(3) link_step.server_run by blast
  have q: "ep_tasks (client_end ww Q) (es_conn (lk_client s)) = []"
      "ep_tasks (server_end ww Q) (es_conn (lk_server s)) = []"
    using assms(3) link_step.client_turn link_step.server_turn by blast+
  have "drop (es_taken (lk_client s)) (ep_sent (server_end ww Q) (es_conn (lk_server s))) = []"
    using client_can_receive [OF assms(1,2)] assms(3) by blast
  then show "es_got (lk_client s) @ content (cl_inner (es_conn (lk_client s))) = out_bytes (server_end ww Q) (lk_server s)"
    using fl(1) q(2) by (simp add: flow_def out_bytes_def)
  have "drop (es_taken (lk_server s)) (ep_sent (client_end ww Q) (es_conn (lk_client s))) = []"
    using server_can_receive [OF assms(1,2)] assms(3) by blast
  then show "es_got (lk_server s) @ content (sv_inner (es_conn (lk_server s))) = out_bytes (client_end ww Q) (lk_client s)"
    using fl(2) q(1) by (simp add: flow_def out_bytes_def)
qed

lemma client_parked_counts:
  assumes "link_inv R b s" and "es_parked (lk_client s)"
  obtains r n where "r < R" "n < b" "length (out_bytes (client_end ww Q) (lk_client s)) = Suc r * b"
    "length (es_got (lk_client s)) = r * b + n" "content (cl_inner (es_conn (lk_client s))) = []"
proof -
  from assms(1) have ok: "ce.ok 0 b (lk_client s)" and inv: "client_inv (client_end ww Q) R b (lk_client s)"
    by (simp_all add: link_inv_def)
  from ok assms(2) obtain n where "n < b" "es_phase (lk_client s) = Receiving n" by (auto simp: side_ok_def)
  with ok assms(2) inv show thesis
    by (intro that [of "R - es_left (lk_client s)" n]) (auto simp: side_ok_def client_inv_def)
qed

lemma server_parked_counts:
  assumes "link_inv R b s" and "es_parked (lk_server s)"
  obtains r n where "r < R" "n < b" "length (out_bytes (server_end ww Q) (lk_server s)) = r * b"
    "length (es_got (lk_server s)) = r * b + n" "content (sv_inner (es_conn (lk_server s))) = []"
proof -
  from assms(1) have ok: "se.ok 1 b (lk_server s)" and inv: "server_inv (server_end ww Q) R b (lk_server s)"
    by (simp_all add: link_inv_def)
  from ok assms(2) obtain n where "n < b" "es_phase (lk_server s) = Receiving n" by (auto simp: side_ok_def)
  with ok assms(2) inv show thesis
    by (intro that [of "R - es_left (lk_server s)" n]) (auto simp: side_ok_def server_inv_def)
qed

lemma ended_counts:
  assumes "link_inv R b s"
  shows "ended (es_phase (lk_client s)) \<Longrightarrow> length (out_bytes (client_end ww Q) (lk_client s)) = R * b"
    and "ended (es_phase (lk_server s)) \<Longrightarrow> length (out_bytes (server_end ww Q) (lk_server s)) = R * b"
  using assms by (cases "es_phase (lk_client s)"; cases "es_phase (lk_server s)";
      simp add: link_inv_def client_inv_def server_inv_def)+

text \<open>The system cannot be stuck with a task that has not ended: the byte counts would disagree.\<close>

lemma not_stuck:
  assumes "link_inv R b s" and "R * b < 2 ^ 64"
    and "\<not> (ended (es_phase (lk_client s)) \<and> ended (es_phase (lk_server s)))"
  shows "\<exists>s'. link_step ww Q b s s'"
proof (rule ccontr)
  assume "\<nexists>s'. link_step ww Q b s s'"
  then have "\<And>s'. \<not> link_step ww Q b s s'" by blast
  note q = stuck_quiet [OF assms(1,2) this]
  note len = arg_cong [OF q(3), of length] arg_cong [OF q(4), of length]
  show False
  proof (cases "es_parked (lk_client s)")
    case True
    then obtain r n where c: "r < R" "n < b" "length (out_bytes (client_end ww Q) (lk_client s)) = Suc r * b"
        "length (out_bytes (server_end ww Q) (lk_server s)) = r * b + n"
      using len(1) by (auto elim: client_parked_counts [OF assms(1)])
    from q(2) show False
    proof
      assume "es_parked (lk_server s)"
      then obtain k m where "m < b" "length (out_bytes (server_end ww Q) (lk_server s)) = k * b"
          "length (out_bytes (client_end ww Q) (lk_client s)) = k * b + m"
        using len(2) by (auto elim: server_parked_counts [OF assms(1)])
      with c show False using batch_unique [of k b 0 r n] by simp
    next
      assume "ended (es_phase (lk_server s))"
      with c show False using ended_counts(2) [OF assms(1)] batch_unique [of R b 0 r n] by simp
    qed
  next
    case False
    with q(1,2) assms(3) have "ended (es_phase (lk_client s))" and "es_parked (lk_server s)" by auto
    then obtain k m where "m < b" "k < R" "R * b = k * b + m"
      using len(2) ended_counts(1) [OF assms(1)] by (auto elim: server_parked_counts [OF assms(1)])
    then show False using batch_unique [of R b 0 k m] by simp
  qed
qed

text \<open>Whatever the client has read is filler it wrote.\<close>

lemma got_filler:
  assumes "link_inv R b s"
  shows "es_got (lk_client s) = replicate (length (es_got (lk_client s))) 0x5A"
proof -
  from assms have "client_inv (client_end ww Q) R b (lk_client s)" "server_inv (server_end ww Q) R b (lk_server s)"
    and fl: "es_got (lk_client s) @ content (cl_inner (es_conn (lk_client s))) =
        take (es_taken (lk_client s)) (ep_sent (server_end ww Q) (es_conn (lk_server s)))"
      "es_got (lk_server s) @ content (sv_inner (es_conn (lk_server s))) =
        take (es_taken (lk_server s)) (ep_sent (client_end ww Q) (es_conn (lk_client s)))"
    by (simp_all add: link_inv_def flow_def)
  then have "set (out_bytes (client_end ww Q) (lk_client s)) \<subseteq> {0x5A}"
    and "set (out_bytes (server_end ww Q) (lk_server s)) \<subseteq> set (es_got (lk_server s))"
    by (auto simp: client_inv_def server_inv_def split: echo_phase.splits dest!: arg_cong [where f = set])
  moreover have "set (es_got (lk_server s)) \<subseteq> set (ep_sent (client_end ww Q) (es_conn (lk_client s)))"
    "set (es_got (lk_client s)) \<subseteq> set (ep_sent (server_end ww Q) (es_conn (lk_server s)))"
    using arg_cong [OF fl(1), of set] arg_cong [OF fl(2), of set] by (auto dest: in_set_takeD)
  ultimately have "set (es_got (lk_client s)) \<subseteq> {0x5A}"
    by (simp add: out_bytes_def) (meson subset_trans)
  then have "\<forall>x \<in> set (es_got (lk_client s)). x = 0x5A" by blast
  then show ?thesis by (metis replicate_length_same)
qed

lemma ended_well:
  assumes "link_inv R b s" and "ended (es_phase (lk_client s))" and "ended (es_phase (lk_server s))"
  shows "es_phase (lk_client s) = Ended (Inr ()) \<and> es_phase (lk_server s) = Ended (Inr ())
    \<and> es_got (lk_client s) = replicate (R * b) 0x5A"
proof -
  have "es_phase (lk_client s) = Ended (Inr ())" "es_phase (lk_server s) = Ended (Inr ())"
      "length (es_got (lk_client s)) = R * b"
    using assms by (cases "es_phase (lk_client s)"; cases "es_phase (lk_server s)";
        simp add: link_inv_def client_inv_def server_inv_def)+
  with got_filler [OF assms(1)] show ?thesis by metis
qed

end

section \<open>Fresh connections\<close>

text \<open>Ready, and nothing read, written or queued yet: what \<open>connect\<close> and \<open>accept\<close> return.\<close>

definition link_fresh :: "slot_store \<Rightarrow> 'a FizzServerConnection_scheme \<Rightarrow> ReadWaker \<Rightarrow> bool" where
  "link_fresh h conn rw \<longleftrightarrow>
     link_ready h conn rw \<and> content conn = [] \<and> sent_bytes conn = [] \<and> evb_tasks conn = []"

context reading
begin

lemma start_inv:
  assumes "link_fresh hc (cl_inner c) (cl_read_waker c)" and "link_fresh hs (sv_inner s) (sv_read_waker s)"
  shows "link_inv R b (link_start b R hc c hs s)"
  using assms
  by (auto simp: link_inv_def link_start_def echo_start_def side_ok_def client_inv_def server_inv_def flow_def
      out_bytes_def link_fresh_def client_end_def server_end_def)

lemma run_bounded:
  assumes "link_run ww Q b s0 n s" and "link_inv R b s0" and "R * b < 2 ^ 64"
  shows "n \<le> 10 * (R * b) + 4 * R + 2"
  using run_keeps [OF assms] progress_bound [of R b s] by linarith

lemma run_done:
  assumes "link_run ww Q b s0 n s" and "link_inv R b s0" and "R * b < 2 ^ 64"
    and "\<nexists>s'. link_step ww Q b s s'"
  shows "es_phase (lk_client s) = Ended (Inr ()) \<and> es_phase (lk_server s) = Ended (Inr ())
    \<and> es_got (lk_client s) = replicate (R * b) 0x5A"
  using run_keeps [OF assms(1-3)] not_stuck [of R b s] ended_well [of R b s] assms(3,4) by blast

text \<open>Since runs are bounded, there is one that cannot be continued.\<close>

lemma maximal_run:
  assumes "link_inv R b s0" and "R * b < 2 ^ 64"
  shows "\<exists>n s. link_run ww Q b s0 n s \<and> (\<nexists>s'. link_step ww Q b s s')"
proof (rule ccontr)
  assume *: "\<not> ?thesis"
  have "\<exists>s. link_run ww Q b s0 n s" for n
  proof (induction n)
    case 0
    show ?case using link_run.start by blast
  next
    case (Suc n)
    with * show ?case using link_run.more by blast
  qed
  from this [of "Suc (10 * (R * b) + 4 * R + 2)"] run_bounded [OF _ assms] show False by fastforce
qed

end

lemma connect_fresh:
  assumes "hs_event env = Some (HandshakeSuccess cert)"
    and "to_value (connect K env h self hostname) = Returns (Inr c)"
  shows "link_fresh (to_store (connect K env h self hostname)) (cl_inner c) (cl_read_waker c)"
proof -
  from assms connect_ok_iff [of env K h self hostname] obtain raw where raw: "into_std env = Inr raw" "join_error env = None"
    "x509_store_new K" "x509_store_load_locations K (cx_caCertPath (ctc_inner self))" "newSocket K raw = Inr ()"
    and acc: "context_accepts K (ctc_inner self) cert" by auto
  then obtain conn where conn: "client_connect K (ctc_inner self) raw hostname = (Inr conn, True)"
    by (auto simp: client_connect_iff)
  have "readable (set_server_read_waker e rw) = readable e" for e :: FizzClientConnection and rw
    by (simp add: readable_def set_server_read_waker_def conn_inv_def content_def)
  with connect_accepted [OF raw(1,2) conn assms(1) acc, of h] assms(2)
    client_established_ready [of "ctc_inner self" raw hostname]
  show ?thesis
    by (auto simp: link_fresh_def link_ready_def clone_for_cpp_def slot_ok_def)
      (simp_all add: set_server_read_waker_def sent_bytes_def client_established_def client_started_def tr_do_def)
qed

lemma accept_fresh:
  assumes "hs_event env = Some (HandshakeSuccess cert)"
    and "to_value (accept K (Inr env) h self) = Returns (Inr s)"
  shows "link_fresh (to_store (accept K (Inr env) h self)) (sv_inner s) (sv_read_waker s)"
proof -
  from assms(2) obtain raw where raw: "into_std env = Inr raw" "join_error env = None"
    by (cases "into_std env"; cases "join_error env")
      (auto simp: accept_def accept_from_stream_def take_raw_fd_def give_up_def)
  moreover obtain conn owned where conn: "server_accept_connection K (stc_inner self) raw = (Inr conn, owned)"
  proof (cases "server_accept_connection K (stc_inner self) raw")
    case (Pair r owned)
    with assms(2) raw that show ?thesis
      by (cases r) (auto simp: accept_def accept_from_stream_def take_raw_fd_def give_up_def)
  qed
  have "readable (set_server_read_waker e rw) = readable e" for e :: FizzServerConnection and rw
    by (simp add: readable_def set_server_read_waker_def conn_inv_def content_def)
  with accept_succeeded [OF raw conn assms(1), of h] assms(2) server_established_ready [of raw]
  show ?thesis
    by (auto simp: accept_def link_fresh_def link_ready_def clone_for_cpp_def slot_ok_def)
      (simp_all add: set_server_read_waker_def sent_bytes_def server_established_def server_started_def
        blank_connection_def tr_do_def)
qed

section \<open>A concrete instance\<close>

definition link_connect :: "(ClientConnection, FizzClientConnection) tls_outcome" where
  "link_connect = connect (sample_tls 100 900)
     (sample_env (HandshakeSuccess (Some (PeerDelegatedCredential () sample_peer)))) empty_slots sample_context ''host''"

definition link_accept :: "(ServerConnection, FizzServerConnection) tls_outcome" where
  "link_accept = accept (sample_tls 100 900) (Inr (sample_env (HandshakeSuccess None))) empty_slots
     \<lparr>stc_inner = \<lparr>sx_ctx = tls13_config False, sx_certs = DefaultCertManager (), sx_alpnProtocols = []\<rparr>\<rparr>"

lemma link_connect_value: "\<exists>c. to_value link_connect = Returns (Inr c)"
  unfolding link_connect_def by (subst connect_ok_iff) (simp_all add: sample_context_accepts)

lemma link_accept_value: "\<exists>s. to_value link_accept = Returns (Inr s)"
proof -
  let ?self = "\<lparr>stc_inner = \<lparr>sx_ctx = tls13_config False, sx_certs = DefaultCertManager (), sx_alpnProtocols = []\<rparr>\<rparr>"
  obtain conn where "server_accept_connection (sample_tls 100 900) (stc_inner ?self) 7 = (Inr conn, True)"
    by (auto simp: server_accept_connection_iff)
  from accept_succeeded [OF sample_env_fields(1,2) this sample_env_fields(3), of None empty_slots] show ?thesis
    by (simp add: link_accept_def accept_def)
qed

lemma link_sample:
  obtains c s n st where "to_value link_connect = Returns (Inr c)" "to_value link_accept = Returns (Inr s)"
    "link_fresh (to_store link_connect) (cl_inner c) (cl_read_waker c)"
    "link_fresh (to_store link_accept) (sv_inner s) (sv_read_waker s)"
    "link_run (=) block_queue 2 (link_start 2 3 (to_store link_connect) c (to_store link_accept) s) n st"
    "\<nexists>st'. link_step (=) block_queue 2 st st'"
proof -
  obtain c s where v: "to_value link_connect = Returns (Inr c)" "to_value link_accept = Returns (Inr s)"
    using link_connect_value link_accept_value by blast
  have fresh: "link_fresh (to_store link_connect) (cl_inner c) (cl_read_waker c)"
    "link_fresh (to_store link_accept) (sv_inner s) (sv_read_waker s)"
    using connect_fresh [OF sample_env_fields(3) v(1) [unfolded link_connect_def]]
      accept_fresh [OF sample_env_fields(3) v(2) [unfolded link_accept_def]]
    by (simp_all add: link_connect_def link_accept_def)
  have "(3 :: nat) * 2 < 2 ^ 64" by simp
  from block_reading.maximal_run [OF block_reading.start_inv [OF fresh] this] that v fresh
  show thesis by blast
qed

section \<open>Properties\<close>

text \<open>C2. The benchmark's conversation over the library's connections completes. Let the client loop run on
  a connection that \<open>connect\<close> has returned and the server loop on one that \<open>accept\<close> has returned, with the
  same batch size and number of rounds. However the two tasks, the two event-base threads and the arrival of
  bytes are interleaved, a run that cannot go on has both loops ended without an error, and the client has read back
  exactly the bytes it wrote: no wake-up, no queued write and no byte is lost on the way.\<close>

theorem echo_run_completes:
  assumes "iobuf_queue Q" and "will_wake_sound ww" and "rounds * batch_size < 2 ^ 64"
    and "hs_event cenv = Some (HandshakeSuccess cert)"
    and "to_value (connect K cenv hc cctx hostname) = Returns (Inr c)"
    and "hs_event senv = Some (HandshakeSuccess cert')"
    and "to_value (accept K (Inr senv) hs sctx) = Returns (Inr s)"
    and "link_run ww Q batch_size
      (link_start batch_size rounds (to_store (connect K cenv hc cctx hostname)) c
         (to_store (accept K (Inr senv) hs sctx)) s) n st"
    and "\<nexists>st'. link_step ww Q batch_size st st'"
  shows "es_phase (lk_client st) = Ended (Inr ()) \<and> es_phase (lk_server st) = Ended (Inr ())
    \<and> es_got (lk_client st) = replicate (rounds * batch_size) 0x5A"
proof -
  have "reading Q ww" using assms(1,2) by (simp add: reading_def reading_axioms_def)
  from reading.run_done [OF this assms(8) reading.start_inv [OF this connect_fresh [OF assms(4,5)]
        accept_fresh [OF assms(6,7)]] assms(3,9)] show ?thesis .
qed

theorem echo_run_completes_witness:
  "\<exists>c s n st. link_run (=) block_queue 2 (link_start 2 3 (to_store link_connect) c (to_store link_accept) s) n st
    \<and> es_phase (lk_client st) = Ended (Inr ()) \<and> es_phase (lk_server st) = Ended (Inr ())
    \<and> es_got (lk_client st) = replicate 6 0x5A"
proof (rule link_sample)
  fix c s n st
  assume v: "to_value link_connect = Returns (Inr c)" "to_value link_accept = Returns (Inr s)"
    and run: "link_run (=) block_queue 2 (link_start 2 3 (to_store link_connect) c (to_store link_accept) s) n st"
    and stop: "\<nexists>st'. link_step (=) block_queue 2 st st'"
  have "(3 :: nat) * 2 < 2 ^ 64" by simp
  from echo_run_completes [OF block.iobuf_queue_axioms will_wake_sound_eq this
      sample_env_fields(3) v(1) [unfolded link_connect_def] sample_env_fields(3) v(2) [unfolded link_accept_def]
      run [unfolded link_connect_def link_accept_def] stop] run
  show ?thesis by (intro exI [of _ c] exI [of _ s] exI [of _ n] exI [of _ st]) simp
qed

text \<open>C20. The conversation always stops: from two fresh connections no run of tasks, event-base threads and
  network has more than \<open>10 R b + 4 R + 2\<close> steps for \<open>R\<close> rounds of \<open>b\<close> bytes.\<close>

theorem echo_run_bounded:
  assumes "iobuf_queue Q" and "will_wake_sound ww" and "rounds * batch_size < 2 ^ 64"
    and "link_fresh hc (cl_inner c) (cl_read_waker c)" and "link_fresh hs (sv_inner s) (sv_read_waker s)"
    and "link_run ww Q batch_size (link_start batch_size rounds hc c hs s) n st"
  shows "n \<le> 10 * (rounds * batch_size) + 4 * rounds + 2"
proof -
  have "reading Q ww" using assms(1,2) by (simp add: reading_def reading_axioms_def)
  from reading.run_bounded [OF this assms(6) reading.start_inv [OF this assms(4,5)] assms(3)] show ?thesis .
qed

theorem echo_run_bounded_witness:
  "\<exists>c s n st. link_run (=) block_queue 2 (link_start 2 3 (to_store link_connect) c (to_store link_accept) s) n st
    \<and> n \<le> 74 \<and> \<not> (\<exists>st'. link_step (=) block_queue 2 st st')"
proof (rule link_sample)
  fix c s n st
  assume fresh: "link_fresh (to_store link_connect) (cl_inner c) (cl_read_waker c)"
      "link_fresh (to_store link_accept) (sv_inner s) (sv_read_waker s)"
    and run: "link_run (=) block_queue 2 (link_start 2 3 (to_store link_connect) c (to_store link_accept) s) n st"
    and stop: "\<nexists>st'. link_step (=) block_queue 2 st st'"
  have "(3 :: nat) * 2 < 2 ^ 64" by simp
  from echo_run_bounded [OF block.iobuf_queue_axioms will_wake_sound_eq this fresh run] run stop
  show ?thesis by (intro exI [of _ c] exI [of _ s] exI [of _ n] exI [of _ st]) simp
qed

end
