(* ===== verification/Fizz_Transfer.thy ===== *)
theory Fizz_Transfer
  imports Fizz_Link
begin

text \<open>
  One message from a client to a server, as the demo (\<open>src/demo/fizz-rs/src\<close>) sends it: the client task writes some
  pieces, flushes and shuts down, the server task reads until the end of the stream, as \<open>read_to_string\<close> does.
  (What the demo's server makes of the bytes is in \<open>Fizz_Examples\<close>.) Both tasks, the client's event-base thread,
  the socket, the arrival of bytes, the end of the stream and, where allowed, failed writes at the client and a failed read
  at the server interleave freely. The socket holds a bounded number of bytes; what it does not take at once waits in the
  transport for the event-base thread, which \<open>close\<close> stops. Shown: a message that fits the socket arrives
  whole with its end; of a longer one the rest may never leave; after a failure the server has read a
  beginning of the message, and is told that the stream has ended all the same.
\<close>

section \<open>The state\<close>

datatype writer = Sends "u8 list list" | ShutDown | GaveUp string

datatype network = Live | PeerClosed | Broken

text \<open>
  Of the bytes given to the client's transport the first \<open>tf_out\<close> have left it for the socket and the first \<open>tf_taken\<close> have
  arrived.
\<close>

record transfer =
  tf_client :: ClientConnection
  tf_writer :: writer
  tf_out :: nat
  tf_server :: ServerConnection
  tf_store :: slot_store
  tf_reader :: "(string + unit) option"
  tf_parked :: bool
  tf_taken :: nat
  tf_got :: "u8 list"
  tf_net :: network

definition was_closed :: "'a FizzServerConnection_scheme \<Rightarrow> bool" where
  "was_closed conn \<longleftrightarrow> (case transport conn of None \<Rightarrow> False | Some calls \<Rightarrow> TrClose \<in> set calls)"

definition gone :: "'a FizzServerConnection_scheme \<Rightarrow> bool" where
  "gone conn \<longleftrightarrow> (case transport conn of None \<Rightarrow> False | Some calls \<Rightarrow> TrCloseNow \<in> set calls)"

section \<open>The socket\<close>

text \<open>
  \<open>writeChain\<close> tries to write at once when nothing waits before it; the socket takes what it has room for. The pair is
  the number of bytes given to the transport and the number of those that have left.
\<close>

definition hand_over :: "nat \<Rightarrow> nat \<Rightarrow> u8 list \<Rightarrow> nat \<times> nat \<Rightarrow> nat \<times> nat" where
  "hand_over room taken b p =
     (case p of (given, out) \<Rightarrow>
        (given + length b, if out = given then out + min (length b) (taken + room - out) else out))"

definition out_after :: "nat \<Rightarrow> transfer \<Rightarrow> u8 list list \<Rightarrow> nat" where
  "out_after room s bs =
     snd (fold (hand_over room (tf_taken s)) bs (length (sent_bytes (cl_inner (tf_client s))), tf_out s))"

section \<open>The two tasks\<close>

text \<open>
  One poll of the client: of \<open>write_all\<close> on the next piece, or of \<open>flush\<close> and \<open>shutdown\<close> after the last. \<open>close\<close> first
  runs the writes that are queued, then stops the thread: what has not left by then stays.
\<close>

definition shut_down :: "nat \<Rightarrow> (tr_call list \<Rightarrow> bool) \<Rightarrow> transfer \<Rightarrow> transfer" where
  "shut_down room good s =
     (case client_poll_flush (tf_client s) of
        Pending \<Rightarrow> s
      | Ready (Inl e) \<Rightarrow> s\<lparr>tf_writer := GaveUp (io_text e)\<rparr>
      | Ready (Inr _) \<Rightarrow>
          (case client_poll_shutdown good (tf_client s) of
             (c, Returns (Ready (Inr _))) \<Rightarrow>
               s\<lparr>tf_client := c, tf_writer := ShutDown,
                 tf_out := (if was_closed (cl_inner c) then out_after room s (evb_tasks (cl_inner (tf_client s)))
                            else tf_out s)\<rparr>
           | (c, Returns (Ready (Inl e))) \<Rightarrow> s\<lparr>tf_client := c, tf_writer := GaveUp (io_text e)\<rparr>
           | (c, Throws e) \<Rightarrow> s\<lparr>tf_client := c, tf_writer := GaveUp e\<rparr>
           | (c, _) \<Rightarrow> s\<lparr>tf_client := c\<rparr>))"

definition send_next :: "nat \<Rightarrow> (tr_call list \<Rightarrow> bool) \<Rightarrow> transfer \<Rightarrow> transfer" where
  "send_next room good s =
     (case tf_writer s of
        Sends [] \<Rightarrow> shut_down room good s
      | Sends (bs # rest) \<Rightarrow>
          if bs = [] then s\<lparr>tf_writer := Sends rest\<rparr>
          else (case client_poll_write (tf_client s) bs of
                  (c, Pending) \<Rightarrow> s\<lparr>tf_client := c\<rparr>
                | (c, Ready (Inl e)) \<Rightarrow> s\<lparr>tf_client := c, tf_writer := GaveUp (io_text e)\<rparr>
                | (c, Ready (Inr n)) \<Rightarrow>
                    s\<lparr>tf_client := c,
                      tf_writer := (if n = 0 then GaveUp ''write zero'' else Sends (drop n bs # rest))\<rparr>)
      | _ \<Rightarrow> s)"

text \<open>
  A turn of the client's event base: the oldest queued write. It fails when the transport has been closed abruptly, and
  nothing of it leaves.
\<close>

definition client_turn :: "nat \<Rightarrow> transfer \<Rightarrow> transfer" where
  "client_turn room s =
     s\<lparr>tf_client := (tf_client s)\<lparr>cl_inner := evb_turn (cl_inner (tf_client s))\<rparr>,
       tf_out := out_after room s (take 1 (evb_tasks (cl_inner (tf_client s))))\<rparr>"

definition failed_turn :: "string \<Rightarrow> transfer \<Rightarrow> transfer" where
  "failed_turn what s =
     s\<lparr>tf_client := (tf_client s)\<lparr>cl_inner := client_writeErr (evb_turn (cl_inner (tf_client s))) what\<rparr>\<rparr>"

text \<open>One poll of the server, with room for \<open>n\<close> bytes.\<close>

definition receive_next ::
  "(Waker \<Rightarrow> Waker \<Rightarrow> bool) \<Rightarrow> iobq \<Rightarrow> Waker \<Rightarrow> nat \<Rightarrow> transfer \<Rightarrow> transfer" where
  "receive_next ww Q w n s =
     (case server_poll_read ww Q (tf_store s) (tf_server s) w (replicate n 0) of
        Blocks \<Rightarrow> s
      | Throws e \<Rightarrow> s\<lparr>tf_reader := Some (Inl e)\<rparr>
      | Returns r \<Rightarrow>
          (let s' = s\<lparr>tf_server := pr_self r, tf_store := pr_store r\<rparr>
           in case pr_poll r of
                Pending \<Rightarrow> s'\<lparr>tf_parked := True\<rparr>
              | Ready (Inl e) \<Rightarrow> s'\<lparr>tf_reader := Some (Inl (io_text e))\<rparr>
              | Ready (Inr _) \<Rightarrow>
                  if pr_advanced r = 0 then s'\<lparr>tf_reader := Some (Inr ())\<rparr>
                  else s'\<lparr>tf_got := tf_got s @ take (pr_advanced r) (pr_slice r)\<rparr>))"

section \<open>The network\<close>

text \<open>A callback of the server's event-base thread, and the task its waker schedules.\<close>

definition server_event ::
  "(ServerConnection \<times> slot_store \<times> Waker option) \<Rightarrow> transfer \<Rightarrow> transfer" where
  "server_event e s =
     (case e of (c, h, w) \<Rightarrow>
        s\<lparr>tf_server := c, tf_store := h, tf_parked := (tf_parked s \<and> map_option wk_task w \<noteq> Some 1)\<rparr>)"

definition on_server ::
  "ServerConnection \<Rightarrow> FizzServerConnection \<times> slot_store \<times> Waker option
     \<Rightarrow> ServerConnection \<times> slot_store \<times> Waker option" where
  "on_server self e = (case e of (c, h, w) \<Rightarrow> (self\<lparr>sv_inner := c\<rparr>, h, w))"

text \<open>
  What has left the client's transport arrives in order. The end of the stream arrives after the last of it, when \<open>close\<close> found
  nothing waiting or the transport was closed abruptly. \<open>faults\<close> says whether a write of the client and the connection
  under the server may fail; the text of the exception is arbitrary. Only a running event-base thread makes queued or waiting bytes leave.
\<close>

inductive transfer_step ::
  "(Waker \<Rightarrow> Waker \<Rightarrow> bool) \<Rightarrow> iobq \<Rightarrow> (tr_call list \<Rightarrow> bool) \<Rightarrow> nat \<Rightarrow> bool \<Rightarrow> transfer \<Rightarrow> transfer \<Rightarrow> bool"
  for ww Q good room faults where
  send: "tf_writer s = Sends ps \<Longrightarrow> transfer_step ww Q good room faults s (send_next room good s)"
| turn: "evb_thread (cl_inner (tf_client s)) \<Longrightarrow> evb_tasks (cl_inner (tf_client s)) \<noteq> [] \<Longrightarrow>
    \<not> gone (cl_inner (tf_client s)) \<Longrightarrow> transfer_step ww Q good room faults s (client_turn room s)"
| turn_fails: "evb_thread (cl_inner (tf_client s)) \<Longrightarrow> evb_tasks (cl_inner (tf_client s)) \<noteq> [] \<Longrightarrow>
    faults \<or> gone (cl_inner (tf_client s)) \<Longrightarrow> transfer_step ww Q good room faults s (failed_turn what s)"
| leave: "evb_thread (cl_inner (tf_client s)) \<Longrightarrow> \<not> gone (cl_inner (tf_client s)) \<Longrightarrow> tf_out s < n \<Longrightarrow>
    n \<le> length (sent_bytes (cl_inner (tf_client s))) \<Longrightarrow> n \<le> tf_taken s + room \<Longrightarrow>
    transfer_step ww Q good room faults s (s\<lparr>tf_out := n\<rparr>)"
| write_fails: "faults \<Longrightarrow> evb_thread (cl_inner (tf_client s)) \<Longrightarrow> \<not> writeError (cl_inner (tf_client s)) \<Longrightarrow>
    tf_out s < length (sent_bytes (cl_inner (tf_client s))) \<Longrightarrow> transfer_step ww Q good room faults s
    (s\<lparr>tf_client := (tf_client s)\<lparr>cl_inner := client_writeErr (cl_inner (tf_client s)) what\<rparr>\<rparr>)"
| receive: "tf_reader s = None \<Longrightarrow> \<not> tf_parked s \<Longrightarrow> 0 < n \<Longrightarrow>
    transfer_step ww Q good room faults s (receive_next ww Q (Waker 1 i) n s)"
| arrive: "tf_net s = Live \<Longrightarrow> bs \<noteq> [] \<Longrightarrow>
    drop (tf_taken s) (take (tf_out s) (sent_bytes (cl_inner (tf_client s)))) = bs @ rest \<Longrightarrow>
    server_arrive Q (tf_store s) (tf_server s) bs = Some e \<Longrightarrow>
    transfer_step ww Q good room faults s ((server_event e s)\<lparr>tf_taken := tf_taken s + length bs\<rparr>)"
| peer_close: "tf_net s = Live \<Longrightarrow> tf_taken s = tf_out s \<Longrightarrow>
    was_closed (cl_inner (tf_client s)) \<and> tf_out s = length (sent_bytes (cl_inner (tf_client s)))
      \<or> gone (cl_inner (tf_client s)) \<Longrightarrow>
    server_readEOF (sv_inner (tf_server s)) (tf_store s) = Some e \<Longrightarrow>
    transfer_step ww Q good room faults s ((server_event (on_server (tf_server s) e) s)\<lparr>tf_net := PeerClosed\<rparr>)"
| break: "faults \<Longrightarrow> tf_net s = Live \<Longrightarrow>
    server_readErr (sv_inner (tf_server s)) (tf_store s) what = Some e \<Longrightarrow>
    transfer_step ww Q good room faults s ((server_event (on_server (tf_server s) e) s)\<lparr>tf_net := Broken\<rparr>)"

inductive transfer_run ::
  "(Waker \<Rightarrow> Waker \<Rightarrow> bool) \<Rightarrow> iobq \<Rightarrow> (tr_call list \<Rightarrow> bool) \<Rightarrow> nat \<Rightarrow> bool \<Rightarrow> transfer \<Rightarrow> nat \<Rightarrow> transfer \<Rightarrow> bool"
  for ww Q good room faults s0 where
  start: "transfer_run ww Q good room faults s0 0 s0"
| more: "transfer_run ww Q good room faults s0 n s \<Longrightarrow> transfer_step ww Q good room faults s s' \<Longrightarrow>
    transfer_run ww Q good room faults s0 (Suc n) s'"

definition transfer_start ::
  "u8 list list \<Rightarrow> ClientConnection \<Rightarrow> slot_store \<Rightarrow> ServerConnection \<Rightarrow> transfer" where
  "transfer_start pieces c h s =
     \<lparr>tf_client = c, tf_writer = Sends pieces, tf_out = 0, tf_server = s, tf_store = h, tf_reader = None,
      tf_parked = False, tf_taken = 0, tf_got = [], tf_net = Live\<rparr>"

section \<open>Invariant\<close>

text \<open>The transport is usable until it is closed.\<close>

definition good_until_closed :: "(tr_call list \<Rightarrow> bool) \<Rightarrow> bool" where
  "good_until_closed good \<longleftrightarrow> (\<forall>calls. open_transport calls \<longrightarrow> good calls)"

fun left_to_send :: "writer \<Rightarrow> u8 list" where
  "left_to_send (Sends ps) = concat ps"
| "left_to_send _ = []"

text \<open>
  The client's side: everything written and still to be written is the message \<open>M\<close>, or a beginning of it after a failed
  write. Nothing waits in the transport when the message fits the socket.
\<close>

definition sender_inv :: "nat \<Rightarrow> u8 list \<Rightarrow> FizzClientConnection \<Rightarrow> writer \<Rightarrow> nat \<Rightarrow> bool" where
  "sender_inv room M c w out \<longleftrightarrow>
     write_ready c \<and> [] \<notin> set (evb_tasks c) \<and> gone c = writeError c \<and> out \<le> length (sent_bytes c)
     \<and> prefix (sent_bytes c @ concat (evb_tasks c) @ left_to_send w) M
     \<and> (\<not> writeError c \<longrightarrow> sent_bytes c @ concat (evb_tasks c) @ left_to_send w = M)
     \<and> (\<not> writeError c \<and> length M \<le> room \<longrightarrow> out = length (sent_bytes c))
     \<and> (case w of
          Sends ps \<Rightarrow> evb_thread c \<and> \<not> was_closed c
        | ShutDown \<Rightarrow> \<not> evb_thread c \<and> (\<not> writeError c \<longrightarrow> evb_tasks c = [] \<and> was_closed c)
        | GaveUp e \<Rightarrow> evb_thread c \<and> writeError c)"

definition writer_inv :: "nat \<Rightarrow> u8 list \<Rightarrow> transfer \<Rightarrow> bool" where
  "writer_inv room M s \<longleftrightarrow> sender_inv room M (cl_inner (tf_client s)) (tf_writer s) (tf_out s)"

definition reader_ready :: "slot_store \<Rightarrow> 'a FizzServerConnection_scheme \<Rightarrow> ReadWaker \<Rightarrow> bool" where
  "reader_ready h conn rw \<longleftrightarrow>
     readable conn \<and> read_waker conn = Some (clone_for_cpp rw) \<and> slot_ok h rw"

text \<open>The server's side: what was read and what is buffered is what has arrived.\<close>

definition reader_inv :: "transfer \<Rightarrow> bool" where
  "reader_inv s \<longleftrightarrow>
     (let c = sv_inner (tf_server s); cl = cl_inner (tf_client s); sent = sent_bytes cl
      in reader_ready (tf_store s) c (sv_read_waker (tf_server s))
         \<and> tf_taken s \<le> tf_out s \<and> tf_out s \<le> length sent \<and> tf_got s @ content c = take (tf_taken s) sent
         \<and> readEof c = (tf_net s \<noteq> Live)
         \<and> (tf_net s = PeerClosed \<longrightarrow>
              tf_taken s = tf_out s \<and> (writeError cl \<or> tf_writer s = ShutDown \<and> tf_out s = length sent))
         \<and> (tf_parked s \<longrightarrow> tf_reader s = None \<and> content c = [] \<and> \<not> readEof c
              \<and> slot_task (tf_store s) (sv_read_waker (tf_server s)) = Some 1)
         \<and> (\<forall>r. tf_reader s = Some r \<longrightarrow> r = Inr () \<and> content c = [] \<and> readEof c))"

text \<open>How far a transfer of \<open>N\<close> pieces has come.\<close>

fun writer_left :: "writer \<Rightarrow> nat" where
  "writer_left (Sends ps) = Suc (length ps)"
| "writer_left _ = 0"

definition writer_count :: "nat \<Rightarrow> transfer \<Rightarrow> nat" where
  "writer_count N s =
     (let c = cl_inner (tf_client s)
      in length (sent_bytes c @ concat (evb_tasks c)) + length (sent_bytes c) + tf_out s
         + (if writeError c then 1 else 0) + (Suc N - writer_left (tf_writer s)))"

definition reader_count :: "transfer \<Rightarrow> nat" where
  "reader_count s =
     2 * tf_taken s + length (tf_got s) + (if tf_parked s then 1 else 0)
     + (if tf_net s = Live then 0 else 2) + (if tf_reader s = None then 0 else 1)"

definition transfer_inv :: "nat \<Rightarrow> nat \<Rightarrow> u8 list \<Rightarrow> transfer \<Rightarrow> bool" where
  "transfer_inv N room M s \<longleftrightarrow> writer_inv room M s \<and> reader_inv s \<and> writer_left (tf_writer s) \<le> Suc N"

lemma closed_simps [simp]:
  "was_closed (c\<lparr>evb_tasks := q\<rparr>) = was_closed c" "was_closed (c\<lparr>evb_thread := b\<rparr>) = was_closed c"
  "was_closed (tr_do TrClose (run_tasks c)) = (transport c \<noteq> None)"
  "was_closed (server_writeErr c what) = was_closed c" "was_closed (evb_turn c) = was_closed c"
  "gone (c\<lparr>evb_tasks := q\<rparr>) = gone c" "gone (c\<lparr>evb_thread := b\<rparr>) = gone c"
  "gone (tr_do TrClose (run_tasks c)) = gone c"
  "write_ready c \<Longrightarrow> gone (server_writeErr c what)" "gone (evb_turn c) = gone c"
  by (auto simp: write_ready_def was_closed_def gone_def tr_do_def run_tasks_def server_writeErr_def evb_turn_def
      split: option.splits list.splits)

lemma sent_bytes_simps [simp]:
  "sent_bytes (c\<lparr>evb_tasks := q\<rparr>) = sent_bytes c" "sent_bytes (c\<lparr>evb_thread := b\<rparr>) = sent_bytes c"
  "sent_bytes (server_writeErr c what) = sent_bytes c"
  "transport c \<noteq> None \<Longrightarrow> sent_bytes (tr_do TrClose (run_tasks c)) = sent_bytes c @ concat (evb_tasks c)"
  by (auto simp: sent_bytes_def tr_do_def run_tasks_def server_writeErr_def split: option.splits)

lemma transport_calls [simp]:
  "evb_tasks (tr_do x c) = evb_tasks c" "evb_tasks (run_tasks c) = []" "evb_tasks (server_writeErr c what) = evb_tasks c"
  "evb_thread (tr_do x c) = evb_thread c" "evb_thread (run_tasks c) = evb_thread c"
  "evb_thread (server_writeErr c what) = evb_thread c" "evb_thread (evb_turn c) = evb_thread c"
  "writeError (tr_do x c) = writeError c" "writeError (run_tasks c) = writeError c"
  "writeError (server_writeErr c what)" "writeError (evb_turn c) = writeError c"
  "write_ready (run_tasks c) = write_ready c" "write_ready (server_writeErr c what) = write_ready c"
  "write_ready (c\<lparr>evb_thread := b\<rparr>) = write_ready c"
  by (auto simp: tr_do_def run_tasks_def server_writeErr_def evb_turn_def write_ready_def split: list.splits)

section \<open>The socket takes bytes in order\<close>

lemma hand_over_fold:
  assumes "out \<le> given"
  shows "case fold (hand_over room taken) bs (given, out) of
      (given', out') \<Rightarrow> given' = given + length (concat bs) \<and> out \<le> out' \<and> out' \<le> given'
        \<and> (out = given \<and> given' \<le> taken + room \<longrightarrow> out' = given')"
  using assms
proof (induction bs arbitrary: given out)
  case Nil
  then show ?case by simp
next
  case (Cons b bs)
  let ?out = "if out = given then out + min (length b) (taken + room - out) else out"
  have "?out \<le> given + length b" using Cons.prems by simp
  from Cons.IH [OF this] show ?case
    by (auto simp: hand_over_def split: prod.splits if_splits)
qed

lemma out_after_bounds:
  assumes "tf_out s \<le> length (sent_bytes (cl_inner (tf_client s)))"
  shows "tf_out s \<le> out_after room s bs"
    and "out_after room s bs \<le> length (sent_bytes (cl_inner (tf_client s))) + length (concat bs)"
    and "tf_out s = length (sent_bytes (cl_inner (tf_client s))) \<Longrightarrow>
      length (sent_bytes (cl_inner (tf_client s))) + length (concat bs) \<le> room \<Longrightarrow>
      out_after room s bs = length (sent_bytes (cl_inner (tf_client s))) + length (concat bs)"
  using hand_over_fold [OF assms, where room = room and taken = "tf_taken s" and bs = bs]
  by (auto simp: out_after_def split: prod.splits)

section \<open>The writer's steps\<close>

text \<open>The writer's part of a state, and what a step may do to it.\<close>

definition writer_moves :: "nat \<Rightarrow> nat \<Rightarrow> u8 list \<Rightarrow> transfer \<Rightarrow> transfer \<Rightarrow> bool" where
  "writer_moves N room M s s' \<longleftrightarrow>
     s' = s\<lparr>tf_client := tf_client s', tf_writer := tf_writer s', tf_out := tf_out s'\<rparr>
     \<and> writer_inv room M s' \<and> writer_left (tf_writer s') \<le> writer_left (tf_writer s)
     \<and> (\<exists>x. sent_bytes (cl_inner (tf_client s')) = sent_bytes (cl_inner (tf_client s)) @ x)
     \<and> tf_out s \<le> tf_out s'
     \<and> (writeError (cl_inner (tf_client s)) \<longrightarrow> writeError (cl_inner (tf_client s')) \<and> tf_out s' = tf_out s)
     \<and> writer_count N s < writer_count N s'"

lemma shut_down_moves:
  assumes "writer_inv room M s" and "good_until_closed good" and "closed_not_good good" and "tf_writer s = Sends []"
  shows "writer_moves N room M s (shut_down room good s)"
proof -
  let ?c = "cl_inner (tf_client s)"
  from assms(1,4) have c: "sender_inv room M ?c (Sends []) (tf_out s)" by (simp add: writer_inv_def)
  then obtain calls where t: "transport ?c = Some calls" "evb_thread ?c" "\<not> was_closed ?c"
    by (auto simp: sender_inv_def write_ready_def)
  show ?thesis
  proof (cases "writeError ?c")
    case True
    with c t assms(3) have "\<not> good calls" by (auto simp: sender_inv_def gone_def closed_not_good_def)
    with t have "shut_down room good s =
        s\<lparr>tf_client := (tf_client s)\<lparr>cl_inner := ?c\<lparr>evb_thread := False\<rparr>\<rparr>, tf_writer := ShutDown\<rparr>"
      by (simp add: shut_down_def client_poll_flush_def client_poll_shutdown_def ClientConnection_close_def
          server_connection_close_def)
    with True c assms(4) show ?thesis
      by (simp add: writer_moves_def writer_inv_def sender_inv_def writer_count_def Let_def)
  next
    case False
    with c t have "open_transport calls" by (auto simp: sender_inv_def gone_def was_closed_def open_transport_def)
    with assms(2) have "good calls" by (simp add: good_until_closed_def)
    with t have s': "shut_down room good s =
        s\<lparr>tf_client := (tf_client s)\<lparr>cl_inner := (tr_do TrClose (run_tasks ?c))\<lparr>evb_thread := False\<rparr>\<rparr>,
          tf_writer := ShutDown, tf_out := out_after room s (evb_tasks ?c)\<rparr>"
      by (simp add: shut_down_def client_poll_flush_def client_poll_shutdown_def ClientConnection_close_def
          server_connection_close_def)
    from c have "tf_out s \<le> length (sent_bytes ?c)" by (simp add: sender_inv_def)
    note out = out_after_bounds [OF this, where room = room and bs = "evb_tasks ?c"]
    from c False have M: "M = sent_bytes ?c @ concat (evb_tasks ?c)" by (simp add: sender_inv_def)
    from c False t assms(4) s' out show ?thesis
      by (simp add: M writer_moves_def writer_inv_def sender_inv_def writer_count_def Let_def)
  qed
qed

lemma send_next_moves:
  assumes "writer_inv room M s" and "good_until_closed good" and "closed_not_good good"
    and "tf_writer s = Sends ps" and "length ps \<le> N"
  shows "writer_moves N room M s (send_next room good s)"
proof (cases ps)
  case Nil
  with shut_down_moves [OF assms(1-3)] assms(4) show ?thesis by (simp add: send_next_def)
next
  case (Cons bs rest)
  let ?c = "cl_inner (tf_client s)"
  from assms(1,4) Cons have c: "sender_inv room M ?c (Sends (bs # rest)) (tf_out s)" by (simp add: writer_inv_def)
  then have ready: "write_ready ?c" by (simp add: sender_inv_def)
  consider "bs = []" | "bs \<noteq> []" "writeError ?c" | "bs \<noteq> []" "\<not> writeError ?c" by blast
  then show ?thesis
  proof cases
    case 1
    with Cons assms(4,5) c show ?thesis
      by (simp add: send_next_def writer_moves_def writer_inv_def sender_inv_def writer_count_def Let_def)
  next
    case 2
    with Cons assms(4) ready have "send_next room good s =
        s\<lparr>tf_writer := GaveUp (''Write failed: '' @ writeErrorMessage ?c)\<rparr>"
      by (auto simp: send_next_def client_poll_write_def server_connection_write_def write_ready_def)
    moreover have "prefix (sent_bytes ?c @ concat (evb_tasks ?c)) M"
      using c
        append_prefixD [of "sent_bytes ?c @ concat (evb_tasks ?c)" "bs @ concat rest" M] by (simp add: sender_inv_def)
    ultimately show ?thesis using 2 Cons assms(4,5) c
      by (simp add: writer_moves_def writer_inv_def sender_inv_def writer_count_def Let_def)
  next
    case 3
    with Cons assms(4) ready have "send_next room good s =
        s\<lparr>tf_client := (tf_client s)\<lparr>cl_inner := ?c\<lparr>evb_tasks := evb_tasks ?c @ [bs]\<rparr>\<rparr>, tf_writer := Sends ([] # rest)\<rparr>"
      by (simp add: send_next_def client_poll_write_def server_connection_write_def write_ready_def)
    moreover from 3 obtain y ys where "bs = y # ys" by (cases bs) auto
    ultimately show ?thesis using 3 Cons assms(4,5) c ready
      by (simp add: writer_moves_def writer_inv_def sender_inv_def writer_count_def Let_def)
  qed
qed

lemma turn_tasks:
  assumes "evb_tasks c = b # bs" and "evb_thread c" and "write_ready c"
  shows "evb_tasks (evb_turn c) = bs" and "sent_bytes (evb_turn c) = sent_bytes c @ b"
  using assms by (auto simp: evb_turn_def tr_do_def sent_bytes_def write_ready_def)

lemma turn_moves:
  assumes "writer_inv room M s" and "evb_tasks (cl_inner (tf_client s)) \<noteq> []" and "evb_thread (cl_inner (tf_client s))"
  shows "\<not> gone (cl_inner (tf_client s)) \<Longrightarrow> writer_moves N room M s (client_turn room s)"
    and "writer_moves N room M s (failed_turn what s)"
proof -
  let ?c = "cl_inner (tf_client s)"
  from assms(1) have c: "sender_inv room M ?c (tf_writer s) (tf_out s)" by (simp add: writer_inv_def)
  then have ready: "write_ready ?c" "tf_out s \<le> length (sent_bytes ?c)" and w: "tf_writer s \<noteq> ShutDown"
    using assms(3) by (auto simp: sender_inv_def)
  from assms(2) obtain b bs where b: "evb_tasks ?c = b # bs" by (cases "evb_tasks ?c") auto
  note tasks = turn_tasks [OF b assms(3) ready(1)]
  have "b \<noteq> []" using c b by (auto simp: sender_inv_def)
  show "writer_moves N room M s (failed_turn what s)"
    using c b tasks \<open>b \<noteq> []\<close> w ready
    by (auto simp: writer_moves_def writer_inv_def sender_inv_def writer_count_def failed_turn_def Let_def
        split: writer.splits)
  assume "\<not> gone ?c"
  then have we: "\<not> writeError ?c" using c by (simp add: sender_inv_def)
  with c b have M: "M = sent_bytes ?c @ b @ concat bs @ left_to_send (tf_writer s)" by (simp add: sender_inv_def)
  note out = out_after_bounds [OF ready(2), where room = room and bs = "[b]"]
  have "sender_inv room M (evb_turn ?c) (tf_writer s) (out_after room s [b])"
    using c b tasks w we out M by (cases "tf_writer s") (simp_all add: sender_inv_def)
  moreover from \<open>b \<noteq> []\<close> obtain y ys where "b = y # ys" by (cases b) auto
  ultimately show "writer_moves N room M s (client_turn room s)"
    using b tasks we out(1)
    by (simp add: writer_moves_def writer_inv_def writer_count_def client_turn_def Let_def)
qed

lemma leave_moves:
  assumes "writer_inv room M s" and "\<not> gone (cl_inner (tf_client s))" and "tf_out s < n"
    and "n \<le> length (sent_bytes (cl_inner (tf_client s)))"
  shows "writer_moves N room M s (s\<lparr>tf_out := n\<rparr>)"
  using assms by (auto simp: writer_moves_def writer_inv_def sender_inv_def writer_count_def Let_def)

lemma write_fails_moves:
  assumes "writer_inv room M s" and "evb_thread (cl_inner (tf_client s))" and "\<not> writeError (cl_inner (tf_client s))"
  shows "writer_moves N room M s
    (s\<lparr>tf_client := (tf_client s)\<lparr>cl_inner := client_writeErr (cl_inner (tf_client s)) what\<rparr>\<rparr>)"
  using assms
  by (auto simp: writer_moves_def writer_inv_def sender_inv_def writer_count_def Let_def
      split: writer.splits)

section \<open>The reader's steps\<close>

text \<open>The reader's part of a state, and what a step may do to it.\<close>

definition reader_moves :: "transfer \<Rightarrow> transfer \<Rightarrow> bool" where
  "reader_moves s s' \<longleftrightarrow>
     tf_client s' = tf_client s \<and> tf_writer s' = tf_writer s \<and> tf_out s' = tf_out s \<and> reader_inv s'
     \<and> reader_count s < reader_count s'"

context reading
begin

lemma poll_reader:
  assumes "reader_ready (tf_store s) (sv_inner (tf_server s)) (sv_read_waker (tf_server s))"
  obtains r where "server_poll_read ww Q (tf_store s) (tf_server s) w buf = Returns r"
    and "pr_poll r = read_answer (content (sv_inner (tf_server s))) (readEof (sv_inner (tf_server s))) (length buf)"
    and "pr_advanced r = min (length (content (sv_inner (tf_server s)))) (length buf)"
    and "take (pr_advanced r) (pr_slice r) = take (length buf) (content (sv_inner (tf_server s)))"
    and "content (sv_inner (pr_self r)) = drop (length buf) (content (sv_inner (tf_server s)))"
    and "readEof (sv_inner (pr_self r)) = readEof (sv_inner (tf_server s))"
    and "sv_read_waker (pr_self r) = sv_read_waker (tf_server s)"
    and "reader_ready (pr_store r) (sv_inner (pr_self r)) (sv_read_waker (tf_server s))"
    and "slot_task (pr_store r) (sv_read_waker (tf_server s)) = Some (wk_task w)"
proof -
  let ?c = "sv_inner (tf_server s)" and ?rw = "sv_read_waker (tf_server s)"
  from assms have rd: "readable ?c" "slot_ok (tf_store s) ?rw" by (simp_all add: reader_ready_def)
  from slot.reg_total [OF rd(2), of w] obtain h' where reg: "register ww (tf_store s) ?rw w = Some h'" by blast
  note ok = slot.reg_ok [OF rd(2) reg] slot.reg_task [OF rd(2) reg]
  show thesis
  proof (rule read_outcome [OF rd(1), of buf])
    fix conn' out buf'
    assume r: "server_connection_read_or_status Q ?c buf = (conn', Returns (out, buf'))"
      and n: "unat (ro_bytes_read out) = min (length (content ?c)) (length buf)"
      and p: "(0 < ro_bytes_read out) = (content ?c \<noteq> [] \<and> buf \<noteq> [])"
      and e: "ro_eof out = (content ?c = [] \<and> readEof ?c)"
      and b: "buf' = take (length buf) (content ?c) @ drop (length (content ?c)) buf"
      and c: "content conn' = drop (length buf) (content ?c)" "readable conn'"
    have "reader_ready h' conn' ?rw"
      using read_frame(4) [OF rd(1) r] c(2) ok(1) assms by (simp add: reader_ready_def)
    then show thesis
      using reg r n p e c(1) ok(2) read_frame(1) [OF rd(1) r]
      by (intro that [of "\<lparr>pr_store = h', pr_self = (tf_server s)\<lparr>sv_inner := conn'\<rparr>, pr_slice = buf',
            pr_advanced = (if 0 < ro_bytes_read out then unat (ro_bytes_read out) else 0),
            pr_poll = (if 0 < ro_bytes_read out \<or> ro_eof out then Ready (Inr ()) else Pending)\<rparr>"])
        (auto simp: server_poll_read_def read_answer_def b)
  qed
qed

text \<open>What a callback of the event-base thread leaves, whichever it is.\<close>

lemma callback_ready:
  assumes "reader_ready h conn rw" and "readable conn'" and "read_waker conn' = read_waker conn"
  obtains h' w where "server_wakeReader conn' h = Some (h', w)" and "map_option wk_task w = slot_task h rw"
    and "reader_ready h' conn' rw"
proof -
  from assms(1) have ok: "slot_ok h rw" "read_waker conn = Some (clone_for_cpp rw)" by (simp_all add: reader_ready_def)
  from slot.fire_total [OF ok(1)] obtain h' w where
    f: "wake_read_waker h (clone_for_cpp rw) = Some (h', w)" by blast
  show thesis
    using slot.fire_task [OF ok(1) f] slot.fire_ok [OF ok(1) f] assms f ok
    by (intro that [of h' w]) (simp_all add: server_wakeReader_def reader_ready_def)
qed

lemma arrival_ready:
  assumes "reader_ready h (sv_inner self) (sv_read_waker self)" and "length (content (sv_inner self)) + length bs < 2 ^ 64"
  obtains conn' h' w where "server_arrive Q h self bs = Some (self\<lparr>sv_inner := conn'\<rparr>, h', w)"
    and "map_option wk_task w = slot_task h (sv_read_waker self)" and "reader_ready h' conn' (sv_read_waker self)"
    and "content conn' = content (sv_inner self) @ bs" and "readEof conn' = readEof (sv_inner self)"
proof -
  let ?c = "sv_inner self"
  from assms(1) have rd: "readable ?c" by (simp add: reader_ready_def)
  define conn1 where "conn1 = ?c\<lparr>read_mutex := True, pending_read := True\<rparr>"
  define conn' where "conn' = server_commitRead Q conn1 bs"
  have g: "server_getReadBuffer ?c = (conn1, Returns ())"
    using rd by (simp add: server_getReadBuffer_def readable_def conn1_def)
  have c: "content conn' = content ?c @ bs" "readable conn'"
    using srv.deliver_content [OF rd, of bs] srv.deliver_inv [OF rd assms(2)] g
    by (simp_all add: server_deliver_def conn'_def)
  have keep: "readEof conn' = readEof ?c" "read_waker conn' = read_waker ?c"
    by (simp_all add: conn'_def conn1_def server_commitRead_def)
  show thesis
  proof (rule callback_ready [OF assms(1) c(2) keep(2)])
    fix h' w
    assume "server_wakeReader conn' h = Some (h', w)" "map_option wk_task w = slot_task h (sv_read_waker self)"
      "reader_ready h' conn' (sv_read_waker self)"
    with g c(1) keep(1) show thesis
      by (intro that [of conn' h' w]) (simp_all add: server_arrive_def server_readDataAvailable_def conn'_def)
  qed
qed

text \<open>\<open>readEOF\<close> and \<open>readErr\<close>: the stream has ended.\<close>

lemma end_ready:
  assumes "reader_ready h conn rw"
    and "f = server_readEOF conn h \<or> f = server_readErr conn h what"
  obtains conn' h' w where "f = Some (conn', h', w)"
    and "map_option wk_task w = slot_task h rw" and "reader_ready h' conn' rw"
    and "content conn' = content conn" and "readEof conn'"
proof -
  define e where "e = (if f = server_readEOF conn h then conn else conn\<lparr>errorMessage := what\<rparr>)"
  define conn' where "conn' = tr_do TrCloseNow (e\<lparr>readEof := True\<rparr>)"
  from assms(1) have rd: "readable conn" by (simp add: reader_ready_def)
  then have c: "content conn' = content conn" "readEof conn'" "readable conn'" "read_waker conn' = read_waker conn"
    by (auto simp: conn'_def e_def tr_do_def readable_def conn_inv_def content_def)
  have f: "f = map_option (\<lambda>(h', w). (conn', h', w)) (server_wakeReader conn' h)"
    using assms(2) rd
    by (auto simp: conn'_def e_def server_readEOF_def server_readErr_def server_releaseRead_def readable_def conn_inv_def
        Let_def)
  show thesis
    by (rule callback_ready [OF assms(1) c(3,4)]) (use f c in \<open>auto intro: that\<close>)
qed

lemma receive_moves:
  assumes "reader_inv s" and "tf_reader s = None" and "\<not> tf_parked s" and "0 < n"
  shows "reader_moves s (receive_next ww Q (Waker 1 i) n s)"
proof -
  let ?c = "sv_inner (tf_server s)"
  from assms(1) have rd: "reader_ready (tf_store s) ?c (sv_read_waker (tf_server s))"
    by (simp add: reader_inv_def Let_def)
  show ?thesis
  proof (rule poll_reader [OF rd, of "Waker 1 i" "replicate n 0"])
    fix r
    assume r: "server_poll_read ww Q (tf_store s) (tf_server s) (Waker 1 i) (replicate n 0) = Returns r"
      "pr_poll r = read_answer (content ?c) (readEof ?c) (length (replicate n (0 :: u8)))"
      "pr_advanced r = min (length (content ?c)) (length (replicate n (0 :: u8)))"
      "take (pr_advanced r) (pr_slice r) = take (length (replicate n (0 :: u8))) (content ?c)"
      and c: "content (sv_inner (pr_self r)) = drop (length (replicate n (0 :: u8))) (content ?c)"
      "readEof (sv_inner (pr_self r)) = readEof ?c" "sv_read_waker (pr_self r) = sv_read_waker (tf_server s)"
      "reader_ready (pr_store r) (sv_inner (pr_self r)) (sv_read_waker (tf_server s))"
      "slot_task (pr_store r) (sv_read_waker (tf_server s)) = Some (wk_task (Waker 1 i))"
    show ?thesis
    proof (cases "content ?c = []")
      case True
      with r(1-3) c assms show ?thesis
        by (cases "readEof ?c")
          (simp_all add: receive_next_def read_answer_def reader_moves_def reader_inv_def reader_count_def Let_def)
    next
      case False
      with r(3) assms(4) have "pr_advanced r \<noteq> 0" by (simp add: min_def)
      with r(1,2,4) False assms(4) have "receive_next ww Q (Waker 1 i) n s =
          s\<lparr>tf_server := pr_self r, tf_store := pr_store r, tf_got := tf_got s @ take n (content ?c)\<rparr>"
        by (simp add: receive_next_def read_answer_def Let_def)
      with False c assms show ?thesis
        by (simp add: reader_moves_def reader_inv_def reader_count_def Let_def)
    qed
  qed
qed

text \<open>All three callbacks: bytes \<open>bs\<close> and, when the network is no longer \<open>Live\<close>, the end.\<close>

lemma event_moves:
  assumes "reader_inv s" and "tf_net s = Live"
    and "map_option wk_task w = slot_task (tf_store s) (sv_read_waker (tf_server s))"
    and "reader_ready h c (sv_read_waker (tf_server s))" and "content c = content (sv_inner (tf_server s)) @ bs"
    and "readEof c = (nt \<noteq> Live)" and "nt = Live \<longrightarrow> bs \<noteq> []"
    and "drop (tf_taken s) (take (tf_out s) (sent_bytes (cl_inner (tf_client s)))) = bs @ rest"
    and "nt = PeerClosed \<longrightarrow> rest = [] \<and> (writeError (cl_inner (tf_client s))
      \<or> tf_writer s = ShutDown \<and> tf_out s = length (sent_bytes (cl_inner (tf_client s))))"
  shows "reader_moves s
    ((server_event ((tf_server s)\<lparr>sv_inner := c\<rparr>, h, w) s)\<lparr>tf_taken := tf_taken s + length bs, tf_net := nt\<rparr>)"
proof -
  let ?sent = "sent_bytes (cl_inner (tf_client s))"
  have len: "tf_taken s \<le> tf_out s" "tf_out s \<le> length ?sent" using assms(1) by (simp_all add: reader_inv_def Let_def)
  with arg_cong [OF assms(8), of length] have l: "tf_taken s + length bs + length rest = tf_out s" by simp
  have no: "tf_reader s = None" using assms(1,2) by (cases "tf_reader s") (auto simp: reader_inv_def Let_def)
  have woken: "\<not> (tf_parked s \<and> map_option wk_task w \<noteq> Some 1)"
    using assms(1,3) by (auto simp: reader_inv_def Let_def)
  have "take (tf_taken s + length bs) (take (tf_out s) ?sent) = take (tf_taken s) (take (tf_out s) ?sent) @ bs"
    using assms(8) by (simp only: take_add) simp
  then have "take (tf_taken s + length bs) ?sent = take (tf_taken s) ?sent @ bs"
    using l by (simp add: min_def)
  moreover have "bs \<noteq> [] \<Longrightarrow> 2 \<le> 2 * length bs" by (cases bs) simp_all
  ultimately show ?thesis
    using assms(1-7,9) l no woken
    by (auto simp: reader_moves_def reader_inv_def reader_count_def server_event_def Let_def)
qed

lemma arrive_moves:
  assumes "reader_inv s" and "tf_net s = Live" and "bs \<noteq> []"
    and "drop (tf_taken s) (take (tf_out s) (sent_bytes (cl_inner (tf_client s)))) = bs @ rest"
    and "length (sent_bytes (cl_inner (tf_client s))) < 2 ^ 64"
  shows "\<exists>e. server_arrive Q (tf_store s) (tf_server s) bs = Some e
    \<and> reader_moves s ((server_event e s)\<lparr>tf_taken := tf_taken s + length bs\<rparr>)"
proof -
  from assms(1) have rd: "reader_ready (tf_store s) (sv_inner (tf_server s)) (sv_read_waker (tf_server s))"
    and t: "tf_taken s \<le> tf_out s" "tf_out s \<le> length (sent_bytes (cl_inner (tf_client s)))"
      "tf_got s @ content (sv_inner (tf_server s)) = take (tf_taken s) (sent_bytes (cl_inner (tf_client s)))"
    and live: "readEof (sv_inner (tf_server s)) = (tf_net s \<noteq> Live)"
    by (simp_all add: reader_inv_def Let_def)
  have "length (content (sv_inner (tf_server s))) + length bs < 2 ^ 64"
    using arg_cong [OF t(3), of length] arg_cong [OF assms(4), of length] t(1,2) assms(5) by simp
  then show ?thesis
  proof (rule arrival_ready [OF rd])
    fix c h w
    assume a: "server_arrive Q (tf_store s) (tf_server s) bs = Some ((tf_server s)\<lparr>sv_inner := c\<rparr>, h, w)"
      and e: "map_option wk_task w = slot_task (tf_store s) (sv_read_waker (tf_server s))"
        "reader_ready h c (sv_read_waker (tf_server s))" "content c = content (sv_inner (tf_server s)) @ bs"
        "readEof c = readEof (sv_inner (tf_server s))"
    from event_moves [OF assms(1,2) e(1,2,3), of Live rest] e(4) live assms(2-4)
    have "reader_moves s ((server_event ((tf_server s)\<lparr>sv_inner := c\<rparr>, h, w) s)\<lparr>tf_taken := tf_taken s + length bs,
        tf_net := Live\<rparr>)" by simp
    moreover have "(server_event e s)\<lparr>tf_taken := k, tf_net := Live\<rparr> = (server_event e s)\<lparr>tf_taken := k\<rparr>" for e k
      using assms(2) by (cases s) (simp add: server_event_def split: prod.splits)
    ultimately show ?thesis using a by simp
  qed
qed

lemma end_moves:
  assumes "reader_inv s" and "tf_net s = Live"
    and "f = server_readEOF (sv_inner (tf_server s)) (tf_store s) \<and> nt = PeerClosed
        \<and> tf_taken s = tf_out s \<and> (writeError (cl_inner (tf_client s))
          \<or> tf_writer s = ShutDown \<and> tf_out s = length (sent_bytes (cl_inner (tf_client s))))
      \<or> f = server_readErr (sv_inner (tf_server s)) (tf_store s) what \<and> nt = Broken"
  shows "\<exists>e. f = Some e \<and> reader_moves s ((server_event (on_server (tf_server s) e) s)\<lparr>tf_net := nt\<rparr>)"
proof -
  from assms(1) have rd: "reader_ready (tf_store s) (sv_inner (tf_server s)) (sv_read_waker (tf_server s))"
    by (simp add: reader_inv_def Let_def)
  from assms(3) have "f = server_readEOF (sv_inner (tf_server s)) (tf_store s)
      \<or> f = server_readErr (sv_inner (tf_server s)) (tf_store s) what" by blast
  then show ?thesis
  proof (rule end_ready [OF rd])
    fix c h w
    assume f: "f = Some (c, h, w)"
      and e: "map_option wk_task w = slot_task (tf_store s) (sv_read_waker (tf_server s))"
        "reader_ready h c (sv_read_waker (tf_server s))" "content c = content (sv_inner (tf_server s))" "readEof c"
    from event_moves [OF assms(1,2) e(1,2), of "[]" nt] e(3,4) assms(3)
    have "reader_moves s ((server_event ((tf_server s)\<lparr>sv_inner := c\<rparr>, h, w) s)\<lparr>tf_taken := tf_taken s, tf_net := nt\<rparr>)"
      by auto
    then show ?thesis using f by (simp add: server_event_def on_server_def)
  qed
qed

end

section \<open>The whole transfer\<close>

lemma reader_moves_inv:
  assumes "transfer_inv N room M s" and "reader_moves s s'"
  shows "transfer_inv N room M s' \<and> writer_count N s + reader_count s < writer_count N s' + reader_count s'"
  using assms by (simp add: transfer_inv_def reader_moves_def writer_inv_def writer_count_def)

lemma writer_moves_inv:
  assumes "transfer_inv N room M s" and "writer_moves N room M s s'" and "evb_thread (cl_inner (tf_client s))"
  shows "transfer_inv N room M s' \<and> writer_count N s + reader_count s < writer_count N s' + reader_count s'"
proof -
  let ?t = "s\<lparr>tf_client := tf_client s', tf_writer := tf_writer s', tf_out := tf_out s'\<rparr>"
  from assms(2) obtain x where s': "s' = ?t" and w: "writer_inv room M s'"
    and x: "sent_bytes (cl_inner (tf_client s')) = sent_bytes (cl_inner (tf_client s)) @ x"
    and o: "tf_out s \<le> tf_out s'"
      "writeError (cl_inner (tf_client s)) \<longrightarrow> writeError (cl_inner (tf_client s')) \<and> tf_out s' = tf_out s"
    by (auto simp: writer_moves_def)
  have "tf_writer s \<noteq> ShutDown"
    using assms(1,3) by (auto simp: transfer_inv_def writer_inv_def sender_inv_def)
  moreover have "tf_out s' \<le> length (sent_bytes (cl_inner (tf_client s')))"
    using w by (simp add: writer_inv_def sender_inv_def)
  ultimately have "reader_inv ?t"
    using assms(1) x o by (auto simp: transfer_inv_def reader_inv_def Let_def)
  then have r: "reader_inv s'" using s' by simp
  have "reader_count ?t = reader_count s" by (simp add: reader_count_def)
  then have "reader_count s' = reader_count s" using s' by simp
  with r assms(1,2) show ?thesis by (simp add: transfer_inv_def writer_moves_def)
qed

lemma sent_le_message:
  assumes "transfer_inv N room M s"
  shows "length (sent_bytes (cl_inner (tf_client s)) @ concat (evb_tasks (cl_inner (tf_client s)))) \<le> length M"
proof -
  have "prefix (sent_bytes (cl_inner (tf_client s)) @ concat (evb_tasks (cl_inner (tf_client s)))
      @ left_to_send (tf_writer s)) M"
    using assms by (simp add: transfer_inv_def writer_inv_def sender_inv_def)
  from prefix_length_le [OF this] show ?thesis by simp
qed

text \<open>When the network may report the end, the reader's invariant says what it means.\<close>

lemma close_seen:
  assumes "transfer_inv N room M s"
    and "was_closed (cl_inner (tf_client s)) \<and> tf_out s = length (sent_bytes (cl_inner (tf_client s)))
      \<or> gone (cl_inner (tf_client s))"
  shows "writeError (cl_inner (tf_client s))
    \<or> tf_writer s = ShutDown \<and> tf_out s = length (sent_bytes (cl_inner (tf_client s)))"
  using assms by (cases "tf_writer s") (auto simp: transfer_inv_def writer_inv_def sender_inv_def)

context reading
begin

lemma transfer_step_keeps:
  assumes "transfer_step ww Q good room faults s s'" and "transfer_inv N room M s" and "good_until_closed good"
    and "closed_not_good good" and "length M < 2 ^ 64"
  shows "transfer_inv N room M s' \<and> writer_count N s + reader_count s < writer_count N s' + reader_count s'"
proof -
  have inv: "reader_inv s" "writer_inv room M s" using assms(2) by (simp_all add: transfer_inv_def)
  note moved = writer_moves_inv [OF assms(2)] and received = reader_moves_inv [OF assms(2)]
  from assms(1) show ?thesis
  proof cases
    case (send ps)
    then have "evb_thread (cl_inner (tf_client s))" "length ps \<le> N"
      using assms(2) by (auto simp: transfer_inv_def writer_inv_def sender_inv_def)
    with moved [OF send_next_moves [OF inv(2) assms(3,4) send(2)]] send(1) show ?thesis by simp
  next
    case turn
    with moved [OF turn_moves(1) [OF inv(2)]] show ?thesis by simp
  next
    case (turn_fails what)
    with moved [OF turn_moves(2) [OF inv(2)]] show ?thesis by simp
  next
    case (leave n)
    with moved [OF leave_moves [OF inv(2)]] show ?thesis by simp
  next
    case (write_fails what)
    with moved [OF write_fails_moves [OF inv(2)]] show ?thesis by simp
  next
    case (receive n i)
    with received [OF receive_moves [OF inv(1)]] show ?thesis by simp
  next
    case (arrive bs rest e)
    have "length (sent_bytes (cl_inner (tf_client s))) < 2 ^ 64"
      using sent_le_message [OF assms(2)] assms(5) by simp
    from arrive_moves [OF inv(1) arrive(2,3,4) this] arrive(1,5) have "reader_moves s s'" by simp
    from received [OF this] show ?thesis .
  next
    case (peer_close e)
    with end_moves [OF inv(1) peer_close(2), of "Some e" PeerClosed] close_seen [OF assms(2) peer_close(4)]
    have "reader_moves s s'" by simp
    from received [OF this] show ?thesis .
  next
    case (break what e)
    with end_moves [OF inv(1) break(3), of "Some e" Broken what] have "reader_moves s s'" by simp
    from received [OF this] show ?thesis .
  qed
qed

lemma transfer_run_keeps:
  assumes "transfer_run ww Q good room faults s0 n s" and "transfer_inv N room M s0" and "good_until_closed good"
    and "closed_not_good good" and "length M < 2 ^ 64"
  shows "transfer_inv N room M s \<and> n + writer_count N s0 + reader_count s0 \<le> writer_count N s + reader_count s"
  using assms(1)
proof induction
  case start
  show ?case using assms(2) by simp
next
  case (more n s s')
  with transfer_step_keeps [OF more(2) _ assms(3-5)] show ?case by fastforce
qed

text \<open>
  In a state without a next step the client is done, and the server is at the end of the stream or waits for bytes or
  an end that the client's transport has kept.
\<close>

lemma transfer_stuck:
  assumes "transfer_inv N room M s" and "length M < 2 ^ 64" and "\<nexists>s'. transfer_step ww Q good room faults s s'"
  shows "\<nexists>ps. tf_writer s = Sends ps"
    and "tf_reader s \<noteq> Some (Inr ()) \<Longrightarrow> tf_parked s \<and> tf_net s = Live \<and> tf_taken s = tf_out s
      \<and> \<not> gone (cl_inner (tf_client s))
      \<and> \<not> (was_closed (cl_inner (tf_client s)) \<and> tf_out s = length (sent_bytes (cl_inner (tf_client s))))"
proof -
  let ?c = "cl_inner (tf_client s)"
  from assms(1) have r: "reader_inv s" by (simp add: transfer_inv_def)
  show "\<nexists>ps. tf_writer s = Sends ps" using assms(3) transfer_step.send by blast
  assume "tf_reader s \<noteq> Some (Inr ())"
  with r have "tf_reader s = None" by (cases "tf_reader s") (auto simp: reader_inv_def Let_def)
  with assms(3) transfer_step.receive [of s, OF _ _ zero_less_one] have parked: "tf_parked s" by blast
  with r have live: "tf_net s = Live" by (auto simp: reader_inv_def Let_def)
  let ?next = "drop (tf_taken s) (take (tf_out s) (sent_bytes ?c))"
  have "?next = []"
  proof (rule ccontr)
    assume ne: "?next \<noteq> []"
    have "length (sent_bytes ?c) < 2 ^ 64" using sent_le_message [OF assms(1)] assms(2) by simp
    from arrive_moves [OF r live ne append_Nil2 [symmetric] this] obtain e where
      "server_arrive Q (tf_store s) (tf_server s) ?next = Some e" by blast
    from transfer_step.arrive [OF live ne append_Nil2 [symmetric] this] show False using assms(3) by blast
  qed
  with r have all: "tf_taken s = tf_out s" by (simp add: reader_inv_def Let_def)
  moreover have "\<not> (was_closed ?c \<and> tf_out s = length (sent_bytes ?c) \<or> gone ?c)"
  proof
    assume seen: "was_closed ?c \<and> tf_out s = length (sent_bytes ?c) \<or> gone ?c"
    from end_moves [OF r live, of "server_readEOF (sv_inner (tf_server s)) (tf_store s)" PeerClosed]
      close_seen [OF assms(1) seen] all
    obtain e where "server_readEOF (sv_inner (tf_server s)) (tf_store s) = Some e" by blast
    from transfer_step.peer_close [OF live all seen this] show False using assms(3) by blast
  qed
  ultimately show "tf_parked s \<and> tf_net s = Live \<and> tf_taken s = tf_out s \<and> \<not> gone ?c
      \<and> \<not> (was_closed ?c \<and> tf_out s = length (sent_bytes ?c))" using parked live by blast
qed

end

text \<open>What a step leaves alone.\<close>

lemmas step_cases = writer.splits list.splits Poll.splits sum.splits call.splits prod.splits

lemma frame_simps [simp]:
  "tf_net (send_next room good s) = tf_net s" "tf_taken (send_next room good s) = tf_taken s"
  "tf_net (receive_next ww Q w n s) = tf_net s" "tf_taken (receive_next ww Q w n s) = tf_taken s"
  "tf_client (receive_next ww Q w n s) = tf_client s" "tf_writer (receive_next ww Q w n s) = tf_writer s"
  "tf_out (receive_next ww Q w n s) = tf_out s"
  "tf_net (server_event e s) = tf_net s" "tf_client (server_event e s) = tf_client s"
  "tf_writer (server_event e s) = tf_writer s" "tf_out (server_event e s) = tf_out s"
  "tf_net (client_turn room s) = tf_net s" "tf_taken (client_turn room s) = tf_taken s"
  "tf_net (failed_turn what s) = tf_net s" "tf_taken (failed_turn what s) = tf_taken s"
  by (simp_all add: send_next_def shut_down_def receive_next_def server_event_def client_turn_def failed_turn_def Let_def
      split: step_cases)

text \<open>Without faults the connection does not break and no write fails.\<close>

lemma send_keeps_errors [simp]:
  "writeError (cl_inner (tf_client (send_next room good s))) = writeError (cl_inner (tf_client s))"
  "gone (cl_inner (tf_client (send_next room good s))) = gone (cl_inner (tf_client s))"
  by (auto simp: send_next_def shut_down_def client_poll_flush_def client_poll_shutdown_def client_poll_write_def
      ClientConnection_close_def server_connection_close_def server_connection_write_def split: step_cases if_splits
      option.splits)

lemma fault_free_run:
  assumes "transfer_run ww Q good room False s0 n s" and "tf_net s0 \<noteq> Broken"
    and "\<not> writeError (cl_inner (tf_client s0))" and "\<not> gone (cl_inner (tf_client s0))"
  shows "tf_net s \<noteq> Broken \<and> \<not> writeError (cl_inner (tf_client s)) \<and> \<not> gone (cl_inner (tf_client s))"
  using assms(1)
proof induction
  case start
  show ?case using assms(2-4) by simp
next
  case (more n s s')
  from more(2,3) show ?case by cases (simp_all add: client_turn_def)
qed

text \<open>Once the stream has ended, nothing arrives any more; once the client's thread has stopped, nothing leaves.\<close>

lemma ended_run:
  assumes "transfer_run ww Q good room faults s0 n s" and "tf_net s0 \<noteq> Live"
  shows "tf_net s = tf_net s0 \<and> tf_taken s = tf_taken s0"
  using assms(1)
proof induction
  case start
  show ?case by simp
next
  case (more n s s')
  from more(2,3) assms(2) show ?case by cases simp_all
qed

lemma stopped_run:
  assumes "transfer_run ww Q good room faults s0 n s" and "tf_writer s0 = ShutDown"
    and "\<not> evb_thread (cl_inner (tf_client s0))"
  shows "tf_client s = tf_client s0 \<and> tf_writer s = ShutDown \<and> tf_out s = tf_out s0"
  using assms(1)
proof induction
  case start
  show ?case using assms(2) by simp
next
  case (more n s s')
  from more(2,3) assms(3) show ?case by cases simp_all
qed

lemma transfer_run_append:
  assumes "transfer_run ww Q good room faults s1 m s2" and "transfer_run ww Q good room faults s0 n s1"
  shows "transfer_run ww Q good room faults s0 (n + m) s2"
  using assms(1) by induction (use assms(2) in \<open>auto intro: transfer_run.more\<close>)

lemma transfer_count_bound:
  assumes "transfer_inv N room M s"
  shows "writer_count N s + reader_count s \<le> 6 * length M + N + 5"
proof -
  have t: "tf_taken s \<le> tf_out s" "tf_out s \<le> length (sent_bytes (cl_inner (tf_client s)))"
    "tf_got s @ content (sv_inner (tf_server s)) = take (tf_taken s) (sent_bytes (cl_inner (tf_client s)))"
    "tf_parked s \<Longrightarrow> tf_net s = Live \<and> tf_reader s = None"
    using assms by (auto simp: transfer_inv_def reader_inv_def Let_def)
  have "length (tf_got s) \<le> tf_taken s" using arg_cong [OF t(3), of length] t(1,2) by simp
  moreover have "reader_count s \<le> 2 * tf_taken s + length (tf_got s) + 3"
    using t(4) by (auto simp: reader_count_def)
  moreover have "writer_count N s \<le> 2 * length M + tf_out s + N + 2"
    using sent_le_message [OF assms] by (auto simp: writer_count_def Let_def)
  ultimately show ?thesis using t(1,2) sent_le_message [OF assms] by simp
qed

lemma got_prefix:
  assumes "transfer_inv N room M s"
  shows "prefix (tf_got s) M" and "\<nexists>e. tf_reader s = Some (Inl e)"
    and "tf_reader s = Some (Inr ()) \<Longrightarrow> tf_net s \<noteq> Broken \<Longrightarrow> \<not> writeError (cl_inner (tf_client s)) \<Longrightarrow> tf_got s = M"
    and "content (sv_inner (tf_server s)) = [] \<Longrightarrow> tf_got s = take (tf_taken s) M"
proof -
  let ?sent = "sent_bytes (cl_inner (tf_client s))"
  have r: "tf_got s @ content (sv_inner (tf_server s)) = take (tf_taken s) ?sent"
    and t: "tf_taken s \<le> length ?sent"
    using assms by (simp_all add: transfer_inv_def reader_inv_def Let_def)
  have "prefix (?sent @ concat (evb_tasks (cl_inner (tf_client s))) @ left_to_send (tf_writer s)) M"
    using assms by (simp add: transfer_inv_def writer_inv_def sender_inv_def)
  from append_prefixD [OF this] obtain x where M: "M = ?sent @ x" by (auto elim: prefixE)
  then have m: "take (tf_taken s) ?sent = take (tf_taken s) M" using t by simp
  show "prefix (tf_got s) M" using r unfolding m by (metis append_prefixD take_is_prefix)
  show "\<nexists>e. tf_reader s = Some (Inl e)" using assms by (auto simp: transfer_inv_def reader_inv_def Let_def)
  show "tf_got s = take (tf_taken s) M" if "content (sv_inner (tf_server s)) = []" using that r m by simp
  show "tf_got s = M" if "tf_reader s = Some (Inr ())" "tf_net s \<noteq> Broken" "\<not> writeError (cl_inner (tf_client s))"
    using that assms r
    by (cases "tf_net s") (auto simp: transfer_inv_def reader_inv_def writer_inv_def sender_inv_def Let_def)
qed

section \<open>The start\<close>

text \<open>What \<open>connect\<close> returns can be written to.\<close>

definition write_fresh :: "'a FizzServerConnection_scheme \<Rightarrow> bool" where
  "write_fresh conn \<longleftrightarrow>
     write_ready conn \<and> \<not> writeError conn \<and> evb_thread conn \<and> evb_tasks conn = [] \<and> sent_bytes conn = []
     \<and> (\<exists>calls. transport conn = Some calls \<and> open_transport calls)"

lemma connect_write_fresh:
  assumes "hs_event env = Some (HandshakeSuccess cert)"
    and "to_value (connect K env h self hostname) = Returns (Inr c)"
  shows "write_fresh (cl_inner c)"
proof -
  from assms connect_ok_iff [of env K h self hostname] obtain raw where raw: "into_std env = Inr raw" "join_error env = None"
    "x509_store_new K" "x509_store_load_locations K (cx_caCertPath (ctc_inner self))" "newSocket K raw = Inr ()"
    and acc: "context_accepts K (ctc_inner self) cert" by auto
  then obtain conn where conn: "client_connect K (ctc_inner self) raw hostname = (Inr conn, True)"
    by (auto simp: client_connect_iff)
  from connect_accepted [OF raw(1,2) conn assms(1) acc, of h] assms(2) show ?thesis
    by (auto simp: write_fresh_def write_ready_def set_server_read_waker_def client_established_def client_started_def
        tr_do_def sent_bytes_def open_transport_def)
qed

lemma write_fresh_open:
  "write_fresh conn \<Longrightarrow> \<not> was_closed conn" "write_fresh conn \<Longrightarrow> \<not> gone conn"
  by (auto simp: write_fresh_def was_closed_def gone_def open_transport_def)

lemma transfer_start_inv:
  assumes "write_fresh (cl_inner c)" and "link_fresh h (sv_inner s) (sv_read_waker s)"
  shows "transfer_inv (length pieces) room (concat pieces) (transfer_start pieces c h s)"
  using assms write_fresh_open [OF assms(1)]
  by (simp add: transfer_inv_def transfer_start_def writer_inv_def sender_inv_def reader_inv_def write_fresh_def
      link_fresh_def link_ready_def reader_ready_def Let_def)

text \<open>The start of a transfer that nothing disturbs, and where it can stop.\<close>

lemma start_undisturbed:
  assumes "transfer_run ww Q good room False (transfer_start pieces c h s) n st" and "write_fresh (cl_inner c)"
  shows "tf_net st \<noteq> Broken" "\<not> writeError (cl_inner (tf_client st))" "\<not> gone (cl_inner (tf_client st))"
  using fault_free_run [OF assms(1)] assms(2) write_fresh_open [OF assms(2)]
  by (simp_all add: transfer_start_def write_fresh_def)

context reading
begin

lemma transfer_bounded:
  assumes "transfer_run ww Q good room faults s0 n s" and "transfer_inv N room M s0" and "good_until_closed good"
    and "closed_not_good good" and "length M < 2 ^ 64"
  shows "n \<le> 6 * length M + N + 5"
  using transfer_run_keeps [OF assms] transfer_count_bound [of N room M s] by linarith

lemma transfer_maximal:
  assumes "transfer_inv N room M s0" and "good_until_closed good" and "closed_not_good good" and "length M < 2 ^ 64"
  shows "\<exists>n s. transfer_run ww Q good room faults s0 n s \<and> (\<nexists>s'. transfer_step ww Q good room faults s s')"
proof (rule ccontr)
  assume *: "\<not> ?thesis"
  have "\<exists>s. transfer_run ww Q good room faults s0 n s" for n
  proof (induction n)
    case 0
    show ?case using transfer_run.start by blast
  next
    case (Suc n)
    with * show ?case using transfer_run.more by blast
  qed
  from this [of "Suc (6 * length M + N + 5)"] transfer_bounded [OF _ assms] show False by fastforce
qed

lemma undisturbed_completes:
  assumes "transfer_inv N room M s" and "length M < 2 ^ 64" and "\<nexists>s'. transfer_step ww Q good room faults s s'"
    and "tf_net s \<noteq> Broken" and "\<not> writeError (cl_inner (tf_client s))" and "length M \<le> room"
  shows "tf_writer s = ShutDown \<and> tf_reader s = Some (Inr ()) \<and> tf_got s = M"
proof -
  have w: "sender_inv room M (cl_inner (tf_client s)) (tf_writer s) (tf_out s)"
    using assms(1) by (simp add: transfer_inv_def writer_inv_def)
  with transfer_stuck(1) [OF assms(1-3)] assms(5) have "tf_writer s = ShutDown"
    by (cases "tf_writer s") (auto simp: sender_inv_def)
  moreover from this w assms(5,6)
  have "was_closed (cl_inner (tf_client s))" "tf_out s = length (sent_bytes (cl_inner (tf_client s)))"
    by (simp_all add: sender_inv_def)
  ultimately show ?thesis
    using transfer_stuck(2) [OF assms(1-3)] got_prefix(3) [OF assms(1) _ assms(4,5)] by blast
qed

end

text \<open>A client that writes, flushes and shuts down before the socket has taken all of its message.\<close>

lemma eager_close:
  assumes "write_fresh (cl_inner c)" and "good_until_closed good" and "room < length bs"
  obtains st where "transfer_run ww Q good room False (transfer_start [bs] c h s) 3 st"
    and "tf_writer st = ShutDown" "\<not> evb_thread (cl_inner (tf_client st))" "tf_out st = room"
    and "sent_bytes (cl_inner (tf_client st)) = bs"
proof -
  let ?c = "cl_inner c" and ?s0 = "transfer_start [bs] c h s"
  let ?q = "?c\<lparr>evb_tasks := [bs]\<rparr>"
  from assms(1) obtain calls where c: "transport ?c = Some calls" "open_transport calls" "evb_thread ?c" "evb_tasks ?c = []"
    "sent_bytes ?c = []" "\<not> writeError ?c" "handshakeComplete ?c" by (auto simp: write_fresh_def write_ready_def)
  then have "good calls" using assms(2) by (simp add: good_until_closed_def)
  define s1 where "s1 = ?s0\<lparr>tf_client := c\<lparr>cl_inner := ?q\<rparr>, tf_writer := Sends [[]]\<rparr>"
  define s2 where "s2 = s1\<lparr>tf_writer := Sends []\<rparr>"
  define s3 where "s3 = s2\<lparr>tf_client := c\<lparr>cl_inner := (tr_do TrClose (run_tasks ?q))\<lparr>evb_thread := False\<rparr>\<rparr>,
    tf_writer := ShutDown, tf_out := room\<rparr>"
  from assms(3) have "bs \<noteq> []" by auto
  with c have s1: "send_next room good ?s0 = s1"
    by (simp add: s1_def send_next_def transfer_start_def client_poll_write_def server_connection_write_def)
  have s2: "send_next room good s1 = s2" by (simp add: s1_def s2_def send_next_def)
  have "out_after room s2 [bs] = room"
    using c assms(3) by (simp add: out_after_def hand_over_def s2_def s1_def transfer_start_def)
  with c \<open>good calls\<close> have s3: "send_next room good s2 = s3"
    by (simp add: s1_def s2_def s3_def send_next_def shut_down_def client_poll_flush_def client_poll_shutdown_def
        ClientConnection_close_def server_connection_close_def transfer_start_def)
  have w: "tf_writer ?s0 = Sends [bs]" "tf_writer s1 = Sends [[]]" "tf_writer s2 = Sends []"
    by (simp_all add: s1_def s2_def transfer_start_def)
  note step = transfer_step.send [of _ _ ww Q good room False]
  have "transfer_step ww Q good room False ?s0 s1" "transfer_step ww Q good room False s1 s2"
    "transfer_step ww Q good room False s2 s3"
    using step [OF w(1)] step [OF w(2)] step [OF w(3)] by (simp_all add: s1 s2 s3)
  then have "transfer_run ww Q good room False ?s0 (Suc (Suc (Suc 0))) s3"
    by (blast intro: transfer_run.intros)
  with c show thesis
    by (intro that [of s3]) (simp_all add: numeral_3_eq_3 s3_def)
qed

section \<open>A concrete instance\<close>

definition sample_pieces :: "u8 list list" where
  "sample_pieces = [[1, 2], [], [3]]"

lemma sample_pieces_length:
  "length (concat sample_pieces) < 2 ^ 64" "length (concat sample_pieces) \<le> 3" "length [1, 2, 3 :: u8] < 2 ^ 64"
  by (simp_all add: sample_pieces_def)

lemma good_until_closed_sample: "good_until_closed open_transport"
  by (simp add: good_until_closed_def)

lemma transfer_sample:
  assumes "length (concat pieces) < 2 ^ 64"
  obtains c s n st where "to_value link_connect = Returns (Inr c)" "to_value link_accept = Returns (Inr s)"
    "write_fresh (cl_inner c)" "link_fresh (to_store link_accept) (sv_inner s) (sv_read_waker s)"
    "transfer_run (=) block_queue open_transport room faults (transfer_start pieces c (to_store link_accept) s) n st"
    "\<nexists>st'. transfer_step (=) block_queue open_transport room faults st st'"
proof -
  obtain c s where v: "to_value link_connect = Returns (Inr c)" "to_value link_accept = Returns (Inr s)"
    using link_connect_value link_accept_value by blast
  have fresh: "write_fresh (cl_inner c)" "link_fresh (to_store link_accept) (sv_inner s) (sv_read_waker s)"
    using connect_write_fresh [OF sample_env_fields(3) v(1) [unfolded link_connect_def]]
      accept_fresh [OF sample_env_fields(3) v(2) [unfolded link_accept_def]]
    by (simp_all add: link_accept_def)
  from block_reading.transfer_maximal
    [OF transfer_start_inv [OF fresh] good_until_closed_sample open_transport_closed assms] that v fresh
  show thesis by blast
qed

text \<open>A connection that breaks before anything has arrived.\<close>

lemma broken_sample:
  assumes "length (concat pieces) < 2 ^ 64"
  obtains c s n st where
    "write_fresh (cl_inner c)" "link_fresh (to_store link_accept) (sv_inner s) (sv_read_waker s)"
    "transfer_run (=) block_queue open_transport room True (transfer_start pieces c (to_store link_accept) s) n st"
    "tf_net st = Broken" "tf_taken st = 0" "\<nexists>st'. transfer_step (=) block_queue open_transport room True st st'"
proof (rule transfer_sample [OF assms, of room True])
  fix c :: ClientConnection and s :: ServerConnection
  assume fresh: "write_fresh (cl_inner c)" "link_fresh (to_store link_accept) (sv_inner s) (sv_read_waker s)"
  let ?s0 = "transfer_start pieces c (to_store link_accept) s"
  note inv = transfer_start_inv [OF fresh, of pieces room]
  then have rd: "reader_inv ?s0" and live: "tf_net ?s0 = Live" by (simp_all add: transfer_inv_def transfer_start_def)
  obtain e where e: "server_readErr (sv_inner (tf_server ?s0)) (tf_store ?s0) ''reset'' = Some e"
    using block_reading.end_moves [OF rd live, of _ Broken "''reset''"] by blast
  let ?s1 = "(server_event (on_server (tf_server ?s0) e) ?s0)\<lparr>tf_net := Broken\<rparr>"
  have step: "transfer_step (=) block_queue open_transport room True ?s0 ?s1"
    by (rule transfer_step.break [OF TrueI live e])
  note usable = good_until_closed_sample open_transport_closed assms
  have "transfer_inv (length pieces) room (concat pieces) ?s1"
    using block_reading.transfer_step_keeps [OF step inv usable] by simp
  from block_reading.transfer_maximal [OF this usable, of True] obtain n st where
    run: "transfer_run (=) block_queue open_transport room True ?s1 n st"
    and stop: "\<nexists>st'. transfer_step (=) block_queue open_transport room True st st'" by blast
  from ended_run [OF run] have "tf_net st = Broken \<and> tf_taken st = 0"
    by (simp add: server_event_def transfer_start_def split: prod.splits)
  with transfer_run_append [OF run transfer_run.more [OF transfer_run.start step]] stop fresh show thesis
    by (blast intro: that)
qed

section \<open>Properties\<close>

text \<open>C3. A message that fits the socket arrives whole, and so does the end of the stream. Let a client task write the
  pieces of a message on a connection that \<open>connect\<close> has returned, flush and shut down, and a server task
  read from one that \<open>accept\<close> has returned until the end of the stream. However the two tasks, the client's
  event-base thread, which \<open>shutdown\<close> stops, the socket, the arrival of bytes and the peer's close are
  interleaved, a run without failures that cannot go on has the client shut down without an error and the server at the
  end of the stream, with exactly the message read.\<close>

theorem transfer_completes:
  assumes "iobuf_queue Q" and "will_wake_sound ww" and "good_until_closed good" and "closed_not_good good"
    and "length (concat pieces) < 2 ^ 64" and "length (concat pieces) \<le> room"
    and "hs_event cenv = Some (HandshakeSuccess cert)"
    and "to_value (connect K cenv hc cctx hostname) = Returns (Inr c)"
    and "hs_event senv = Some (HandshakeSuccess cert')"
    and "to_value (accept K (Inr senv) hs sctx) = Returns (Inr s)"
    and "transfer_run ww Q good room False (transfer_start pieces c (to_store (accept K (Inr senv) hs sctx)) s) n st"
    and "\<nexists>st'. transfer_step ww Q good room False st st'"
  shows "tf_writer st = ShutDown \<and> tf_reader st = Some (Inr ()) \<and> tf_got st = concat pieces"
proof -
  have rd: "reading Q ww" using assms(1,2) by (simp add: reading_def reading_axioms_def)
  note fresh = connect_write_fresh [OF assms(7,8)]
  note start = transfer_start_inv [OF fresh accept_fresh [OF assms(9,10)]]
  from reading.transfer_run_keeps [OF rd assms(11) start assms(3-5)]
  have inv: "transfer_inv (length pieces) room (concat pieces) st" by simp
  from reading.undisturbed_completes [OF rd inv assms(5,12) start_undisturbed(1,2) [OF assms(11) fresh] assms(6)]
  show ?thesis .
qed

theorem transfer_completes_witness:
  "\<exists>c s n st. transfer_run (=) block_queue open_transport 3 False
      (transfer_start sample_pieces c (to_store link_accept) s) n st
    \<and> tf_writer st = ShutDown \<and> tf_reader st = Some (Inr ()) \<and> tf_got st = [1, 2, 3]"
proof (rule transfer_sample [OF sample_pieces_length(1), of 3 False])
  fix c s n st
  assume v: "to_value link_connect = Returns (Inr c)" "to_value link_accept = Returns (Inr s)"
    and run: "transfer_run (=) block_queue open_transport 3 False
      (transfer_start sample_pieces c (to_store link_accept) s) n st"
    and stop: "\<nexists>st'. transfer_step (=) block_queue open_transport 3 False st st'"
  from transfer_completes [OF block.iobuf_queue_axioms will_wake_sound_eq good_until_closed_sample open_transport_closed
      sample_pieces_length(1,2) sample_env_fields(3) v(1) [unfolded link_connect_def] sample_env_fields(3)
      v(2) [unfolded link_accept_def] run [unfolded link_accept_def] stop] run
  show ?thesis by (intro exI [of _ c] exI [of _ s] exI [of _ n] exI [of _ st]) (simp add: sample_pieces_def)
qed

text \<open>C39. A message that does not fit may be lost although every call succeeds: for every message longer than what the
  socket takes there is a run without any failure in which the client's writes, \<open>flush\<close> and \<open>shutdown\<close> all return
  \<open>Ok\<close>, and that ends with the server parked for ever after the bytes the socket took: \<open>close\<close> stops the event-base
  thread right after \<open>transport->close()\<close>, so what still waits in the transport, and the end of the stream behind it,
  does not leave while the connection is kept.\<close>

theorem unsent_bytes_are_lost:
  assumes "iobuf_queue Q" and "will_wake_sound ww" and "good_until_closed good" and "closed_not_good good"
    and "length bs < 2 ^ 64" and "room < length bs"
    and "hs_event cenv = Some (HandshakeSuccess cert)"
    and "to_value (connect K cenv hc cctx hostname) = Returns (Inr c)"
    and "hs_event senv = Some (HandshakeSuccess cert')"
    and "to_value (accept K (Inr senv) hs sctx) = Returns (Inr s)"
  shows "\<exists>n st. transfer_run ww Q good room False
      (transfer_start [bs] c (to_store (accept K (Inr senv) hs sctx)) s) n st
    \<and> \<not> (\<exists>st'. transfer_step ww Q good room False st st')
    \<and> tf_writer st = ShutDown \<and> tf_reader st = None \<and> tf_parked st \<and> tf_got st = take room bs"
proof -
  have rd: "reading Q ww" using assms(1,2) by (simp add: reading_def reading_axioms_def)
  note fresh = connect_write_fresh [OF assms(7,8)]
  let ?s0 = "transfer_start [bs] c (to_store (accept K (Inr senv) hs sctx)) s"
  have start: "transfer_inv (length [bs]) room bs ?s0"
    using transfer_start_inv [OF fresh accept_fresh [OF assms(9,10)], of "[bs]" room] by simp
  show ?thesis
  proof (rule eager_close [OF fresh assms(3,6)])
    fix s3
    assume run3: "transfer_run ww Q good room False ?s0 3 s3" and w: "tf_writer s3 = ShutDown"
      "\<not> evb_thread (cl_inner (tf_client s3))" "tf_out s3 = room" "sent_bytes (cl_inner (tf_client s3)) = bs"
    have "transfer_inv (length [bs]) room bs s3"
      using reading.transfer_run_keeps [OF rd run3 start assms(3-5)] by simp
    from reading.transfer_maximal [OF rd this assms(3-5)] obtain n st where
      run: "transfer_run ww Q good room False s3 n st" and stop: "\<nexists>st'. transfer_step ww Q good room False st st'"
      by blast
    note whole = transfer_run_append [OF run run3]
    have inv: "transfer_inv (length [bs]) room bs st"
      using reading.transfer_run_keeps [OF rd whole start assms(3-5)] by simp
    have kept: "tf_client st = tf_client s3" "tf_writer st = ShutDown" "tf_out st = room"
      using stopped_run [OF run w(1,2)] w(3) by simp_all
    note calm = start_undisturbed [OF whole fresh]
    have "tf_net st \<noteq> PeerClosed"
      using inv calm kept w(4) assms(6) by (auto simp: transfer_inv_def reader_inv_def Let_def)
    then have "tf_net st = Live" using calm(1) by (cases "tf_net st") simp_all
    then have "tf_reader st \<noteq> Some (Inr ())" using inv by (auto simp: transfer_inv_def reader_inv_def Let_def)
    from reading.transfer_stuck(2) [OF rd inv assms(5) stop this] have parked: "tf_parked st" "tf_taken st = tf_out st"
      by simp_all
    then have "tf_reader st = None" "content (sv_inner (tf_server st)) = []"
      using inv by (simp_all add: transfer_inv_def reader_inv_def Let_def)
    with got_prefix(4) [OF inv] parked kept whole stop show ?thesis by auto
  qed
qed

theorem unsent_bytes_are_lost_witness:
  "\<exists>c s n st. transfer_run (=) block_queue open_transport 2 False
      (transfer_start [[1, 2, 3]] c (to_store link_accept) s) n st
    \<and> \<not> (\<exists>st'. transfer_step (=) block_queue open_transport 2 False st st')
    \<and> tf_writer st = ShutDown \<and> tf_parked st \<and> tf_got st = [1, 2]"
proof -
  obtain c s where v: "to_value link_connect = Returns (Inr c)" "to_value link_accept = Returns (Inr s)"
    using link_connect_value link_accept_value by blast
  have "(2 :: nat) < length [1, 2, 3 :: u8]" by simp
  from unsent_bytes_are_lost [OF block.iobuf_queue_axioms will_wake_sound_eq good_until_closed_sample
      open_transport_closed sample_pieces_length(3) this sample_env_fields(3) v(1) [unfolded link_connect_def]
      sample_env_fields(3) v(2) [unfolded link_accept_def]]
  show ?thesis unfolding link_accept_def by auto
qed

text \<open>C8. A failing connection does not make the server read a wrong byte: in every state of every run, with
  failed writes at the client and a failed read at the server allowed at any time, what the server has read is a
  beginning of the message and none of its reads has returned an error; it has the whole message when it has
  reached the end of the stream and neither the connection broke nor a write failed; and the client has met
  an error only if a write of its own has failed.\<close>

theorem transfer_prefix:
  assumes "iobuf_queue Q" and "will_wake_sound ww" and "good_until_closed good" and "closed_not_good good"
    and "length (concat pieces) < 2 ^ 64"
    and "write_fresh (cl_inner c)" and "link_fresh h (sv_inner s) (sv_read_waker s)"
    and "transfer_run ww Q good room faults (transfer_start pieces c h s) n st"
  shows "prefix (tf_got st) (concat pieces)
    \<and> \<not> (\<exists>e. tf_reader st = Some (Inl e))
    \<and> \<not> (tf_reader st = Some (Inr ()) \<and> tf_net st \<noteq> Broken \<and> \<not> writeError (cl_inner (tf_client st))
          \<and> tf_got st \<noteq> concat pieces)
    \<and> \<not> (\<exists>e. tf_writer st = GaveUp e \<and> \<not> writeError (cl_inner (tf_client st)))"
proof -
  have "reading Q ww" using assms(1,2) by (simp add: reading_def reading_axioms_def)
  from reading.transfer_run_keeps [OF this assms(8) transfer_start_inv [OF assms(6,7)] assms(3-5)]
  have inv: "transfer_inv (length pieces) room (concat pieces) st" by simp
  have "writeError (cl_inner (tf_client st))" if "tf_writer st = GaveUp e" for e
    using that inv by (simp add: transfer_inv_def writer_inv_def sender_inv_def)
  with got_prefix [OF inv] show ?thesis by blast
qed

theorem transfer_prefix_witness:
  "\<exists>c s n st. transfer_run (=) block_queue open_transport 2 True
      (transfer_start sample_pieces c (to_store link_accept) s) n st
    \<and> tf_net st = Broken \<and> prefix (tf_got st) [1, 2, 3] \<and> \<not> (\<exists>e. tf_reader st = Some (Inl e))"
proof (rule broken_sample [OF sample_pieces_length(1), of 2])
  fix c s n st
  assume fresh: "write_fresh (cl_inner c)" "link_fresh (to_store link_accept) (sv_inner s) (sv_read_waker s)"
    and run: "transfer_run (=) block_queue open_transport 2 True
      (transfer_start sample_pieces c (to_store link_accept) s) n st" and "tf_net st = Broken"
  from transfer_prefix [OF block.iobuf_queue_axioms will_wake_sound_eq good_until_closed_sample open_transport_closed
      sample_pieces_length(1) fresh run] run \<open>tf_net st = Broken\<close>
  show ?thesis
    by (intro exI [of _ c] exI [of _ s] exI [of _ n] exI [of _ st]) (simp add: sample_pieces_def)
qed

text \<open>C21. A transfer always stops: no run of \<open>k\<close> pieces with \<open>m\<close> bytes in all has more than
  \<open>6 m + k + 5\<close> steps, whatever the socket takes at a time, with or without failed writes and a failed
  read.\<close>

theorem transfer_stops:
  assumes "iobuf_queue Q" and "will_wake_sound ww" and "good_until_closed good" and "closed_not_good good"
    and "length (concat pieces) < 2 ^ 64"
    and "write_fresh (cl_inner c)" and "link_fresh h (sv_inner s) (sv_read_waker s)"
    and "transfer_run ww Q good room faults (transfer_start pieces c h s) n st"
  shows "n \<le> 6 * length (concat pieces) + length pieces + 5"
proof -
  have "reading Q ww" using assms(1,2) by (simp add: reading_def reading_axioms_def)
  from reading.transfer_bounded [OF this assms(8) transfer_start_inv [OF assms(6,7)] assms(3-5)] show ?thesis .
qed

theorem transfer_stops_witness:
  "\<exists>c s n st. transfer_run (=) block_queue open_transport 2 True
      (transfer_start sample_pieces c (to_store link_accept) s) n st
    \<and> n \<le> 26 \<and> \<not> (\<exists>st'. transfer_step (=) block_queue open_transport 2 True st st')"
proof (rule transfer_sample [OF sample_pieces_length(1), of 2 True])
  fix c s n st
  assume fresh: "write_fresh (cl_inner c)" "link_fresh (to_store link_accept) (sv_inner s) (sv_read_waker s)"
    and run: "transfer_run (=) block_queue open_transport 2 True
      (transfer_start sample_pieces c (to_store link_accept) s) n st"
    and stop: "\<nexists>st'. transfer_step (=) block_queue open_transport 2 True st st'"
  from transfer_stops [OF block.iobuf_queue_axioms will_wake_sound_eq good_until_closed_sample open_transport_closed
      sample_pieces_length(1) fresh run] run stop
  show ?thesis
    by (intro exI [of _ c] exI [of _ s] exI [of _ n] exI [of _ st]) (simp add: sample_pieces_def)
qed

text \<open>C35. A broken connection looks like a complete one: when the connection under the server has broken, the run still
  ends with the server's reads answered by \<open>Ok\<close> and then by the end of the stream, although it has read
  only the bytes that had arrived before; no error reaches it. The client's task has ended too, shut down or
  with a failed write.\<close>

theorem broken_transfer_reads_as_complete:
  assumes "iobuf_queue Q" and "will_wake_sound ww" and "good_until_closed good" and "closed_not_good good"
    and "length (concat pieces) < 2 ^ 64"
    and "write_fresh (cl_inner c)" and "link_fresh h (sv_inner s) (sv_read_waker s)"
    and "transfer_run ww Q good room True (transfer_start pieces c h s) n st" and "tf_net st = Broken"
    and "\<nexists>st'. transfer_step ww Q good room True st st'"
  shows "tf_reader st = Some (Inr ()) \<and> tf_got st = take (tf_taken st) (concat pieces)
    \<and> (tf_writer st = ShutDown
       \<or> (\<exists>e. tf_writer st = GaveUp e) \<and> writeError (cl_inner (tf_client st)))"
proof -
  have rd: "reading Q ww" using assms(1,2) by (simp add: reading_def reading_axioms_def)
  from reading.transfer_run_keeps [OF rd assms(8) transfer_start_inv [OF assms(6,7)] assms(3-5)]
  have inv: "transfer_inv (length pieces) room (concat pieces) st" by simp
  note stuck = reading.transfer_stuck [OF rd inv assms(5,10)]
  have r: "tf_reader st = Some (Inr ())" using stuck(2) assms(9) by auto
  moreover have "content (sv_inner (tf_server st)) = []"
    using r inv by (simp add: transfer_inv_def reader_inv_def Let_def)
  moreover have "tf_writer st = ShutDown \<or> (\<exists>e. tf_writer st = GaveUp e) \<and> writeError (cl_inner (tf_client st))"
    using stuck(1) inv by (cases "tf_writer st") (simp_all add: transfer_inv_def writer_inv_def sender_inv_def)
  ultimately show ?thesis using got_prefix(4) [OF inv] by simp
qed

theorem broken_transfer_reads_as_complete_witness:
  "\<exists>c s n st. transfer_run (=) block_queue open_transport 2 True
      (transfer_start sample_pieces c (to_store link_accept) s) n st
    \<and> tf_net st = Broken \<and> tf_reader st = Some (Inr ()) \<and> tf_got st = []"
proof (rule broken_sample [OF sample_pieces_length(1), of 2])
  fix c s n st
  assume fresh: "write_fresh (cl_inner c)" "link_fresh (to_store link_accept) (sv_inner s) (sv_read_waker s)"
    and run: "transfer_run (=) block_queue open_transport 2 True
      (transfer_start sample_pieces c (to_store link_accept) s) n st"
    and net: "tf_net st = Broken" "tf_taken st = 0"
    and stop: "\<nexists>st'. transfer_step (=) block_queue open_transport 2 True st st'"
  from broken_transfer_reads_as_complete [OF block.iobuf_queue_axioms will_wake_sound_eq good_until_closed_sample
      open_transport_closed sample_pieces_length(1) fresh run net(1) stop] run net
  show ?thesis by (intro exI [of _ c] exI [of _ s] exI [of _ n] exI [of _ st]) simp
qed

end
