(* ===== verification/Fizz_Bridge.thy ===== *)
theory Fizz_Bridge
  imports Fizz_Context
begin

text \<open>
  The declarations of \<open>src/src/bridge.rs\<close>: the C++ functions Rust may call, in the groups of the
  source, and for each whether it is declared with \<open>Result\<close>. cxx turns an exception into an error value
  for those and ends the process for the others. Shown: the wrappers of the library let exceptions
  through exactly as declared, and when the two functions that throw without being declared so
  end the process.
\<close>

section \<open>Declared functions\<close>

datatype certificate_fn =
    Load_certificate_from_pem | Load_certificate_from_file
  | Load_certificate_public_from_pem | Load_certificate_public_from_file
  | Get_certificate_sig_schemes | Certificate_to_pem_fn
  | Load_private_key_from_pem | Generate_ec_p256_keypair | Private_key_to_pem | Get_public_key_der

datatype credential_fn =
    New_credential_generator | Generate_delegated_credential | Verify_delegated_credential
  | Delegated_credential_to_pem | Load_delegated_credential_from_pem | Get_public_verification_info
  | Verification_info_to_json | Verification_info_from_json

datatype server_fn =
    New_server_tls_context | New_server_tls_context_no_dc | Server_context_set_alpn_protocols
  | Server_accept_connection | Server_connection_handshake | Server_connection_is_open
  | Server_connection_close | Server_connection_read | Server_read_size_hint | Server_connection_read_eof
  | Server_connection_read_or_status | Server_connection_write

datatype client_fn =
    New_client_tls_context | New_client_tls_context_no_dc | Client_context_set_alpn_protocols
  | Client_context_set_sni | Client_connect | Client_connection_handshake | Client_connection_is_open
  | Client_connection_close | Client_connection_read | Client_read_size_hint | Client_connection_read_eof
  | Client_connection_read_or_status | Client_connection_write | Client_connection_peer_cert

datatype async_fn =
    Server_connection_handshake_async | Client_connection_handshake_async
  | Set_server_read_waker | Set_client_read_waker | Run_fizz_cpp_bench

datatype bridge_fn =
    CertFn certificate_fn | CredFn credential_fn | ServerFn server_fn | ClientFn client_fn | AsyncFn async_fn

fun certificate_result :: "certificate_fn \<Rightarrow> bool" where
  "certificate_result Load_certificate_from_pem = True"
| "certificate_result Load_certificate_from_file = True"
| "certificate_result Load_certificate_public_from_pem = True"
| "certificate_result Load_certificate_public_from_file = True"
| "certificate_result Get_certificate_sig_schemes = False"
| "certificate_result Certificate_to_pem_fn = False"
| "certificate_result Load_private_key_from_pem = True"
| "certificate_result Generate_ec_p256_keypair = True"
| "certificate_result Private_key_to_pem = False"
| "certificate_result Get_public_key_der = False"

fun credential_result :: "credential_fn \<Rightarrow> bool" where
  "credential_result New_credential_generator = True"
| "credential_result Generate_delegated_credential = True"
| "credential_result Verify_delegated_credential = True"
| "credential_result Delegated_credential_to_pem = False"
| "credential_result Load_delegated_credential_from_pem = True"
| "credential_result Get_public_verification_info = False"
| "credential_result Verification_info_to_json = False"
| "credential_result Verification_info_from_json = True"

fun server_result :: "server_fn \<Rightarrow> bool" where
  "server_result New_server_tls_context = True"
| "server_result New_server_tls_context_no_dc = True"
| "server_result Server_context_set_alpn_protocols = False"
| "server_result Server_accept_connection = True"
| "server_result Server_connection_handshake = True"
| "server_result Server_connection_is_open = False"
| "server_result Server_connection_close = False"
| "server_result Server_connection_read = True"
| "server_result Server_read_size_hint = True"
| "server_result Server_connection_read_eof = False"
| "server_result Server_connection_read_or_status = True"
| "server_result Server_connection_write = True"

fun client_result :: "client_fn \<Rightarrow> bool" where
  "client_result New_client_tls_context = True"
| "client_result New_client_tls_context_no_dc = True"
| "client_result Client_context_set_alpn_protocols = False"
| "client_result Client_context_set_sni = False"
| "client_result Client_connect = True"
| "client_result Client_connection_handshake = True"
| "client_result Client_connection_is_open = False"
| "client_result Client_connection_close = False"
| "client_result Client_connection_read = True"
| "client_result Client_read_size_hint = True"
| "client_result Client_connection_read_eof = False"
| "client_result Client_connection_read_or_status = True"
| "client_result Client_connection_write = True"
| "client_result Client_connection_peer_cert = True"

fun async_result :: "async_fn \<Rightarrow> bool" where
  "async_result Server_connection_handshake_async = True"
| "async_result Client_connection_handshake_async = True"
| "async_result Set_server_read_waker = False"
| "async_result Set_client_read_waker = False"
| "async_result Run_fizz_cpp_bench = True"

fun declares_result :: "bridge_fn \<Rightarrow> bool" where
  "declares_result (CertFn f) = certificate_result f"
| "declares_result (CredFn f) = credential_result f"
| "declares_result (ServerFn f) = server_result f"
| "declares_result (ClientFn f) = client_result f"
| "declares_result (AsyncFn f) = async_result f"

section \<open>Crossing the bridge\<close>

text \<open>What a call that ends with a value or an exception is for the Rust caller.\<close>

datatype 'a crossed = Value 'a | Exception string | Terminated

fun cross :: "bridge_fn \<Rightarrow> string + 'a \<Rightarrow> 'a crossed" where
  "cross f (Inr x) = Value x"
| "cross f (Inl what) = (if declares_result f then Exception what else Terminated)"

text \<open>\<open>?\<close> on the answer: \<open>None\<close> when the process is gone, else a value or the converted exception.\<close>

fun propagate :: "'a crossed \<Rightarrow> (FizzError + 'a) option" where
  "propagate (Value x) = Some (Inr x)"
| "propagate (Exception what) = Some (Inl (from_exception what))"
| "propagate Terminated = None"

text \<open>A plain call: without \<open>Result\<close> there is a value or no process.\<close>

fun plain :: "'a crossed \<Rightarrow> 'a option" where
  "plain (Value x) = Some x"
| "plain _ = None"

lemma propagate_declared: "declares_result f \<Longrightarrow> propagate (cross f r) = Some (ffi_result r)"
  by (cases r) (simp_all add: ffi_result_def)

lemma plain_undeclared: "\<not> declares_result f \<Longrightarrow> plain (cross f r) = ffi_abort r"
  by (cases r) simp_all

lemma cross_Terminated: "cross f r = Terminated \<longleftrightarrow> \<not> declares_result f \<and> (\<exists>what. r = Inl what)"
  by (cases r) simp_all

section \<open>Properties\<close>

text \<open>The wrappers of certificates, keys, generators and contexts let the exceptions of the C++ functions
  through exactly as the bridge declares: each returns the declared crossing of its function, wrapped.\<close>

theorem wrappers_follow_declarations:
  "Some (Certificate_load_from_pem K cert_pem key_pem) =
     map_option (map_ok (\<lambda>inner. \<lparr>cert_inner = inner\<rparr>))
       (propagate (cross (CertFn Load_certificate_from_pem) (load_certificate_from_pem K cert_pem key_pem)))
   \<and> Some (Certificate_load_from_files K cert_path key_path) =
     map_option (map_ok (\<lambda>inner. \<lparr>cert_inner = inner\<rparr>))
       (propagate (cross (CertFn Load_certificate_from_file) (load_certificate_from_file K cert_path key_path)))
   \<and> Some (CertificatePublic_load_from_pem K cert_pem) =
     map_option (map_ok (\<lambda>inner. \<lparr>pub_inner = inner\<rparr>))
       (propagate (cross (CertFn Load_certificate_public_from_pem) (load_certificate_public_from_pem K cert_pem)))
   \<and> Some (CertificatePublic_load_from_file K cert_path) =
     map_option (map_ok (\<lambda>inner. \<lparr>pub_inner = inner\<rparr>))
       (propagate (cross (CertFn Load_certificate_public_from_file) (load_certificate_public_from_file K cert_path)))
   \<and> Some (PrivateKey_generate_ec_p256 K) =
     map_option (map_ok (\<lambda>inner. \<lparr>pk_inner = inner\<rparr>))
       (propagate (cross (CertFn Generate_ec_p256_keypair) (generate_ec_p256_keypair K)))
   \<and> Some (PrivateKey_from_pem K key_pem) =
     map_option (map_ok (\<lambda>inner. \<lparr>pk_inner = inner\<rparr>))
       (propagate (cross (CertFn Load_private_key_from_pem) (load_private_key_from_pem K key_pem)))
   \<and> PrivateKey_to_pem K key = plain (cross (CertFn Private_key_to_pem) (private_key_to_pem K (pk_inner key)))
   \<and> PrivateKey_public_key_der_hex K key =
       plain (cross (CertFn Get_public_key_der) (get_public_key_der K (pk_inner key)))
   \<and> Some (CredentialGenerator_new D parent) =
     map_option (map_ok (\<lambda>inner. \<lparr>cg_inner = inner\<rparr>))
       (propagate (cross (CredFn New_credential_generator) (new_credential_generator D (cert_inner parent))))
   \<and> Some (CredentialGenerator_generate D now g service_name valid_seconds) =
     map_option (map_ok (\<lambda>inner. \<lparr>dcd_inner = inner\<rparr>))
       (propagate (cross (CredFn Generate_delegated_credential)
          (generate_delegated_credential D now (cg_inner g) service_name valid_seconds)))
   \<and> Some (VerificationInfo_from_json json) =
       propagate (cross (CredFn Verification_info_from_json) (verification_info_from_json json))
   \<and> Some (ServerTlsContext_new T cert cred) =
     map_option (map_ok (\<lambda>inner. \<lparr>stc_inner = inner\<rparr>))
       (propagate (cross (ServerFn New_server_tls_context) (new_server_tls_context T (pub_inner cert) (dcd_inner cred))))
   \<and> Some (ServerTlsContext_new_no_dc T parent) =
     map_option (map_ok (\<lambda>inner. \<lparr>stc_inner = inner\<rparr>))
       (propagate (cross (ServerFn New_server_tls_context_no_dc) (new_server_tls_context_no_dc T (cert_inner parent))))
   \<and> Some (ClientTlsContext_new info ca) =
     map_option (map_ok (\<lambda>inner. \<lparr>ctc_inner = inner\<rparr>))
       (propagate (cross (ClientFn New_client_tls_context) (new_client_tls_context info ca)))
   \<and> Some (ClientTlsContext_new_no_dc ca) =
     map_option (map_ok (\<lambda>inner. \<lparr>ctc_inner = inner\<rparr>))
       (propagate (cross (ClientFn New_client_tls_context_no_dc) (new_client_tls_context_no_dc ca)))"
  by (simp add: propagate_declared plain_undeclared Certificate_load_from_pem_def Certificate_load_from_files_def
      CertificatePublic_load_from_pem_def CertificatePublic_load_from_file_def PrivateKey_generate_ec_p256_def
      PrivateKey_from_pem_def PrivateKey_to_pem_def PrivateKey_public_key_der_hex_def CredentialGenerator_new_def
      CredentialGenerator_generate_def VerificationInfo_from_json_def ServerTlsContext_new_def
      ServerTlsContext_new_no_dc_def ClientTlsContext_new_def ClientTlsContext_new_no_dc_def)

text \<open>C38. Two functions throw although they are declared without \<open>Result\<close>: exporting a private key ends the
  process exactly when OpenSSL cannot allocate its buffer or cannot write the key, and asking for the
  public key ends it exactly when OpenSSL cannot encode it.\<close>

theorem key_export_terminates_iff:
  "(cross (CertFn Private_key_to_pem) (private_key_to_pem K key) = Terminated \<longleftrightarrow>
      \<not> (bio_alloc K \<and> pem_write_key K key \<noteq> None))
   \<and> (cross (CertFn Get_public_key_der) (get_public_key_der K key) = Terminated \<longleftrightarrow> i2d_pubkey K key = None)"
  by (cases "pem_write_key K key"; cases "i2d_pubkey K key")
    (auto simp: cross_Terminated private_key_to_pem_def get_public_key_der_def keyToPem_def rethrow_def
      publicKeyToDerHex_def)

end
