(* ===== verification/Fizz_Pointers.thy ===== *)
theory Fizz_Pointers
  imports Fizz_Error
begin

text \<open>
  The rest of \<open>src/src/io.rs\<close>: the wrappers that carry raw pointers into blocking tasks, and
  \<open>spawn_blocking_io\<close>. Boxes live in a store from addresses to values, because what a pointer shows
  depends on who has freed it; a pointer to nothing is undefined behaviour and gives \<open>None\<close>. Bytes
  of buffers live in a second store.
\<close>

section \<open>Boxes\<close>

type_synonym 'a boxes = "nat \<Rightarrow> 'a option"

text \<open>\<open>Box::into_raw(Box::new(v))\<close> at an address the allocator picked, and \<open>Box::from_raw(p)\<close>.\<close>

definition into_raw :: "'a boxes \<Rightarrow> nat \<Rightarrow> 'a \<Rightarrow> 'a boxes \<times> nat" where
  "into_raw h a v = (h(a \<mapsto> v), a)"

definition from_raw :: "'a boxes \<Rightarrow> nat \<Rightarrow> ('a boxes \<times> 'a) option" where
  "from_raw h p = map_option (\<lambda>v. (h(p := None), v)) (h p)"

section \<open>The wrappers\<close>

record SendableRawPtr =
  srp_ptr :: nat

definition SendableRawPtr_new :: "nat \<Rightarrow> SendableRawPtr" where
  "SendableRawPtr_new ptr = \<lparr>srp_ptr = ptr\<rparr>"

definition as_ptr :: "SendableRawPtr \<Rightarrow> nat" where
  "as_ptr self = srp_ptr self"

definition SendableRawPtr_clone :: "SendableRawPtr \<Rightarrow> SendableRawPtr" where
  "SendableRawPtr_clone self = self"

record SendableConnectionPtr =
  scp_ptr :: nat

definition SendableConnectionPtr_new :: "nat \<Rightarrow> SendableConnectionPtr" where
  "SendableConnectionPtr_new conn = \<lparr>scp_ptr = conn\<rparr>"

text \<open>A mutable reference: what is there now, and the store after \<open>f\<close> was applied through it.\<close>

definition as_mut :: "'a boxes \<Rightarrow> SendableConnectionPtr \<Rightarrow> ('a \<Rightarrow> 'a) \<Rightarrow> ('a boxes \<times> 'a) option" where
  "as_mut h self f = map_option (\<lambda>v. (h(scp_ptr self \<mapsto> f v), v)) (h (scp_ptr self))"

record SendableReadBuffer =
  srb_conn_ptr :: nat
  srb_buf_ptr :: nat
  srb_buf_len :: nat

definition SendableReadBuffer_new :: "nat \<Rightarrow> nat \<Rightarrow> nat \<Rightarrow> SendableReadBuffer" where
  "SendableReadBuffer_new conn buf_ptr buf_len =
     \<lparr>srb_conn_ptr = conn, srb_buf_ptr = buf_ptr, srb_buf_len = buf_len\<rparr>"

text \<open>
  The connection and the slice of the buffer; an operation on both writes its slice back into the
  same bytes.
\<close>

definition read_parts :: "'a boxes \<Rightarrow> (nat \<Rightarrow> u8) \<Rightarrow> SendableReadBuffer \<Rightarrow> ('a \<times> u8 list) option" where
  "read_parts h mem self =
     map_option (\<lambda>conn. (conn, map mem [srb_buf_ptr self ..< srb_buf_ptr self + srb_buf_len self]))
       (h (srb_conn_ptr self))"

definition write_slice :: "(nat \<Rightarrow> u8) \<Rightarrow> nat \<Rightarrow> u8 list \<Rightarrow> nat \<Rightarrow> u8" where
  "write_slice mem p bs = (\<lambda>a. if p \<le> a \<and> a < p + length bs then bs ! (a - p) else mem a)"

definition with_read_parts ::
  "'a boxes \<Rightarrow> (nat \<Rightarrow> u8) \<Rightarrow> SendableReadBuffer \<Rightarrow> ('a \<Rightarrow> u8 list \<Rightarrow> 'a \<times> u8 list \<times> 'r)
     \<Rightarrow> ('a boxes \<times> (nat \<Rightarrow> u8) \<times> 'r) option" where
  "with_read_parts h mem self f =
     map_option (\<lambda>(conn, slice). case f conn slice of (conn', slice', r) \<Rightarrow>
         (h(srb_conn_ptr self \<mapsto> conn'), write_slice mem (srb_buf_ptr self) slice', r))
       (read_parts h mem self)"

record SendableWriteBuffer =
  swb_conn_ptr :: nat
  swb_data :: "u8 list"

definition SendableWriteBuffer_new :: "nat \<Rightarrow> u8 list \<Rightarrow> SendableWriteBuffer" where
  "SendableWriteBuffer_new conn data = \<lparr>swb_conn_ptr = conn, swb_data = data\<rparr>"

definition write_parts :: "SendableWriteBuffer \<Rightarrow> nat \<times> u8 list" where
  "write_parts self = (swb_conn_ptr self, swb_data self)"

text \<open>The outcome of the blocking task: the text of a join error, or what the closure returned.\<close>

definition spawn_blocking_io :: "string + (IoErr + 'a) \<Rightarrow> IoErr + 'a" where
  "spawn_blocking_io task = and_then (map_err (\<lambda>e. IoErr Other e) task) (\<lambda>r. r)"

section \<open>Lemmas\<close>

lemma spawn_blocking_io_ok_iff [res_simps]: "spawn_blocking_io task = Inr x \<longleftrightarrow> task = Inr (Inr x)"
  by (auto simp: spawn_blocking_io_def res_simps)

text \<open>A box that travels through a copied pointer comes back whole, and only once.\<close>

lemma raw_ptr_round_trip:
  assumes "h a = None" "into_raw h a v = (h', p)"
  shows "from_raw h' (as_ptr (SendableRawPtr_clone (SendableRawPtr_new p))) = Some (h, v)"
    "from_raw h (as_ptr (SendableRawPtr_new p)) = None"
  using assms
  by (auto simp: into_raw_def from_raw_def as_ptr_def SendableRawPtr_clone_def SendableRawPtr_new_def
      fun_upd_idem)

text \<open>Writing a slice leaves every other byte alone and is what a later read of the slice sees.\<close>

lemma write_slice_outside: "a < p \<or> p + length bs \<le> a \<Longrightarrow> write_slice mem p bs a = mem a"
  by (auto simp: write_slice_def)

lemma write_slice_inside: "map (write_slice mem p bs) [p ..< p + length bs] = bs"
  by (rule nth_equalityI) (auto simp: write_slice_def)

lemma read_through_buffer:
  assumes "with_read_parts h mem (SendableReadBuffer_new c p n) f = Some (h', mem', r)"
    and "\<And>conn slice conn' slice' r. f conn slice = (conn', slice', r) \<Longrightarrow> length slice' = length slice"
  shows "(\<forall>a. a < p \<or> p + n \<le> a \<longrightarrow> mem' a = mem a)
    \<and> (\<exists>conn conn' slice'. h c = Some conn \<and> f conn (map mem [p ..< p + n]) = (conn', slice', r)
         \<and> h' = h(c \<mapsto> conn') \<and> map mem' [p ..< p + n] = slice')"
proof -
  obtain conn where c: "h c = Some conn"
    using assms(1) by (auto simp: with_read_parts_def read_parts_def SendableReadBuffer_new_def)
  obtain conn' slice' r' where f: "f conn (map mem [p ..< p + n]) = (conn', slice', r')"
    by (metis prod_cases3)
  with assms(1) c have "h' = h(c \<mapsto> conn')" "mem' = write_slice mem p slice'" "r' = r"
    by (auto simp: with_read_parts_def read_parts_def SendableReadBuffer_new_def)
  moreover from assms(2) [OF f] have "length slice' = n" by simp
  ultimately show ?thesis
    using c f write_slice_outside [of _ p slice' mem] write_slice_inside [of mem p slice'] by auto
qed

end
