(* ===== verification/Spec2Isabelle.thy ===== *)
theory Spec2Isabelle
  imports Fizz_Bench Fizz_Cpp_Steps Fizz_Build Fizz_Sidecar Fizz_Transfer Fizz_Bridge Fizz_Pointers
begin

text \<open>
  A verification development for fizz-rs, a Rust library that offers TLS 1.3 with delegated credentials
  by wrapping the C++ libraries fizz and folly, together with the programs of the repository that use it.

  \<^bold>\<open>The program.\<close> A parent certificate (\<open>certificates.rs\<close>) makes a generator that issues delegated
  credentials (\<open>credentials.rs\<close>). A server gets a credential, a client the verification info that belongs
  to it (\<open>types.rs\<close>, both travel through serde). Contexts (\<open>server_tls.rs\<close>, \<open>client_tls.rs\<close>) turn sockets
  into connections: \<open>connect\<close> and \<open>accept\<close> hand the descriptor to C++, where each connection has an
  event-base thread that runs the handshake, fills a read queue and carries out writes. Rust polls the
  queue and is woken through a waker slot both threads share (\<open>read_waker.rs\<close>); the handshake ends by a
  message on a oneshot channel (\<open>async_context.rs\<close>). Every C++ exception crosses the bridge as a text that
  \<open>error.rs\<close> sorts into variants. Around the library stand a benchmark with four backends
  (\<open>crates/tls_bench_ablation\<close>, one of them the C++ sessions of \<open>ffi/cpp_bench.cpp\<close>), the build script, an
  example and a demo, whose credential comes from a sidecar program (\<open>demo/fizz-sidecar\<close>).

  \<^bold>\<open>The theories\<close>, in the order in which they build on each other; each opens with what it holds.

  \<^item> \<open>Fizz_Prelude\<close>: machine integers, results as sums, the outcome \<open>call\<close> of an operation that may return,
    throw or block, and the collection \<open>res_simps\<close> that the proofs on results share.
  \<^item> \<open>Fizz_Error\<close>, \<open>Fizz_Types\<close>: \<open>error.rs\<close>; the structs of \<open>bridge.rs\<close> and the scheme codes of \<open>types.rs\<close>.
  \<^item> \<open>Fizz_Serde\<close>, \<open>Fizz_Serde_Structs\<close>: the hand-expanded \<open>Serialize\<close> and \<open>Deserialize\<close> of \<open>types.rs\<close> and
    \<open>credentials.rs\<close>, visitor by visitor. Round trips, and independence of the order of map entries.
  \<^item> \<open>Fizz_Hex\<close>: the two encoders and two decoders of hexadecimal text, in \<open>ffi/util.cpp\<close>,
    \<open>ffi/certificates_ffi.cpp\<close>, \<open>ffi/credentials_ffi.cpp\<close> and \<open>certificates.rs\<close>. Each decoder inverts each encoder.
  \<^item> \<open>Fizz_Certificates\<close>, \<open>Fizz_Credentials\<close>: the Rust wrappers with the FFI functions under them. What is
    generated verifies, is well formed and expires when it should; self-verification does not look at the clock; the JSON
    text.
  \<^item> \<open>Fizz_Async\<close>, \<open>Fizz_Pointers\<close>: \<open>async_context.rs\<close>, \<open>read_waker.rs\<close> and \<open>io.rs\<close>, over stores from addresses
    to values because their handles alias.
  \<^item> \<open>Fizz_Connection\<close>, \<open>Fizz_Stream\<close>, \<open>Fizz_Poll\<close>: the connection structs and functions of
    \<open>ffi/server_tls_ffi.cpp\<close> and \<open>ffi/client_tls_ffi.cpp\<close>; their read side as a byte stream; \<open>AsyncRead\<close> and
    \<open>AsyncWrite\<close> of the Rust connections. Bytes in order and without loss, in both directions.
  \<^item> \<open>Fizz_Wake\<close>: the polling task and the event-base thread interleaved, as a step relation over the atomic
    sections of \<open>poll_read\<close> and the read callbacks. No lost wake-up, no lost byte, a final end of stream.
  \<^item> \<open>Fizz_Context\<close>, \<open>Fizz_Handshake\<close>, \<open>Fizz_Tls\<close>: contexts and connection set-up, the check of the peer's
    credential and the handshake functions, and the futures \<open>connect\<close> and \<open>accept\<close>: exactly when they succeed, that what
    they return is an initial state of \<open>Fizz_Wake\<close>, and what they leave behind when they fail.
  \<^item> \<open>Fizz_Cpp_Session\<close>, \<open>Fizz_Cpp_Steps\<close>, \<open>Fizz_Cpp_Bench\<close>: the sessions of \<open>ffi/cpp_bench.cpp\<close> callback by
    callback, the orders in which the callbacks come as step relations, and the counters, entry point and Rust wrapper
    (\<open>cpp_bench.rs\<close>) around them. A session echoes what it received and resolves its promise once; the
    benchmark's promise is decided once.
  \<^item> \<open>Fizz_Bridge\<close>: the functions \<open>bridge.rs\<close> declares, with and without \<open>Result\<close>, and what an exception is on the
    Rust side: when a call of a function that throws without being declared so ends the process.
  \<^item> \<open>Fizz_Echo\<close>, \<open>Fizz_Bench\<close>: the echo loops, tasks and runs of the benchmark crate over streams, then its
    statistics and the table it prints.
  \<^item> \<open>Fizz_Endpoint\<close>, \<open>Fizz_Link\<close>: the same echo loops poll by poll, on the connections that \<open>connect\<close> and \<open>accept\<close>
    return, with both event-base threads, the wakers and the network as one step relation. The conversation
    cannot get stuck, stops within a bound, and the client reads back what it wrote.
  \<^item> \<open>Fizz_Build\<close>: \<open>build.rs\<close>, with the three patch files of the repository, patching as a change of a file system and the
    output as lines. Patching is done once, since the marks the script looks for are what the patches add.
  \<^item> \<open>Fizz_Examples\<close>: \<open>examples/generate_credential.rs\<close> and the client and server of \<open>demo/fizz-rs\<close>.
  \<^item> \<open>Fizz_Transfer\<close>: the demo's message poll by poll, from the client's writes and \<open>shutdown\<close> to the end of the stream at the
    server, over the same connections and a socket that holds a bounded number of bytes; writes of the client and the
    connection under the server may fail. A message that fits the socket arrives whole with its end; of a longer one the rest may
    stay in the transport, whose thread \<open>close\<close> has stopped; after a failure the server has read a beginning of the
    message and is told that the stream has ended.
  \<^item> \<open>Fizz_Sidecar\<close>: the program of \<open>demo/fizz-sidecar/sidecar\<close> that issues the credential of the demo, and the struct its
    server reads. The files fit the two programs, and the client accepts the credential, whatever the time.
  \<^item> This theory: the generator, the client context and \<open>connect\<close> composed.

  \<^bold>\<open>Conventions.\<close> A struct is a record, an enum a datatype; the client connection extends the server
  connection, whose fields it repeats in C++. \<open>Result\<close> is a sum with the error on the left. A C++ object that is
  only called, as a transport, is the history of the calls made on it, and its answers are functions
  of that history. Strings are lists of bytes. Counters and times are words of the width the source has, so they wrap
  where the source wraps; the hypotheses on times say that a sum fits 64 bits. Definitions compute, and
  witnesses evaluate them.

  \<^bold>\<open>Interfaces.\<close> \<open>wake_slot\<close> (registering and firing a waker, interpreted on \<open>ReadWaker\<close>), \<open>hex_decoder\<close>
  (both decoders), \<open>serde_format\<close> (a data format that gives back what it was given; an object and an
  array format), \<open>iobuf_queue\<close> (folly's queue; a list of blocks), \<open>byte_stream\<close> (a sublocale of \<open>iobuf_queue\<close>
  for the server and for the client connection), \<open>write_queue\<close> (both connections) \<open>reading\<close> (the two-thread
  read path, which extends \<open>iobuf_queue\<close> and has the waker slot as a sublocale), \<open>echo_endpoint\<close> (what the echo loops
  rely on, a sublocale of \<open>reading\<close> for the client and for the server connection) and \<open>json_reader\<close> (what serde_json sees of a
  printed document). The proofs about C++ sessions stand in \<open>iobuf_queue\<close>, those about conversation and transfer in \<open>reading\<close>.

  \<^bold>\<open>Parameters.\<close> Code outside the repository is an argument of the definitions: OpenSSL and fizz (the records
  \<open>crypto\<close>, \<open>dc_crypto\<close>, \<open>tls_crypto\<close>), folly queues (\<open>iobq\<close>), data formats (\<open>ser_format\<close>, \<open>de_format\<close>), the comparison
  \<open>will_wake\<close>, clocks, the file system, \<open>patch\<close>, \<open>python3\<close>, \<open>brew\<close>, the compiler, floating-point numbers
  (\<open>floats\<close>), rcgen and rustls (\<open>rustls_lib\<close>), the calls on elliptic-curve keys (\<open>ec_calls\<close>), the scheduler and the network (\<open>run_env\<close>, \<open>tls_env\<close>). What a
  theorem needs of them is a hypothesis of its statement, and a witness shows an instance that has it. Of Tokio, \<open>read_exact\<close>,
  \<open>write_all\<close> and \<open>flush\<close> are modelled as they are documented, over a stream whose content and faults are
  part of the environment.

  \<^bold>\<open>Loops and bounds.\<close> Recursive definitions are total: the loops over bytes, rounds, runs and chains are
  structural or have a measure, and the waiting loop of the blocking handshake is cut into the readings
  of its clock, at most as many as its timeout allows. Waiting without end is a value of its own
  (\<open>Blocks\<close>, \<open>None\<close>, \<open>BenchHangs\<close>), so results never hold only under the assumption that something returns. In \<open>Fizz_Wake\<close>
  the number of steps until a wake-up is at most three, the longest read callback; in \<open>Fizz_Link\<close> a run of \<open>R\<close> rounds
  of \<open>b\<close> bytes has at most \<open>10 R b + 4 R + 2\<close> steps, and in \<open>Fizz_Transfer\<close> a run of \<open>k\<close> pieces with \<open>m\<close> bytes
  has at most \<open>6 m + k + 5\<close>, since every step moves a counter that such a term bounds. Threads interleave
  at atomic operations and critical sections; memory is sequentially consistent, as the code uses the
  default ordering.

  \<^bold>\<open>Not modelled.\<close> The argument types on the bridge and the glue cxx generates from them; the module list of \<open>lib.rs\<close>;
  \<open>Debug\<close> output and the \<open>expecting\<close> texts of visitors; accessors that return a field; C++ helpers nothing
  calls (\<open>certToPem\<close>, \<open>serializeDelegatedCredential\<close>, \<open>loadCACertificates\<close>); argument parsing by clap and
  what the benchmark writes to standard error; the teardown of the C++ benchmark after it has succeeded; in
  \<open>Fizz_Link\<close>, what the end of a task does to the connection it drops, and faults of the network; in \<open>Fizz_Transfer\<close>,
  what the client reads, and the drop of the connection after \<open>shutdown\<close>; that an event-base thread cannot be started; the end of the 64-bit range of
  clock ticks; the TLS protocol itself, which is fizz; the tests.
\<close>

section \<open>From the generator to the client\<close>

text \<open>
  What fizz documents of a credential it signs with a life time of \<open>valid\<close> seconds at second
  \<open>issued\<close>: it carries the DER encoding of the key, and it expires that long after \<open>issued\<close>.
\<close>

definition issues_at ::
  "('x, 'k, 't, 's, 'p, 'd) tls_crypto \<Rightarrow> ('s, 'k) CredentialGenerator \<Rightarrow> 'x \<Rightarrow> nat \<Rightarrow> u32 \<Rightarrow> bool" where
  "issues_at K g leaf issued valid \<longleftrightarrow>
     (\<forall>key ps cs cred.
        generateCredential K (parentCert (cg_inner g)) (parentKey (cg_inner g)) key ps cs valid = Inr cred
        \<longrightarrow> i2d_pubkey K key = Some (fz_public_key cred)
          \<and> (\<exists>tp. getCredentialExpiresTime K leaf cred = Inr tp
               \<and> ticks tp div hz tp = issued + unat valid))"

text \<open>The record the generator keeps of a credential, in which its two byte strings are hexadecimal.\<close>

definition credential_record :: "fizz_credential \<Rightarrow> DelegatedCredential" where
  "credential_record cred =
     \<lparr>dc_valid_time = fz_valid_time cred,
      dc_expected_verify_scheme = fz_expected_verify_scheme cred,
      dc_public_key_der = bytes_to_hex_lower (fz_public_key cred),
      dc_credential_scheme = fz_credential_scheme cred,
      dc_signature = bytes_to_hex_lower (fz_signature cred)\<rparr>"

lemma truncated_library [simp]:
  "generateCredential (dc_crypto.truncate K) = generateCredential K"
  "i2d_pubkey (dc_crypto.truncate K) = i2d_pubkey K"
  "generateDelegatedCredentialPEM (dc_crypto.truncate K) = generateDelegatedCredentialPEM K"
  by (simp_all add: dc_crypto.defs)

text \<open>The credential behind a generated record, and what the record says of it.\<close>

lemma generated_accepted_iff:
  assumes "issues_at K g leaf issued valid"
    and "CredentialGenerator_generate (dc_crypto.truncate K) now g name valid = Inr d"
    and "hz now > 0" and "ticks now div hz now + unat valid < 2 ^ 64" and "issued + unat valid < 2 ^ 64"
    and "ClientTlsContext_new (DelegatedCredentialData_verification_info d) ca = Inr ctx"
  obtains cred where
    "sc_credential (dcd_inner d) = credential_record cred"
    and "generateDelegatedCredentialPEM K cred (sc_private_key_pem (dcd_inner d)) =
       Inr (sc_credential_pem (dcd_inner d))"
    and "context_accepts K (ctc_inner ctx) (Some (PeerDelegatedCredential leaf cred))
      \<longleftrightarrow> ticks now div hz now = issued"
    and "cx_caCertPath (ctc_inner ctx) = ca"
proof -
  let ?sc = "dcd_inner d"
  from assms(2) have "generate_delegated_credential (dc_crypto.truncate K) now (cg_inner g) name valid = Inr ?sc"
    by (auto simp: CredentialGenerator_generate_def res_simps)
  then obtain key cred ps cs where
    gen: "generateCredential K (parentCert (cg_inner g)) (parentKey (cg_inner g)) key ps cs valid = Inr cred"
    and der: "publicKeyToDerHex (i2d_pubkey K key) = Inr (sc_public_key_der ?sc)"
    and pem: "generateDelegatedCredentialPEM K cred (sc_private_key_pem ?sc) = Inr (sc_credential_pem ?sc)"
    and dc: "sc_credential ?sc = credential_record cred"
    and exp: "sc_expires_at ?sc = of_nat ((ticks now + unat valid * hz now) div hz now)"
    by (rule generate_delegated_credential_InrE) (simp add: credential_record_def)
  from assms(1) gen obtain tp where pub: "i2d_pubkey K key = Some (fz_public_key cred)"
    and tp: "getCredentialExpiresTime K leaf cred = Inr tp" "ticks tp div hz tp = issued + unat valid"
    unfolding issues_at_def by blast
  from assms(6) have ctx: "ctc_inner ctx =
      \<lparr>cx_ctx = tls13_config True, cx_serviceName = sc_service_name ?sc,
       cx_validTime = fz_valid_time cred, cx_expectedVerifyScheme = fz_expected_verify_scheme cred,
       cx_publicKeyDer = bytes_to_hex_lower (fz_public_key cred), cx_expiresAt = sc_expires_at ?sc,
       cx_caCertPath = ca, cx_alpnProtocols = [], cx_sniHostname = [], cx_dcEnabled = True\<rparr>"
    using der pub
    by (auto simp: ClientTlsContext_new_def new_client_tls_context_def ffi_result_def dc credential_record_def
        DelegatedCredentialData_verification_info_def get_public_verification_info_def)
  have "(sc_expires_at ?sc = of_nat (ticks tp div hz tp)) = (ticks now div hz now = issued)"
    unfolding exp tp(2) expiry_seconds [OF assms(3)]
    using assms(4,5) by (simp add: of_nat_u64_inject del: of_nat_add)
  then have "context_accepts K (ctc_inner ctx) (Some (PeerDelegatedCredential leaf cred))
      \<longleftrightarrow> ticks now div hz now = issued"
    by (simp add: context_accepts_def ctx tp(1))
  with dc pem ctx show ?thesis by (intro that) simp_all
qed

section \<open>Properties\<close>

text \<open>C4. End to end: a credential is generated, its verification info is given to a client, and the
  server presents the credential in a handshake that otherwise succeeds. The client gets its
  connection exactly when the generator's own clock reading fell into the second in which fizz issued
  the credential; when the second has changed in between, every handshake with this credential
  is refused.\<close>

theorem generated_credential_connects_iff_same_second:
  assumes "issues_at K g leaf issued valid"
    and "CredentialGenerator_generate (dc_crypto.truncate K) now g name valid = Inr d"
    and "hz now > 0" and "ticks now div hz now + unat valid < 2 ^ 64" and "issued + unat valid < 2 ^ 64"
    and "ClientTlsContext_new (DelegatedCredentialData_verification_info d) ca = Inr ctx"
    and "into_std env = Inr raw" and "join_error env = None" and "newSocket K raw = Inr ()"
    and "x509_store_new K" and "x509_store_load_locations K ca"
  shows "\<exists>cred. sc_credential (dcd_inner d) = credential_record cred
    \<and> generateDelegatedCredentialPEM K cred (sc_private_key_pem (dcd_inner d)) =
        Inr (sc_credential_pem (dcd_inner d))
    \<and> ((\<exists>c. to_value (connect K
            (env\<lparr>hs_event := Some (HandshakeSuccess (Some (PeerDelegatedCredential leaf cred)))\<rparr>)
            h ctx hostname) = Returns (Inr c))
        = (ticks now div hz now = issued))"
proof -
  from generated_accepted_iff [OF assms(1-6)] obtain cred where
    "sc_credential (dcd_inner d) = credential_record cred"
    and "generateDelegatedCredentialPEM K cred (sc_private_key_pem (dcd_inner d)) =
       Inr (sc_credential_pem (dcd_inner d))"
    and "context_accepts K (ctc_inner ctx) (Some (PeerDelegatedCredential leaf cred))
      \<longleftrightarrow> ticks now div hz now = issued" and "cx_caCertPath (ctc_inner ctx) = ca" by blast
  with assms(7-11) show ?thesis
    by (intro exI [of _ cred]) (simp add: connect_ok_iff)
qed

theorem generated_credential_connects_iff_same_second_witness:
  "\<exists>cred ctx. ClientTlsContext_new (DelegatedCredentialData_verification_info (sample_data 100)) ''ca'' = Inr ctx
    \<and> (\<exists>c. to_value (connect (sample_tls 100 900)
         ((sample_env AttemptFallback)\<lparr>hs_event :=
            Some (HandshakeSuccess (Some (PeerDelegatedCredential () cred)))\<rparr>)
         empty_slots ctx ''host'') = Returns (Inr c))"
proof -
  let ?K = "sample_tls 100 900"
  have trunc: "dc_crypto.truncate ?K = sample_library 100"
    by (simp add: sample_tls_def dc_crypto.defs tls_crypto.defs)
  have law: "issues_at ?K sample_generator () 1000 3600"
    by (auto simp: issues_at_def sample_tls_def sample_library_def dc_crypto.defs tls_crypto.defs)
  obtain ctx where ctx: "ClientTlsContext_new (DelegatedCredentialData_verification_info (sample_data 100)) ''ca'' = Inr ctx"
    by (simp add: ClientTlsContext_new_def new_client_tls_context_def ffi_result_def)
  from generated_credential_connects_iff_same_second [OF law, unfolded trunc, OF sample_generate _ _ _ ctx,
      of "sample_env AttemptFallback" 7 empty_slots "''host''"] ctx
  show ?thesis by auto
qed

end
